(* ===== verification/Prelude.thy ===== *)
theory Prelude
  imports Main "HOL-Library.Word" "HOL-Library.Monad_Syntax"
begin

text \<open>
  What every component of the development shares: the fixed-width integer types of the C
  source, the little-endian layout of a machine word in memory, a byte-addressed host memory
  in which an access outside every mapped object is an explicit failure, C objects kept as
  byte lists, and the interface \<open>byte_store\<close> that host memory, byte-list objects and (in
  \<open>Memory\<close>) guest memory all implement.

  Undefined behaviour of C (an access outside an object, a null dereference) is the value
  \<open>None\<close> of an \<open>option\<close>; the \<open>do\<close> notation of \<open>Monad_Syntax\<close> propagates it.
\<close>

unbundle bit_operations_syntax

type_synonym u8 = "8 word"
type_synonym u16 = "16 word"
type_synonym u32 = "32 word"
type_synonym u64 = "64 word"
type_synonym bytes = "u8 list"

named_theorems layout_simps
named_theorems const_simps

section \<open>Words in memory\<close>

primrec le_bytes :: "nat \<Rightarrow> 'a::len word \<Rightarrow> bytes" where
  "le_bytes 0 w = []"
| "le_bytes (Suc n) w = ucast w # le_bytes n (drop_bit 8 w)"

primrec of_le :: "bytes \<Rightarrow> 'a::len word" where
  "of_le [] = 0"
| "of_le (b # bs) = ucast b OR push_bit 8 (of_le bs)"

lemma length_le_bytes [simp]: "length (le_bytes n w) = n"
  by (induction n arbitrary: w) auto

lemma le_bytes_numeral [layout_simps]:
  "le_bytes (numeral k) w = ucast w # le_bytes (pred_numeral k) (drop_bit 8 w)"
  by (simp add: numeral_eq_Suc)

lemma le_bytes_1 [layout_simps]: "le_bytes (Suc 0) w = [ucast w]"
  by simp

lemma le_bytes_zero [simp]: "le_bytes n 0 = replicate n 0"
  by (induction n) auto

lemma of_le_zero [simp]: "of_le (replicate n 0) = 0"
  by (induction n) auto

lemma bit_of_le:
  "bit (of_le bs :: 'a::len word) i \<longleftrightarrow>
     i < LENGTH('a) \<and> i < 8 * length bs \<and> bit (bs ! (i div 8)) (i mod 8)"
proof (induction bs arbitrary: i)
  case Nil
  then show ?case by simp
next
  case (Cons b bs)
  show ?case
  proof (cases "i < 8")
    case True
    then show ?thesis by (auto simp: bit_or_iff bit_push_bit_iff bit_ucast_iff)
  next
    case False
    then obtain j where j: "i = 8 + j" by (metis le_add_diff_inverse not_less)
    have "(8 + j) div 8 = Suc (j div 8)" by simp
    then show ?thesis using Cons.IH [of j] bit_imp_le_length [of b i]
      by (auto simp: j bit_or_iff bit_push_bit_iff bit_ucast_iff possible_bit_def)
  qed
qed

lemma nth_le_bytes: "i < n \<Longrightarrow> le_bytes n w ! i = ucast (drop_bit (8 * i) w)"
proof (induction n arbitrary: w i)
  case (Suc n)
  then show ?case by (cases i) (auto simp: add.commute)
qed simp

lemma of_le_le_bytes: "of_le (le_bytes n (w :: 'a::len word)) = take_bit (8 * n) w"
  by (rule bit_eqI)
    (auto simp: bit_of_le nth_le_bytes bit_take_bit_iff bit_ucast_iff bit_drop_bit_eq)

lemma of_le_le_bytes_full [simp]:
  "LENGTH('a) \<le> 8 * n \<Longrightarrow> of_le (le_bytes n (w :: 'a::len word)) = w"
  by (simp add: of_le_le_bytes take_bit_word_eq_self)

lemma le_bytes_of_le:
  "length bs = n \<Longrightarrow> 8 * n \<le> LENGTH('a) \<Longrightarrow> le_bytes n (of_le bs :: 'a::len word) = bs"
  by (rule nth_equalityI, simp, rule bit_eqI)
    (auto simp: nth_le_bytes bit_ucast_iff bit_drop_bit_eq bit_of_le)

lemma of_le_le_bytes_ucast:
  assumes "LENGTH('a) \<le> 8 * n" "LENGTH('a) \<le> LENGTH('b)"
  shows "(of_le (le_bytes n (w :: 'a::len word)) :: 'b::len word) = ucast w"
proof (rule bit_eqI)
  fix k
  have "bit w k \<Longrightarrow> k < 8 * n" using bit_imp_le_length [of w k] assms(1) by simp
  then show "bit (of_le (le_bytes n w) :: 'b word) k = bit (ucast w :: 'b word) k"
    by (cases "k < 8 * n") (auto simp: bit_of_le nth_le_bytes bit_ucast_iff bit_drop_bit_eq)
qed

lemma of_le_append: "of_le (xs @ ys) = of_le xs OR push_bit (8 * length xs) (of_le ys :: 'a::len word)"
proof (induction xs)
  case (Cons x xs)
  have "push_bit 8 (of_le xs OR push_bit (8 * length xs) (of_le ys :: 'a word)) =
      push_bit 8 (of_le xs) OR push_bit (8 * length (x # xs)) (of_le ys)"
    by (rule bit_eqI) (auto simp: bit_simps)
  then show ?case using Cons by (simp add: or.assoc)
qed simp

lemma of_nat_unat_add:
  "unat a + k < 2 ^ LENGTH('a) \<Longrightarrow> unat (a + of_nat k :: 'a::len word) = unat a + k"
  by (simp add: unat_word_ariths unat_of_nat)

lemma all_less_2: "(\<forall>i<2::nat. P i) \<longleftrightarrow> P 0 \<and> P 1"
  by (auto simp: less_2_cases_iff)

lemma unat_lt_64: "unat (a :: u64) < 2 ^ 64"
  using unsigned_less [of a] by simp

lemma unat_ucast8 [simp]: "unat (ucast (x :: u8) :: u64) = unat x"
  by (simp add: unsigned_ucast_eq take_bit_nat_eq_self unsigned_less [of x, simplified, THEN less_trans])

lemma unat_ucast16 [simp]: "unat (ucast (x :: u16) :: u64) = unat x"
  by (simp add: unsigned_ucast_eq take_bit_nat_eq_self unsigned_less [of x, simplified, THEN less_trans])

lemma unat_ucast32 [simp]: "unat (ucast (x :: u32) :: u64) = unat x"
  by (simp add: unsigned_ucast_eq take_bit_nat_eq_self unsigned_less [of x, simplified, THEN less_trans])

lemma ucast32_eq_0: "(ucast (x :: u32) :: u64) = 0 \<longleftrightarrow> x = 0"
  by (metis unat_ucast32 unat_eq_0 unsigned_0)

lemma unat_add_sub_one:
  fixes a b :: u64
  assumes "0 < unat b" "unat a + unat b \<le> 2 ^ 64"
  shows "unat (a + b - 1) = unat a + unat b - 1"
proof -
  have "unat (b - 1) = unat b - 1" using assms(1) by (subst unat_sub) (auto simp: word_le_nat_alt)
  moreover have "a + b - 1 = a + (b - 1)" by simp
  ultimately show ?thesis using assms by (simp only: unat_word_ariths) simp
qed

text \<open>Words of at most 64 bits are equal when their bits are, bit by bit.\<close>

lemma word_eqI64:
  fixes x y :: "'a::len word"
  assumes "LENGTH('a) \<le> 64" "list_all (\<lambda>k. k < LENGTH('a) \<longrightarrow> bit x k = bit y k) [0..<64]"
  shows "x = y"
proof (rule bit_word_eqI)
  fix n
  assume n: "n < LENGTH('a)"
  then have "n \<in> set [0..<64]" using assms(1) by simp
  with assms(2) have "n < LENGTH('a) \<longrightarrow> bit x n = bit y n" unfolding list_all_iff by (rule bspec)
  with n show "bit x n = bit y n" by (rule rev_mp)
qed

lemma upt_0_64: "[0..<64] = [0, 1, 2, 3, 4, 5, 6, 7, 8, 9, 10, 11, 12, 13, 14, 15, 16, 17, 18, 19, 20,
  21, 22, 23, 24, 25, 26, 27, 28, 29, 30, 31, 32, 33, 34, 35, 36, 37, 38, 39, 40, 41, 42, 43, 44,
  45, 46, 47, 48, 49, 50, 51, 52, 53, 54, 55, 56, 57, 58, 59, 60, 61, 62, 63]"
  by (simp add: upt_rec)

section \<open>Consecutive writes described as a list\<close>

primrec wr_all :: "('s \<Rightarrow> nat \<Rightarrow> bytes \<Rightarrow> 's option) \<Rightarrow> (nat \<times> bytes) list \<Rightarrow> 's \<Rightarrow> 's option" where
  "wr_all wr [] s = Some s"
| "wr_all wr (w # ws) s = do { s' \<leftarrow> wr s (fst w) (snd w); wr_all wr ws s' }"

definition apart :: "nat \<times> nat \<Rightarrow> nat \<times> nat \<Rightarrow> bool" where
  "apart p q \<longleftrightarrow> fst p + snd p \<le> fst q \<or> fst q + snd q \<le> fst p"

definition extent :: "nat \<times> bytes \<Rightarrow> nat \<times> nat" where
  "extent w = (fst w, length (snd w))"

primrec layout_from :: "nat \<Rightarrow> bytes list \<Rightarrow> (nat \<times> bytes) list" where
  "layout_from a [] = []"
| "layout_from a (b # bs) = (a, b) # layout_from (a + length b) bs"

lemma extent_simps [simp]: "extent (a, bs) = (a, length bs)"
  by (simp add: extent_def)

lemma apart_sym: "apart p q = apart q p"
  by (auto simp: apart_def)

lemma wr_all_append:
  "wr_all wr (xs @ ys) s = do { s' \<leftarrow> wr_all wr xs s; wr_all wr ys s' }"
  by (induction xs arbitrary: s) (auto split: Option.bind_split)

lemma layout_from_append:
  "layout_from a (xs @ ys) = layout_from a xs @ layout_from (a + length (concat xs)) ys"
  by (induction xs arbitrary: a) (auto simp: add.assoc)

section \<open>The interface of a byte store\<close>

text \<open>
  \<open>rd s a n\<close> reads \<open>n\<close> bytes, \<open>wr s a bs\<close> writes a run of bytes, \<open>ok s a n\<close> says that
  the range is accessible. The laws are those a client relies on: accesses to an accessible
  range succeed, a read returns what was written there, a write leaves every other accessible
  range alone and changes no accessibility.
\<close>

locale byte_store =
  fixes rd :: "'s \<Rightarrow> nat \<Rightarrow> nat \<Rightarrow> bytes option"
    and wr :: "'s \<Rightarrow> nat \<Rightarrow> bytes \<Rightarrow> 's option"
    and ok :: "'s \<Rightarrow> nat \<Rightarrow> nat \<Rightarrow> bool"
  assumes rd_total: "ok s a n \<Longrightarrow> \<exists>bs. rd s a n = Some bs \<and> length bs = n"
    and wr_total: "ok s a (length bs) \<Longrightarrow> \<exists>s'. wr s a bs = Some s'"
    and rd_wr_same: "ok s a (length bs) \<Longrightarrow> wr s a bs = Some s' \<Longrightarrow> rd s' a (length bs) = Some bs"
    and rd_wr_other: "ok s a (length bs) \<Longrightarrow> wr s a bs = Some s' \<Longrightarrow> ok s b n \<Longrightarrow>
          apart (a, length bs) (b, n) \<Longrightarrow> rd s' b n = rd s b n"
    and ok_wr: "ok s a (length bs) \<Longrightarrow> wr s a bs = Some s' \<Longrightarrow> ok s' b n = ok s b n"
    and ok_sub: "ok s a n \<Longrightarrow> a \<le> b \<Longrightarrow> b + k \<le> a + n \<Longrightarrow> ok s b k"
    and rd_append: "ok s a (n + k) \<Longrightarrow>
          rd s a (n + k) = do { x \<leftarrow> rd s a n; y \<leftarrow> rd s (a + n) k; Some (x @ y) }"
begin

lemma ok_wr_all:
  "wr_all wr ws s = Some s' \<Longrightarrow> (\<And>w. w \<in> set ws \<Longrightarrow> ok s (fst w) (length (snd w))) \<Longrightarrow>
     ok s' b n = ok s b n"
proof (induction ws arbitrary: s)
  case (Cons w ws)
  from Cons.prems(1) obtain t where t: "wr s (fst w) (snd w) = Some t" "wr_all wr ws t = Some s'"
    by (auto split: Option.bind_splits)
  have ok_eq: "ok t x k = ok s x k" for x k
    using ok_wr t(1) Cons.prems(2) by (metis list.set_intros(1))
  show ?case using Cons.IH [OF t(2)] Cons.prems(2) ok_eq by simp
qed simp

lemma wr_all_total:
  "(\<And>w. w \<in> set ws \<Longrightarrow> ok s (fst w) (length (snd w))) \<Longrightarrow> \<exists>s'. wr_all wr ws s = Some s'"
proof (induction ws arbitrary: s)
  case (Cons w ws)
  then obtain t where t: "wr s (fst w) (snd w) = Some t" using wr_total by fastforce
  have "ok t x k = ok s x k" for x k using ok_wr t Cons.prems by (metis list.set_intros(1))
  then show ?case using Cons.IH [of t] Cons.prems t by auto
qed simp

text \<open>Frame: a range apart from every write keeps its contents.\<close>

lemma rd_wr_all_other:
  "wr_all wr ws s = Some s' \<Longrightarrow> (\<And>w. w \<in> set ws \<Longrightarrow> ok s (fst w) (length (snd w))) \<Longrightarrow>
   ok s b n \<Longrightarrow> (\<And>w. w \<in> set ws \<Longrightarrow> apart (extent w) (b, n)) \<Longrightarrow> rd s' b n = rd s b n"
proof (induction ws arbitrary: s)
  case (Cons w ws)
  from Cons.prems(1) obtain t where t: "wr s (fst w) (snd w) = Some t" "wr_all wr ws t = Some s'"
    by (auto split: Option.bind_splits)
  have okw: "ok s (fst w) (length (snd w))" using Cons.prems(2) by simp
  have ok_eq: "ok t x k = ok s x k" for x k using ok_wr [OF okw t(1)] .
  have "rd s' b n = rd t b n"
    using Cons.IH [OF t(2)] Cons.prems ok_eq by simp
  also have "\<dots> = rd s b n"
    using rd_wr_other [OF okw t(1) Cons.prems(3)] Cons.prems(4) by (simp add: extent_def)
  finally show ?case .
qed simp

text \<open>Pairwise apart writes are all readable afterwards.\<close>

lemma rd_wr_all_in:
  "wr_all wr ws s = Some s' \<Longrightarrow> (\<And>w. w \<in> set ws \<Longrightarrow> ok s (fst w) (length (snd w))) \<Longrightarrow>
   sorted_wrt (\<lambda>v w. apart (extent v) (extent w)) ws \<Longrightarrow> w \<in> set ws \<Longrightarrow>
   rd s' (fst w) (length (snd w)) = Some (snd w)"
proof (induction ws arbitrary: s)
  case (Cons v ws)
  from Cons.prems(1) obtain t where t: "wr s (fst v) (snd v) = Some t" "wr_all wr ws t = Some s'"
    by (auto split: Option.bind_splits)
  have okv: "ok s (fst v) (length (snd v))" using Cons.prems(2) by simp
  have ok_eq: "ok t x k = ok s x k" for x k using ok_wr [OF okv t(1)] .
  show ?case
  proof (cases "w \<in> set ws")
    case True
    then show ?thesis using Cons.IH [OF t(2)] Cons.prems ok_eq by simp
  next
    case False
    then have w: "w = v" using Cons.prems(4) by simp
    have "rd s' (fst v) (length (snd v)) = rd t (fst v) (length (snd v))"
      using rd_wr_all_other [OF t(2)] Cons.prems okv ok_eq
      by (auto simp: extent_def apart_sym)
    then show ?thesis using rd_wr_same [OF okv t(1)] w by simp
  qed
qed simp

lemma layout_from_ok:
  "ok s a (length (concat bss)) \<Longrightarrow> w \<in> set (layout_from a bss) \<Longrightarrow>
     ok s (fst w) (length (snd w)) \<and> a \<le> fst w \<and> fst w + length (snd w) \<le> a + length (concat bss)"
proof (induction bss arbitrary: a)
  case (Cons b bss)
  show ?case
  proof (cases "w = (a, b)")
    case True
    then show ?thesis using Cons.prems(1) ok_sub by fastforce
  next
    case False
    then have "w \<in> set (layout_from (a + length b) bss)" using Cons.prems(2) by simp
    moreover have "ok s (a + length b) (length (concat bss))"
      using ok_sub [OF Cons.prems(1), of "a + length b"] by simp
    ultimately show ?thesis using Cons.IH by fastforce
  qed
qed simp

text \<open>Adjacent writes leave the concatenation of what they wrote.\<close>

lemma rd_wr_layout:
  "ok s a (length (concat bss)) \<Longrightarrow> wr_all wr (layout_from a bss) s = Some s' \<Longrightarrow> bss \<noteq> [] \<Longrightarrow>
     rd s' a (length (concat bss)) = Some (concat bss)"
proof (induction bss arbitrary: a s)
  case (Cons b bss)
  from Cons.prems(2) obtain t where
    t: "wr s a b = Some t" "wr_all wr (layout_from (a + length b) bss) t = Some s'"
    by (auto split: Option.bind_splits)
  have okb: "ok s a (length b)" using ok_sub [OF Cons.prems(1), of a] by simp
  have ok_eq: "ok t x k = ok s x k" for x k using ok_wr [OF okb t(1)] .
  have okr: "ok s (a + length b) (length (concat bss))"
    using ok_sub [OF Cons.prems(1), of "a + length b"] by simp
  have apart: "apart (extent w) (a, length b)" and okw: "ok t (fst w) (length (snd w))"
    if "w \<in> set (layout_from (a + length b) bss)" for w
    using layout_from_ok [OF okr that] ok_eq by (auto simp: apart_def extent_def)
  have ok': "ok s' x k = ok s x k" for x k
    using ok_wr_all [OF t(2) okw] ok_eq by simp
  have 1: "rd s' a (length b) = Some b"
    using rd_wr_all_other [OF t(2) okw _ apart] okb ok_eq rd_wr_same [OF okb t(1)] by simp
  show ?case
  proof (cases "bss = []")
    case True
    then show ?thesis using 1 by simp
  next
    case False
    then have "rd s' (a + length b) (length (concat bss)) = Some (concat bss)"
      using Cons.IH [OF _ t(2)] okr ok_eq by simp
    then show ?thesis
      using 1 rd_append [of s' a "length b" "length (concat bss)"] Cons.prems(1) ok' by simp
  qed
qed simp

lemma wr_layout:
  assumes "ok s a (length (concat bss))" "bss \<noteq> []"
  shows "\<exists>s'. wr_all wr (layout_from a bss) s = Some s' \<and>
    rd s' a (length (concat bss)) = Some (concat bss) \<and>
    (\<forall>b n. ok s b n \<longrightarrow> apart (a, length (concat bss)) (b, n) \<longrightarrow> rd s' b n = rd s b n) \<and>
    (\<forall>b n. ok s' b n = ok s b n)"
proof -
  let ?ws = "layout_from a bss"
  have okw: "ok s (fst w) (length (snd w))" and sub: "a \<le> fst w"
    "fst w + length (snd w) \<le> a + length (concat bss)" if "w \<in> set ?ws" for w
    using layout_from_ok [OF assms(1) that] by auto
  obtain s' where s': "wr_all wr ?ws s = Some s'"
    using wr_all_total okw by blast
  have "rd s' b n = rd s b n" if "ok s b n" "apart (a, length (concat bss)) (b, n)" for b n
  proof (rule rd_wr_all_other [OF s' okw that(1)])
    fix w
    assume "w \<in> set ?ws"
    with that(2) sub [OF this] show "apart (extent w) (b, n)"
      by (auto simp: apart_def extent_def)
  qed
  then show ?thesis
    using s' rd_wr_layout [OF assms(1) s' assms(2)] ok_wr_all [OF s' okw] by blast
qed

lemma rd_sub:
  assumes "ok s a n" "rd s a n = Some bs" "a \<le> b" "b + k \<le> a + n"
  shows "rd s b k = Some (take k (drop (b - a) bs))"
proof -
  define i j where "i = b - a" and "j = a + n - (b + k)"
  have n: "n = i + (k + j)" and b: "b = a + i" using assms(3,4) by (auto simp: i_def j_def)
  have ok': "ok s (a + i) (k + j)" "ok s a i" "ok s (a + i) k" "ok s (a + i + k) j"
    using ok_sub [OF assms(1)] by (auto simp: n)
  obtain x y z where xyz: "rd s a i = Some x" "length x = i" "rd s (a + i) k = Some y" "length y = k"
    "rd s (a + i + k) j = Some z"
    using rd_total ok' by metis
  have "rd s a n = Some (x @ y @ z)"
    using xyz rd_append [of s a i "k + j"] rd_append [OF ok'(1)] assms(1) by (simp add: n)
  then show ?thesis using xyz assms(2) b by simp
qed

text \<open>A write inside a range of known contents replaces that part of the contents.\<close>

lemma wr_within:
  assumes "ok s a n" "rd s a n = Some xs" "k + length bs \<le> n"
  shows "\<exists>s'. wr s (a + k) bs = Some s' \<and>
    rd s' a n = Some (take k xs @ bs @ drop (k + length bs) xs) \<and>
    (\<forall>b m. ok s' b m = ok s b m) \<and>
    (\<forall>b m. ok s b m \<longrightarrow> apart (a, n) (b, m) \<longrightarrow> rd s' b m = rd s b m)"
proof -
  define j where "j = n - (k + length bs)"
  have n: "n = k + (length bs + j)" using assms(3) by (simp add: j_def)
  have ok': "ok s (a + k) (length bs + j)" "ok s a k" "ok s (a + k) (length bs)"
    "ok s (a + k + length bs) j"
    using ok_sub [OF assms(1)] by (auto simp: n)
  obtain s' where s': "wr s (a + k) bs = Some s'" using wr_total ok'(3) by blast
  have ok_eq: "ok s' b m = ok s b m" for b m using ok_wr [OF ok'(3) s'] .
  have len: "length xs = n" using rd_total [OF assms(1)] assms(2) by auto
  have "rd s' a k = Some (take k xs)" "rd s' (a + k + length bs) j = Some (drop (k + length bs) xs)"
    using rd_wr_other [OF ok'(3) s' ok'(2)] rd_wr_other [OF ok'(3) s' ok'(4)] len
      rd_sub [OF assms(1,2), of a k] rd_sub [OF assms(1,2), of "a + k + length bs" j]
    by (simp_all add: apart_def n add.assoc)
  then have "rd s' a n = Some (take k xs @ bs @ drop (k + length bs) xs)"
    using rd_append [of s' a k "length bs + j"] rd_append [of s' "a + k" "length bs" j]
      rd_wr_same [OF ok'(3) s'] assms(1) ok'(1) ok_eq by (simp add: n)
  moreover have "rd s' b m = rd s b m" if "ok s b m" "apart (a, n) (b, m)" for b m
    using rd_wr_other [OF ok'(3) s' that(1)] that(2) assms(3) by (auto simp: apart_def)
  ultimately show ?thesis using s' ok_eq by blast
qed

end

section \<open>Host memory\<close>

text \<open>A host address is mapped to a byte or belongs to no object of the program.\<close>

type_synonym mem = "nat \<rightharpoonup> u8"

primrec load_bytes :: "mem \<Rightarrow> nat \<Rightarrow> nat \<Rightarrow> bytes option" where
  "load_bytes m a 0 = Some []"
| "load_bytes m a (Suc n) =
     do { b \<leftarrow> m a; bs \<leftarrow> load_bytes m (Suc a) n; Some (b # bs) }"

primrec store_bytes :: "mem \<Rightarrow> nat \<Rightarrow> bytes \<Rightarrow> mem option" where
  "store_bytes m a [] = Some m"
| "store_bytes m a (b # bs) =
     (if m a = None then None else store_bytes (m(a \<mapsto> b)) (Suc a) bs)"

definition mapped :: "mem \<Rightarrow> nat \<Rightarrow> nat \<Rightarrow> bool" where
  "mapped m a n \<longleftrightarrow> (\<forall>i<n. m (a + i) \<noteq> None)"

definition upd_bytes :: "mem \<Rightarrow> nat \<Rightarrow> bytes \<Rightarrow> mem" where
  "upd_bytes m a bs = (\<lambda>x. if a \<le> x \<and> x < a + length bs then Some (bs ! (x - a)) else m x)"

lemma mapped_0 [simp]: "mapped m a 0"
  by (simp add: mapped_def)

lemma mapped_Suc: "mapped m a (Suc n) \<longleftrightarrow> m a \<noteq> None \<and> mapped m (Suc a) n"
  by (simp add: mapped_def All_less_Suc2)

lemma mapped_sub: "mapped m a n \<Longrightarrow> a \<le> b \<Longrightarrow> b + k \<le> a + n \<Longrightarrow> mapped m b k"
  unfolding mapped_def
proof (intro allI impI)
  fix i
  assume *: "\<forall>i<n. m (a + i) \<noteq> None" "a \<le> b" "b + k \<le> a + n" "i < k"
  then have "b - a + i < n" by simp
  with *(1) have "m (a + (b - a + i)) \<noteq> None" by blast
  with *(2) show "m (b + i) \<noteq> None" by simp
qed

lemma store_bytes_eq:
  "store_bytes m a bs = (if mapped m a (length bs) then Some (upd_bytes m a bs) else None)"
proof (induction bs arbitrary: m a)
  case Nil
  have "upd_bytes m a [] = m" by (rule ext) (auto simp: upd_bytes_def)
  then show ?case by simp
next
  case (Cons b bs)
  have "mapped (m(a \<mapsto> b)) (Suc a) (length bs) = mapped m (Suc a) (length bs)"
    by (simp add: mapped_def)
  moreover have "upd_bytes (m(a \<mapsto> b)) (Suc a) bs = upd_bytes m a (b # bs)"
    by (rule ext) (auto simp: upd_bytes_def nth_Cons' not_less_eq_eq Suc_diff_le)
  ultimately show ?case by (simp add: Cons.IH mapped_Suc del: fun_upd_apply)
qed

lemma load_bytes_eq:
  "load_bytes m a n = (if mapped m a n then Some (map (\<lambda>i. the (m (a + i))) [0..<n]) else None)"
proof (induction n arbitrary: a)
  case (Suc n)
  have "map (\<lambda>i. the (m (a + i))) [0..<Suc n] = the (m a) # map (\<lambda>i. the (m (Suc a + i))) [0..<n]"
    by (simp add: map_upt_Suc del: upt_Suc)
  then show ?case using Suc.IH [of "Suc a"] by (auto simp: mapped_Suc)
qed simp

lemma upd_bytes_None: "mapped m a (length bs) \<Longrightarrow> upd_bytes m a bs x = None \<longleftrightarrow> m x = None"
  by (auto simp: upd_bytes_def mapped_def)
    (metis add_less_cancel_left le_add_diff_inverse option.discI)

lemma mapped_upd_bytes [simp]:
  "mapped m a (length bs) \<Longrightarrow> mapped (upd_bytes m a bs) b n = mapped m b n"
  by (simp add: mapped_def upd_bytes_None)

lemma mapped_store: "store_bytes m a bs = Some m' \<Longrightarrow> mapped m' b n = mapped m b n"
  by (auto simp: store_bytes_eq split: if_splits)

lemma load_upd_bytes_same:
  "mapped m a (length bs) \<Longrightarrow> load_bytes (upd_bytes m a bs) a (length bs) = Some bs"
  by (simp add: load_bytes_eq) (auto simp: upd_bytes_def intro: nth_equalityI)

lemma length_load_bytes: "load_bytes m a n = Some bs \<Longrightarrow> length bs = n"
  by (auto simp: load_bytes_eq split: if_splits)

lemma load_bytes_cong: "(\<And>i. i < n \<Longrightarrow> m (a + i) = m' (a' + i)) \<Longrightarrow> load_bytes m a n = load_bytes m' a' n"
  by (auto simp: load_bytes_eq mapped_def)

lemma load_bytes_add:
  "load_bytes m a (n + k) = do { x \<leftarrow> load_bytes m a n; y \<leftarrow> load_bytes m (a + n) k; Some (x @ y) }"
proof (induction n arbitrary: a)
  case (Suc n)
  then show ?case by (auto split: Option.bind_split)
qed (auto split: Option.bind_split)

interpretation host_store: byte_store load_bytes store_bytes mapped
proof unfold_locales
  fix m m' :: mem and a b n k :: nat and bs :: bytes
  show "mapped m a n \<Longrightarrow> \<exists>bs. load_bytes m a n = Some bs \<and> length bs = n"
    by (simp add: load_bytes_eq)
  show "mapped m a (length bs) \<Longrightarrow> \<exists>m'. store_bytes m a bs = Some m'"
    by (simp add: store_bytes_eq)
  show "load_bytes m' a (length bs) = Some bs"
    if "mapped m a (length bs)" "store_bytes m a bs = Some m'"
    using that by (auto simp: store_bytes_eq load_upd_bytes_same)
  show "load_bytes m' b n = load_bytes m b n"
    if "mapped m a (length bs)" "store_bytes m a bs = Some m'" "mapped m b n"
      "apart (a, length bs) (b, n)"
    using that by (intro load_bytes_cong) (auto simp: store_bytes_eq upd_bytes_def apart_def)
  show "store_bytes m a bs = Some m' \<Longrightarrow> mapped m' b n = mapped m b n"
    by (rule mapped_store)
  show "mapped m a n \<Longrightarrow> a \<le> b \<Longrightarrow> b + k \<le> a + n \<Longrightarrow> mapped m b k"
    by (rule mapped_sub)
  show "load_bytes m a (n + k) = do { x \<leftarrow> load_bytes m a n; y \<leftarrow> load_bytes m (a + n) k; Some (x @ y) }"
    by (rule load_bytes_add)
qed

section \<open>Objects kept as byte lists\<close>

text \<open>A struct or array that only its owner addresses is the list of its bytes; an access past
  its end is undefined.\<close>

definition obj_read :: "bytes \<Rightarrow> nat \<Rightarrow> nat \<Rightarrow> bytes option" where
  "obj_read xs a n = (if a + n \<le> length xs then Some (take n (drop a xs)) else None)"

definition obj_write :: "bytes \<Rightarrow> nat \<Rightarrow> bytes \<Rightarrow> bytes option" where
  "obj_write xs a bs =
     (if a + length bs \<le> length xs then Some (take a xs @ bs @ drop (a + length bs) xs) else None)"

definition obj_ok :: "bytes \<Rightarrow> nat \<Rightarrow> nat \<Rightarrow> bool" where
  "obj_ok xs a n \<longleftrightarrow> a + n \<le> length xs"

lemma length_obj_write: "obj_write xs a bs = Some ys \<Longrightarrow> length ys = length xs"
  by (auto simp: obj_write_def split: if_splits)

lemma nth_obj_write:
  "obj_write xs a bs = Some ys \<Longrightarrow> i < length xs \<Longrightarrow>
     ys ! i = (if a \<le> i \<and> i < a + length bs then bs ! (i - a) else xs ! i)"
  by (auto simp: obj_write_def nth_append split: if_splits)

interpretation obj_store: byte_store obj_read obj_write obj_ok
proof unfold_locales
  fix s s' :: bytes and a b n k :: nat and bs :: bytes
  show "obj_ok s a n \<Longrightarrow> \<exists>bs. obj_read s a n = Some bs \<and> length bs = n"
    by (simp add: obj_ok_def obj_read_def)
  show "obj_ok s a (length bs) \<Longrightarrow> \<exists>s'. obj_write s a bs = Some s'"
    by (simp add: obj_ok_def obj_write_def)
  show "obj_read s' a (length bs) = Some bs"
    if "obj_ok s a (length bs)" "obj_write s a bs = Some s'"
    using that by (auto simp: obj_ok_def obj_write_def obj_read_def)
  show "obj_read s' b n = obj_read s b n"
    if w: "obj_write s a bs = Some s'" and "obj_ok s b n" "apart (a, length bs) (b, n)"
    using that(2-) length_obj_write [OF w] nth_obj_write [OF w]
    by (auto simp: obj_read_def obj_ok_def apart_def intro!: nth_equalityI)
  show "obj_write s a bs = Some s' \<Longrightarrow> obj_ok s' b n = obj_ok s b n"
    by (simp add: obj_ok_def length_obj_write)
  show "obj_ok s a n \<Longrightarrow> a \<le> b \<Longrightarrow> b + k \<le> a + n \<Longrightarrow> obj_ok s b k"
    by (simp add: obj_ok_def)
  show "obj_ok s a (n + k) \<Longrightarrow>
      obj_read s a (n + k) = do { x \<leftarrow> obj_read s a n; y \<leftarrow> obj_read s (a + n) k; Some (x @ y) }"
    by (simp add: obj_ok_def obj_read_def take_add add.commute [of a])
qed

end
