(* ===== verification/Global.thy ===== *)
theory Global
  imports Prelude
begin

text \<open>
  The address map of \<open>src/global.h\<close>: guest-physical addresses of everything the loader
  places below 16 MiB, the RAM size, and the port ranges of the emulated devices.
\<close>

definition RAM_SIZE :: u64 where "RAM_SIZE = 0x20000000"
definition INITRD_ADDR_MAX :: u64 where "INITRD_ADDR_MAX = 0x37ffffff"
definition APIC_DEFAULT_PHYS_BASE :: u64 where "APIC_DEFAULT_PHYS_BASE = 0xfee00000"
definition IO_APIC_DEFAULT_PHYS_BASE :: u64 where "IO_APIC_DEFAULT_PHYS_BASE = 0xfec00000"
definition VMLINUX_START :: u64 where "VMLINUX_START = 0x01000000"
definition VMLINUX_RAM_START :: u64 where "VMLINUX_RAM_START = 0x00100000"
definition MB_BIOS_START :: u64 where "MB_BIOS_START = 0x000f0000"
definition VGA_RAM_START :: u64 where "VGA_RAM_START = 0x000a0000"
definition MPTABLE_START :: u64 where "MPTABLE_START = 0x0009fc00"
definition CMDLINE_START :: u64 where "CMDLINE_START = 0x00020000"
definition PDE_START :: u64 where "PDE_START = 0x0000b000"
definition PDPTE_START :: u64 where "PDPTE_START = 0x0000a000"
definition PML4_START :: u64 where "PML4_START = 0x00009000"
definition BOOT_LOADER_SP :: u64 where "BOOT_LOADER_SP = 0x00008ff0"
definition ZERO_PAGE_START :: u64 where "ZERO_PAGE_START = 0x00007000"
definition BOOT_IDT_START :: u64 where "BOOT_IDT_START = 0x00000520"
definition BOOT_GDT_START :: u64 where "BOOT_GDT_START = 0x00000500"
definition REAL_MODE_IVT_START :: u64 where "REAL_MODE_IVT_START = 0x00000000"

definition IO_PCI_CONFIG_DATA_START :: u64 where "IO_PCI_CONFIG_DATA_START = 0xCFC"
definition IO_PCI_CONFIG_DATA_SIZE :: u64 where "IO_PCI_CONFIG_DATA_SIZE = 4"
definition IO_PCI_CONFIG_ADDR_START :: u64 where "IO_PCI_CONFIG_ADDR_START = 0xCF8"
definition IO_PCI_CONFIG_ADDR_SIZE :: u64 where "IO_PCI_CONFIG_ADDR_SIZE = 4"
definition IO_SERIAL_START :: u64 where "IO_SERIAL_START = 0x3f8"
definition IO_SERIAL_SIZE :: u64 where "IO_SERIAL_SIZE = 8"

lemmas global_consts [const_simps] =
  RAM_SIZE_def INITRD_ADDR_MAX_def APIC_DEFAULT_PHYS_BASE_def IO_APIC_DEFAULT_PHYS_BASE_def
  VMLINUX_START_def VMLINUX_RAM_START_def MB_BIOS_START_def VGA_RAM_START_def MPTABLE_START_def
  CMDLINE_START_def PDE_START_def PDPTE_START_def PML4_START_def BOOT_LOADER_SP_def
  ZERO_PAGE_START_def BOOT_IDT_START_def BOOT_GDT_START_def REAL_MODE_IVT_START_def
  IO_PCI_CONFIG_DATA_START_def IO_PCI_CONFIG_DATA_SIZE_def IO_PCI_CONFIG_ADDR_START_def
  IO_PCI_CONFIG_ADDR_SIZE_def IO_SERIAL_START_def IO_SERIAL_SIZE_def

end
