(* ===== verification/Memory.thy ===== *)
theory Memory
  imports Global
begin

text \<open>
  \<open>src/memory.c\<close>: the guest-physical address space. \<open>init_memory_map\<close> splits the RAM
  around the hole below 4 GiB, maps host memory for each part and registers it with KVM;
  \<open>find_mapper_index\<close>, \<open>get_userspace_addr\<close> and \<open>write_userspace_memory\<close> translate
  guest-physical addresses. The state is the static variables of the file and the host memory
  they point into. The lemmas show that the mapper established by \<open>init_memory_map\<close> is
  well formed (\<open>mm_ok\<close>) and that guest memory is a \<open>byte_store\<close> under it.
\<close>

section \<open>State\<close>

record kvm_userspace_memory_region =
  mr_slot :: u32
  mr_flags :: u32
  guest_phys_addr :: u64
  memory_size :: u64
  userspace_addr :: u64

record KVMSlot =
  ks_start_addr :: u64
  ks_memory_size :: u64
  ks_ram :: u64
  ks_slot :: int
  ks_flags :: int

record memory =
  RamSize :: u64
  MemMapper :: "kvm_userspace_memory_region list"
  hmem :: mem

text \<open>The calls into the C library and the kernel, by the index of the slot: whether
  \<open>malloc\<close> succeeded, where \<open>mmap\<close> placed a mapping of the given size (\<open>None\<close>
  is \<open>MAP_FAILED\<close>), and what the ioctl \<open>KVM_SET_USER_MEMORY_REGION\<close> returned.\<close>

record mm_env =
  env_malloc :: "nat \<Rightarrow> bool"
  env_mmap :: "nat \<Rightarrow> u64 \<Rightarrow> u64 option"
  env_ioctl :: "nat \<Rightarrow> kvm_userspace_memory_region \<Rightarrow> int"

definition zero_region :: kvm_userspace_memory_region where
  "zero_region = \<lparr>mr_slot = 0, mr_flags = 0, guest_phys_addr = 0, memory_size = 0, userspace_addr = 0\<rparr>"

definition memory_0 :: memory where
  "memory_0 = \<lparr>RamSize = 0, MemMapper = [zero_region, zero_region], hmem = Map.empty\<rparr>"

section \<open>The address layout\<close>

datatype MemLayoutType = MemBelow4g | Mmio | IoApic | LocalApic | MemAbove4g

fun MemLayout :: "MemLayoutType \<Rightarrow> u64 \<times> u64" where
  "MemLayout MemBelow4g = (0, 0xC0000000)"
| "MemLayout Mmio = (0xF0100000, 0x200)"
| "MemLayout IoApic = (IO_APIC_DEFAULT_PHYS_BASE, 0x100000)"
| "MemLayout LocalApic = (APIC_DEFAULT_PHYS_BASE, 0x100000)"
| "MemLayout MemAbove4g = (0x100000000, 0x8000000000)"

definition get_gap_start :: u64 where
  "get_gap_start = fst (MemLayout MemBelow4g) + snd (MemLayout MemBelow4g)"

definition get_gap_end :: u64 where
  "get_gap_end = fst (MemLayout MemAbove4g)"

definition get_ram_end :: "memory \<Rightarrow> u64" where
  "get_ram_end st =
     (if RamSize st \<le> snd (MemLayout MemBelow4g) then fst (MemLayout MemBelow4g) + RamSize st
      else fst (MemLayout MemAbove4g) + (RamSize st - snd (MemLayout MemBelow4g)))"

section \<open>Operations\<close>

text \<open>The table \<open>rams\<close> of \<open>init_memory_map\<close>: start and size of the two parts.\<close>

definition init_rams :: "u64 \<Rightarrow> (u64 \<times> u64) list" where
  "init_rams ram_size =
     (let gap_start = fst (MemLayout MemBelow4g) + snd (MemLayout MemBelow4g) in
      if ram_size \<le> gap_start then [(0, ram_size), (0, 0)]
      else [(0, gap_start), (fst (MemLayout MemAbove4g), ram_size - gap_start)])"

definition map_zero :: "mem \<Rightarrow> nat \<Rightarrow> nat \<Rightarrow> mem" where
  "map_zero m a n = (\<lambda>x. if a \<le> x \<and> x < a + n then Some 0 else m x)"

text \<open>One iteration of the loop: \<open>Inl\<close> is the early return of \<open>-1\<close>, \<open>Inr\<close> goes on
  with the next slot, \<open>None\<close> dereferences a null \<open>slot\<close>.\<close>

definition init_slot ::
    "mm_env \<Rightarrow> nat \<Rightarrow> u64 \<times> u64 \<Rightarrow> memory \<Rightarrow> (memory + memory) option" where
  "init_slot env i ram st =
     (if snd ram \<le> 0 then Some (Inr st)
      else if \<not> env_malloc env i then None
      else case env_mmap env i (snd ram) of
        None \<Rightarrow> Some (Inl st)
      | Some p \<Rightarrow>
          let slot = \<lparr>ks_start_addr = fst ram, ks_memory_size = snd ram, ks_ram = p,
                      ks_slot = int i, ks_flags = 0\<rparr>;
              r = \<lparr>mr_slot = word_of_int (ks_slot slot), mr_flags = word_of_int (ks_flags slot),
                   guest_phys_addr = ks_start_addr slot, memory_size = ks_memory_size slot,
                   userspace_addr = ks_ram slot\<rparr>;
              st' = st\<lparr>MemMapper := (MemMapper st)[i := r],
                       hmem := map_zero (hmem st) (unat p) (unat (snd ram))\<rparr>
          in if env_ioctl env i r < 0 then Some (Inl st') else Some (Inr st'))"

primrec init_slots ::
    "mm_env \<Rightarrow> nat \<Rightarrow> (u64 \<times> u64) list \<Rightarrow> memory \<Rightarrow> (memory + memory) option" where
  "init_slots env i [] st = Some (Inr st)"
| "init_slots env i (ram # rams) st =
     do { r \<leftarrow> init_slot env i ram st;
          case r of Inl st' \<Rightarrow> Some (Inl st') | Inr st' \<Rightarrow> init_slots env (Suc i) rams st' }"

text \<open>The result is \<open>Some (-1)\<close> on the error returns. On success control reaches the end of
  the function without a \<open>return\<close>, so there is no value: \<open>None\<close>.\<close>

definition init_memory_map :: "mm_env \<Rightarrow> u64 \<Rightarrow> memory \<Rightarrow> (int option \<times> memory) option" where
  "init_memory_map env ram_size st =
     do { r \<leftarrow> init_slots env 0 (init_rams ram_size) (st\<lparr>RamSize := ram_size\<rparr>);
          case r of Inl st' \<Rightarrow> Some (Some (- 1), st') | Inr st' \<Rightarrow> Some (None, st') }"

definition in_mapper :: "kvm_userspace_memory_region \<Rightarrow> u64 \<Rightarrow> bool" where
  "in_mapper r guest_addr \<longleftrightarrow>
     guest_addr \<ge> guest_phys_addr r \<and> guest_addr < guest_phys_addr r + memory_size r"

definition find_mapper_index :: "memory \<Rightarrow> u64 \<Rightarrow> int" where
  "find_mapper_index st guest_addr =
     (if in_mapper (MemMapper st ! 0) guest_addr then 0
      else if in_mapper (MemMapper st ! 1) guest_addr then 1
      else - 1)"

definition get_userspace_addr :: "memory \<Rightarrow> u64 \<Rightarrow> u64 option" where
  "get_userspace_addr st guest_addr =
     (let mapper_index = find_mapper_index st guest_addr in
      if mapper_index < 0 then None
      else let r = MemMapper st ! nat mapper_index;
               offset = guest_addr - guest_phys_addr r
           in Some (userspace_addr r + offset))"

definition write_userspace_memory :: "memory \<Rightarrow> bytes \<Rightarrow> u64 \<Rightarrow> memory option" where
  "write_userspace_memory st src guest_addr =
     (let mapper_index = find_mapper_index st guest_addr in
      if mapper_index < 0 then None
      else let r = MemMapper st ! nat mapper_index;
               offset = guest_addr - guest_phys_addr r
           in do { m \<leftarrow> store_bytes (hmem st) (unat (userspace_addr r + offset)) src;
                   Some (st\<lparr>hmem := m\<rparr>) })"

text \<open>The idioms \<open>*(T *)get_userspace_addr(a) = v\<close> and \<open>v = *(T *)get_userspace_addr(a)\<close>.\<close>

definition guest_store :: "memory \<Rightarrow> u64 \<Rightarrow> bytes \<Rightarrow> memory option" where
  "guest_store st a bs =
     do { p \<leftarrow> get_userspace_addr st a; m \<leftarrow> store_bytes (hmem st) (unat p) bs;
          Some (st\<lparr>hmem := m\<rparr>) }"

definition guest_load :: "memory \<Rightarrow> u64 \<Rightarrow> nat \<Rightarrow> bytes option" where
  "guest_load st a n = do { p \<leftarrow> get_userspace_addr st a; load_bytes (hmem st) (unat p) n }"

text \<open>Accesses through a pointer that an earlier \<open>get_userspace_addr\<close> returned.\<close>

definition ptr_store :: "memory \<Rightarrow> nat \<Rightarrow> bytes \<Rightarrow> memory option" where
  "ptr_store st p bs = do { m \<leftarrow> store_bytes (hmem st) p bs; Some (st\<lparr>hmem := m\<rparr>) }"

definition ptr_load :: "memory \<Rightarrow> nat \<Rightarrow> nat \<Rightarrow> bytes option" where
  "ptr_load st p n = load_bytes (hmem st) p n"

section \<open>Well-formed mappers\<close>

definition region_ok :: "mem \<Rightarrow> kvm_userspace_memory_region \<Rightarrow> bool" where
  "region_ok m r \<longleftrightarrow>
     unat (guest_phys_addr r) + unat (memory_size r) < 2 ^ 64 \<and>
     unat (userspace_addr r) + unat (memory_size r) \<le> 2 ^ 64 \<and>
     mapped m (unat (userspace_addr r)) (unat (memory_size r))"

definition guest_extent :: "kvm_userspace_memory_region \<Rightarrow> nat \<times> nat" where
  "guest_extent r = (unat (guest_phys_addr r), unat (memory_size r))"

definition host_extent :: "kvm_userspace_memory_region \<Rightarrow> nat \<times> nat" where
  "host_extent r = (unat (userspace_addr r), unat (memory_size r))"

definition mm_ok :: "memory \<Rightarrow> bool" where
  "mm_ok st \<longleftrightarrow> length (MemMapper st) = 2 \<and>
     region_ok (hmem st) (MemMapper st ! 0) \<and> region_ok (hmem st) (MemMapper st ! 1) \<and>
     apart (guest_extent (MemMapper st ! 0)) (guest_extent (MemMapper st ! 1)) \<and>
     apart (host_extent (MemMapper st ! 0)) (host_extent (MemMapper st ! 1))"

definition region_covers :: "kvm_userspace_memory_region \<Rightarrow> nat \<Rightarrow> nat \<Rightarrow> bool" where
  "region_covers r a n \<longleftrightarrow>
     unat (guest_phys_addr r) \<le> a \<and> a + n \<le> unat (guest_phys_addr r) + unat (memory_size r)"

definition guest_ok :: "memory \<Rightarrow> nat \<Rightarrow> nat \<Rightarrow> bool" where
  "guest_ok st a n \<longleftrightarrow> mm_ok st \<and>
     (region_covers (MemMapper st ! 0) a n \<or> region_covers (MemMapper st ! 1) a n)"

definition host_addr :: "kvm_userspace_memory_region \<Rightarrow> nat \<Rightarrow> nat" where
  "host_addr r a = unat (userspace_addr r) + (a - unat (guest_phys_addr r))"

text \<open>Guest memory with guest-physical addresses as numbers; an empty access touches nothing.\<close>

definition g_rd :: "memory \<Rightarrow> nat \<Rightarrow> nat \<Rightarrow> bytes option" where
  "g_rd st a n = (if n = 0 then Some [] else guest_load st (of_nat a) n)"

definition g_wr :: "memory \<Rightarrow> nat \<Rightarrow> bytes \<Rightarrow> memory option" where
  "g_wr st a bs = (if bs = [] then Some st else guest_store st (of_nat a) bs)"

lemma in_mapper_nat:
  assumes "region_ok m r" "a < 2 ^ 64"
  shows "in_mapper r (of_nat a) \<longleftrightarrow> region_covers r a 1"
proof -
  have "unat (guest_phys_addr r + memory_size r) = unat (guest_phys_addr r) + unat (memory_size r)"
    using assms(1) by (simp add: region_ok_def unat_word_ariths)
  then show ?thesis using assms(2)
    by (auto simp: in_mapper_def region_covers_def word_le_nat_alt word_less_nat_alt unat_of_nat)
qed

lemma region_covers_bound: "region_ok m r \<Longrightarrow> region_covers r a (Suc n) \<Longrightarrow> a < 2 ^ 64"
  by (auto simp: region_ok_def region_covers_def)

lemma region_covers_1: "region_covers r a (Suc n) \<Longrightarrow> region_covers r a (Suc 0)"
  by (simp add: region_covers_def)

lemma translate_unat:
  assumes "region_ok m r" "region_covers r a (Suc n)"
  shows "unat (userspace_addr r + (of_nat a - guest_phys_addr r)) = host_addr r a"
proof -
  have a: "a < 2 ^ 64" using assms by (rule region_covers_bound)
  have "unat (of_nat a - guest_phys_addr r) = a - unat (guest_phys_addr r)"
    using a assms(2)
    by (subst unat_sub) (auto simp: region_covers_def word_le_nat_alt unat_of_nat)
  moreover have "unat (userspace_addr r) + (a - unat (guest_phys_addr r)) < 2 ^ 64"
    using assms by (auto simp: region_covers_def region_ok_def)
  ultimately show ?thesis
    by (simp add: unat_word_ariths host_addr_def)
qed

lemma get_userspace_addr_covered:
  assumes "mm_ok st" "i < 2" "region_covers (MemMapper st ! i) a (Suc n)"
  shows "\<exists>p. get_userspace_addr st (of_nat a) = Some p \<and> unat p = host_addr (MemMapper st ! i) a"
proof -
  let ?r0 = "MemMapper st ! 0" and ?r1 = "MemMapper st ! 1"
  have ok: "region_ok (hmem st) ?r0" "region_ok (hmem st) ?r1" using assms(1) by (auto simp: mm_ok_def)
  have i: "i = 0 \<or> i = 1" using assms(2) by auto
  have a: "a < 2 ^ 64" using i assms(3) ok region_covers_bound by blast
  note cov = in_mapper_nat [OF ok(1) a] in_mapper_nat [OF ok(2) a]
  have "\<not> (region_covers ?r0 a (Suc 0) \<and> region_covers ?r1 a (Suc 0))"
    using assms(1) by (auto simp: mm_ok_def apart_def guest_extent_def region_covers_def)
  then show ?thesis
    using i assms(3) cov region_covers_1 [OF assms(3)] translate_unat [OF ok(1)] translate_unat [OF ok(2)]
    by (auto simp: get_userspace_addr_def find_mapper_index_def Let_def)
qed

lemma guest_okE:
  assumes "guest_ok st a n"
  obtains i where "mm_ok st" "i < 2" "region_covers (MemMapper st ! i) a n"
proof -
  have "\<exists>i<2. region_covers (MemMapper st ! i) a n"
    using assms by (auto simp: guest_ok_def intro: exI [of _ "0::nat"] exI [of _ "1::nat"])
  with assms that show thesis by (auto simp: guest_ok_def)
qed

lemma get_userspace_addr_uncovered:
  assumes "mm_ok st" "\<not> guest_ok st (unat a) 1"
  shows "get_userspace_addr st a = None"
proof -
  have "region_ok (hmem st) (MemMapper st ! 0)" "region_ok (hmem st) (MemMapper st ! 1)"
    using assms(1) by (auto simp: mm_ok_def)
  then show ?thesis
    using assms in_mapper_nat [of "hmem st" _ "unat a"] unat_lt_64 [of a]
    by (auto simp: guest_ok_def get_userspace_addr_def find_mapper_index_def)
qed

lemma mm_ok_region: "mm_ok st \<Longrightarrow> i < 2 \<Longrightarrow> region_ok (hmem st) (MemMapper st ! i)"
  by (auto simp: mm_ok_def less_2_cases_iff)

lemma host_mapped:
  "region_ok m r \<Longrightarrow> region_covers r a n \<Longrightarrow> mapped m (host_addr r a) n"
  by (rule mapped_sub [where a = "unat (userspace_addr r)" and n = "unat (memory_size r)"])
    (auto simp: region_ok_def region_covers_def host_addr_def)

lemma g_rd_eq:
  assumes "mm_ok st" "i < 2" "region_covers (MemMapper st ! i) a n"
  shows "g_rd st a n = load_bytes (hmem st) (host_addr (MemMapper st ! i) a) n"
  using assms get_userspace_addr_covered [OF assms(1,2), of a "n - 1"]
  by (cases n) (auto simp: g_rd_def guest_load_def)

lemma g_wr_eq:
  assumes "mm_ok st" "i < 2" "region_covers (MemMapper st ! i) a (length bs)"
  shows "g_wr st a bs =
    Some (st\<lparr>hmem := upd_bytes (hmem st) (host_addr (MemMapper st ! i) a) bs\<rparr>)"
proof (cases bs)
  case Nil
  have "upd_bytes (hmem st) x [] = hmem st" for x by (rule ext) (auto simp: upd_bytes_def)
  then show ?thesis using Nil by (simp add: g_wr_def)
next
  case (Cons b bs')
  have "mapped (hmem st) (host_addr (MemMapper st ! i) a) (length bs)"
    using host_mapped mm_ok_region assms by blast
  then show ?thesis
    using assms(3) get_userspace_addr_covered [OF assms(1,2), of a "length bs'"] Cons
    by (auto simp: g_wr_def guest_store_def store_bytes_eq)
qed

lemma mm_ok_upd:
  assumes "mm_ok st" "mapped (hmem st) a (length bs)"
  shows "mm_ok (st\<lparr>hmem := upd_bytes (hmem st) a bs\<rparr>)"
  using assms by (simp add: mm_ok_def region_ok_def)

lemma host_apart:
  assumes ok: "mm_ok st" and i: "i < 2" and j: "j < 2"
    and "region_covers (MemMapper st ! i) a n" "region_covers (MemMapper st ! j) b k"
    and "apart (a, n) (b, k)"
  shows "apart (host_addr (MemMapper st ! i) a, n) (host_addr (MemMapper st ! j) b, k)"
proof (cases "i = j")
  case True
  with assms show ?thesis by (auto simp: apart_def region_covers_def host_addr_def)
next
  case False
  then have "apart (host_extent (MemMapper st ! i)) (host_extent (MemMapper st ! j))"
    using ok i j by (auto simp: mm_ok_def less_2_cases_iff apart_sym)
  with assms(4,5) show ?thesis by (auto simp: apart_def host_extent_def region_covers_def host_addr_def)
qed

section \<open>Guest memory is a byte store\<close>

interpretation guest: byte_store g_rd g_wr guest_ok
proof unfold_locales
  fix s s' :: memory and a b n k :: nat and bs :: bytes
  show "\<exists>bs. g_rd s a n = Some bs \<and> length bs = n" if "guest_ok s a n"
    using that by (rule guest_okE) (simp add: g_rd_eq load_bytes_eq host_mapped mm_ok_region)
  show "\<exists>s'. g_wr s a bs = Some s'" if "guest_ok s a (length bs)"
    using that by (rule guest_okE) (simp add: g_wr_eq)
  show ok': "guest_ok s' b n = guest_ok s b n"
    if "guest_ok s a (length bs)" "g_wr s a bs = Some s'" for s s' a b n bs
    using that(1)
  proof (rule guest_okE)
    fix i
    assume i: "mm_ok s" "i < 2" "region_covers (MemMapper s ! i) a (length bs)"
    then have "mm_ok s'" "MemMapper s' = MemMapper s"
      using that(2) mm_ok_upd [OF i(1) host_mapped [OF mm_ok_region [OF i(1,2)] i(3)]]
      by (auto simp: g_wr_eq)
    with i(1) show ?thesis by (simp add: guest_ok_def)
  qed
  show "g_rd s' a (length bs) = Some bs"
    if "guest_ok s a (length bs)" "g_wr s a bs = Some s'"
    using that(1)
  proof (rule guest_okE)
    fix i
    assume i: "mm_ok s" "i < 2" "region_covers (MemMapper s ! i) a (length bs)"
    note m = host_mapped [OF mm_ok_region [OF i(1,2)] i(3)]
    have s': "s' = s\<lparr>hmem := upd_bytes (hmem s) (host_addr (MemMapper s ! i) a) bs\<rparr>"
      using that(2) i by (simp add: g_wr_eq)
    have "g_rd s' a (length bs) = load_bytes (hmem s') (host_addr (MemMapper s' ! i) a) (length bs)"
      using i mm_ok_upd [OF i(1) m] by (intro g_rd_eq) (auto simp: s')
    then show ?thesis using load_upd_bytes_same [OF m] by (simp add: s')
  qed
  show "g_rd s' b n = g_rd s b n"
    if "guest_ok s a (length bs)" "g_wr s a bs = Some s'" "guest_ok s b n" "apart (a, length bs) (b, n)"
    using that(1)
  proof (rule guest_okE)
    fix i
    assume i: "mm_ok s" "i < 2" "region_covers (MemMapper s ! i) a (length bs)"
    from that(3) obtain j where j: "j < 2" "region_covers (MemMapper s ! j) b n"
      by (rule guest_okE)
    note m = host_mapped [OF mm_ok_region [OF i(1,2)] i(3)]
    note h = host_apart [OF i(1,2) j(1) i(3) j(2) that(4)]
    have s': "s' = s\<lparr>hmem := upd_bytes (hmem s) (host_addr (MemMapper s ! i) a) bs\<rparr>"
      using that(2) i by (simp add: g_wr_eq)
    have "g_rd s' b n = load_bytes (hmem s') (host_addr (MemMapper s' ! j) b) n"
      using j mm_ok_upd [OF i(1) m] by (intro g_rd_eq) (auto simp: s')
    also have "\<dots> = load_bytes (hmem s) (host_addr (MemMapper s ! j) b) n"
      using h by (intro load_bytes_cong) (auto simp: s' upd_bytes_def apart_def)
    finally show ?thesis using i(1) j by (simp add: g_rd_eq)
  qed
  show "guest_ok s a n \<Longrightarrow> a \<le> b \<Longrightarrow> b + k \<le> a + n \<Longrightarrow> guest_ok s b k"
    by (auto simp: guest_ok_def region_covers_def)
  show "g_rd s a (n + k) = do { x \<leftarrow> g_rd s a n; y \<leftarrow> g_rd s (a + n) k; Some (x @ y) }"
    if "guest_ok s a (n + k)"
    using that
  proof (rule guest_okE)
    fix i
    assume i: "mm_ok s" "i < 2" "region_covers (MemMapper s ! i) a (n + k)"
    then have c: "region_covers (MemMapper s ! i) a n" "region_covers (MemMapper s ! i) (a + n) k"
      by (auto simp: region_covers_def)
    have "host_addr (MemMapper s ! i) (a + n) = host_addr (MemMapper s ! i) a + n"
      using i(3) by (auto simp: region_covers_def host_addr_def)
    then show ?thesis
      using i c by (simp add: g_rd_eq load_bytes_add)
  qed
qed

lemma guest_store_g_wr: "bs \<noteq> [] \<Longrightarrow> guest_store st a bs = g_wr st (unat a) bs"
  by (simp add: g_wr_def)

lemma guest_load_g_rd: "0 < n \<Longrightarrow> guest_load st a n = g_rd st (unat a) n"
  by (simp add: g_rd_def)

lemma guest_store_keeps:
  "guest_store st a bs = Some st' \<Longrightarrow> RamSize st' = RamSize st \<and> MemMapper st' = MemMapper st"
  by (auto simp: guest_store_def split: Option.bind_splits)

lemma write_userspace_memory_eq: "write_userspace_memory st src a = guest_store st a src"
  by (auto simp: write_userspace_memory_def guest_store_def get_userspace_addr_def Let_def
      split: Option.bind_split)

section \<open>Contents of a range, pointers into it, and what a range of writes keeps\<close>

definition holds :: "memory \<Rightarrow> nat \<Rightarrow> bytes \<Rightarrow> bool" where
  "holds st a xs \<longleftrightarrow> guest_ok st a (length xs) \<and> g_rd st a (length xs) = Some xs"

text \<open>The memory slots and the host memory behind them stay: only contents change.\<close>

definition ram_keeps :: "memory \<Rightarrow> memory \<Rightarrow> bool" where
  "ram_keeps st st' \<longleftrightarrow> MemMapper st' = MemMapper st \<and> RamSize st' = RamSize st \<and> dom (hmem st') = dom (hmem st)"

lemma ram_keeps_refl [simp]: "ram_keeps st st"
  by (simp add: ram_keeps_def)

lemma ram_keeps_trans [trans]: "ram_keeps st st' \<Longrightarrow> ram_keeps st' st'' \<Longrightarrow> ram_keeps st st''"
  by (simp add: ram_keeps_def)

lemma mapped_dom: "dom m' = dom m \<Longrightarrow> mapped m' a n = mapped m a n"
  by (auto simp: mapped_def domIff set_eq_iff)

lemma ram_keeps_mm_ok: "ram_keeps st st' \<Longrightarrow> mm_ok st' = mm_ok st"
  using mapped_dom [of "hmem st'" "hmem st"] by (simp add: ram_keeps_def mm_ok_def region_ok_def)

lemma ram_keeps_guest_ok: "ram_keeps st st' \<Longrightarrow> guest_ok st' a n = guest_ok st a n"
  using ram_keeps_mm_ok [of st st'] by (simp add: guest_ok_def) (simp add: ram_keeps_def)

lemma dom_upd_bytes: "mapped m a (length bs) \<Longrightarrow> dom (upd_bytes m a bs) = dom m"
proof -
  assume m: "mapped m a (length bs)"
  have "m x \<noteq> None" if "a \<le> x" "x < a + length bs" for x
    using m that unfolding mapped_def by (metis le_add_diff_inverse nat_add_left_cancel_less)
  then show ?thesis by (auto simp: upd_bytes_def dom_def)
qed

lemma upd_bytes_keeps: "mapped (hmem st) a (length bs) \<Longrightarrow> ram_keeps st (st\<lparr>hmem := upd_bytes (hmem st) a bs\<rparr>)"
  by (simp add: ram_keeps_def dom_upd_bytes)

lemma guest_store_keeps_ram: "guest_store st a bs = Some st' \<Longrightarrow> ram_keeps st st'"
  by (auto simp: guest_store_def store_bytes_eq upd_bytes_keeps split: Option.bind_splits if_splits)

definition points :: "memory \<Rightarrow> nat \<Rightarrow> nat \<Rightarrow> nat \<Rightarrow> bool" where
  "points st p a n \<longleftrightarrow> mm_ok st \<and>
     (\<exists>i<2. region_covers (MemMapper st ! i) a n \<and> p = host_addr (MemMapper st ! i) a)"

definition frame :: "memory \<Rightarrow> nat \<times> nat \<Rightarrow> memory \<Rightarrow> bool" where
  "frame st r st' \<longleftrightarrow> ram_keeps st st' \<and>
     (\<forall>b n. guest_ok st b n \<longrightarrow> apart r (b, n) \<longrightarrow> g_rd st' b n = g_rd st b n)"

lemma frame_refl [simp]: "frame st r st"
  by (simp add: frame_def)

lemma frame_guest_ok: "frame st r st' \<Longrightarrow> guest_ok st a n \<Longrightarrow> guest_ok st' a n"
  using ram_keeps_guest_ok [of st st' a n] by (simp add: frame_def)

lemma frame_trans: "frame st r st' \<Longrightarrow> frame st' r st'' \<Longrightarrow> frame st r st''"
  using frame_guest_ok [of st r st'] ram_keeps_trans [of st st' st''] unfolding frame_def by metis

lemma frame_mono:
  "frame st (a, n) st' \<Longrightarrow> b \<le> a \<Longrightarrow> a + n \<le> b + m \<Longrightarrow> frame st (b, m) st'"
  unfolding frame_def
proof (elim conjE, intro conjI allI impI)
  fix x k
  assume *: "b \<le> a" "a + n \<le> b + m" "guest_ok st x k" "apart (b, m) (x, k)"
    "\<forall>x k. guest_ok st x k \<longrightarrow> apart (a, n) (x, k) \<longrightarrow> g_rd st' x k = g_rd st x k"
  then have "apart (a, n) (x, k)" by (auto simp: apart_def)
  with * show "g_rd st' x k = g_rd st x k" by blast
qed auto

lemma frame_holds: "frame st r st' \<Longrightarrow> holds st a xs \<Longrightarrow> apart r (a, length xs) \<Longrightarrow> holds st' a xs"
  using frame_guest_ok [of st r st' a "length xs"] by (simp add: holds_def) (simp add: frame_def)

lemma frame_points: "frame st r st' \<Longrightarrow> points st p a n \<Longrightarrow> points st' p a n"
  using ram_keeps_mm_ok [of st st'] by (auto simp: frame_def points_def ram_keeps_def)

lemma get_userspace_addr_points:
  assumes "guest_ok st (unat a) (Suc n)"
  shows "\<exists>p. get_userspace_addr st a = Some p \<and> points st (unat p) (unat a) (Suc n)"
  using assms
proof (rule guest_okE)
  fix i
  assume i: "mm_ok st" "i < 2" "region_covers (MemMapper st ! i) (unat a) (Suc n)"
  then show ?thesis
    using get_userspace_addr_covered [OF i] by (auto simp: points_def)
qed

lemma points_guest_ok: "points st p a n \<Longrightarrow> guest_ok st a n"
  by (auto simp: points_def guest_ok_def less_2_cases_iff)

lemma points_load:
  assumes "points st p a n" "k + m \<le> n"
  shows "ptr_load st (p + k) m = g_rd st (a + k) m"
proof -
  obtain i where i: "mm_ok st" "i < 2" "region_covers (MemMapper st ! i) a n" "p = host_addr (MemMapper st ! i) a"
    using assms(1) by (auto simp: points_def)
  then have "region_covers (MemMapper st ! i) (a + k) m" "host_addr (MemMapper st ! i) (a + k) = p + k"
    using assms(2) by (auto simp: region_covers_def host_addr_def)
  then show ?thesis using i g_rd_eq [of st i "a + k" m] by (simp add: ptr_load_def)
qed

lemma points_store:
  assumes "points st p a n" "k + length bs \<le> n"
  shows "ptr_store st (p + k) bs = g_wr st (a + k) bs"
proof -
  obtain i where i: "mm_ok st" "i < 2" "region_covers (MemMapper st ! i) a n" "p = host_addr (MemMapper st ! i) a"
    using assms(1) by (auto simp: points_def)
  then have c: "region_covers (MemMapper st ! i) (a + k) (length bs)" "host_addr (MemMapper st ! i) (a + k) = p + k"
    using assms(2) by (auto simp: region_covers_def host_addr_def)
  with i have "mapped (hmem st) (p + k) (length bs)"
    using host_mapped [OF mm_ok_region [OF i(1,2)] c(1)] by simp
  then show ?thesis
    using c g_wr_eq [OF i(1,2) c(1)] by (simp add: ptr_store_def store_bytes_eq)
qed

lemma g_wr_frame:
  assumes "guest_ok st a (length bs)" "g_wr st a bs = Some st'"
  shows "frame st (a, length bs) st'"
proof (cases "bs = []")
  case False
  then have "ram_keeps st st'" using assms(2) guest_store_keeps_ram by (simp add: g_wr_def)
  then show ?thesis using guest.rd_wr_other [OF assms] by (simp add: frame_def)
qed (use assms in \<open>simp add: g_wr_def\<close>)

text \<open>A write through a pointer into a range of known contents.\<close>

lemma points_write:
  assumes "points st p a n" "k + length bs \<le> n" "holds st a xs" "length xs = n"
  shows "\<exists>st'. ptr_store st (p + k) bs = Some st' \<and> frame st (a + k, length bs) st' \<and>
    holds st' a (take k xs @ bs @ drop (k + length bs) xs)"
proof -
  have ok: "guest_ok st (a + k) (length bs)"
    using guest.ok_sub [OF points_guest_ok [OF assms(1)]] assms(2) by simp
  obtain st' where st': "g_wr st (a + k) bs = Some st'"
    "g_rd st' a n = Some (take k xs @ bs @ drop (k + length bs) xs)"
    using guest.wr_within [of st a n xs k bs] assms by (auto simp: holds_def)
  note fr = g_wr_frame [OF ok st'(1)]
  have "length (take k xs @ bs @ drop (k + length bs) xs) = n" using assms(2,4) by simp
  then show ?thesis
    using st' fr frame_guest_ok [OF fr] points_store [OF assms(1,2)] points_guest_ok [OF assms(1)]
    unfolding holds_def by metis
qed

lemma holds_append:
  assumes "holds st a xs" "holds st (a + length xs) ys" "guest_ok st a (length xs + length ys)"
  shows "holds st a (xs @ ys)"
  using assms guest.rd_append [of st a "length xs" "length ys"] by (simp add: holds_def)

lemma holds_sub:
  assumes "holds st a xs" "k + n \<le> length xs"
  shows "holds st (a + k) (take n (drop k xs))"
proof -
  have "length (take n (drop k xs)) = n" using assms(2) by simp
  then show ?thesis
    using assms guest.ok_sub [of st a "length xs" "a + k" n] guest.rd_sub [of st a "length xs" xs "a + k" n]
    by (simp add: holds_def)
qed

text \<open>A sequence of writes through one pointer, at offsets from it.\<close>

definition shift_wr :: "nat \<Rightarrow> (nat \<times> bytes) list \<Rightarrow> (nat \<times> bytes) list" where
  "shift_wr a ws = map (\<lambda>w. (a + fst w, snd w)) ws"

lemma shift_wr_simps [simp]:
  "shift_wr a [] = []" "shift_wr a (w # ws) = (a + fst w, snd w) # shift_wr a ws" "shift_wr a (vs @ ws) = shift_wr a vs @ shift_wr a ws"
  by (simp_all add: shift_wr_def)

lemma in_shift_wr: "w \<in> set (shift_wr a ws) \<longleftrightarrow> (\<exists>v\<in>set ws. w = (a + fst v, snd v))"
  by (auto simp: shift_wr_def)

lemma sorted_shift_wr:
  "sorted_wrt (\<lambda>v w. apart (extent v) (extent w)) ws \<Longrightarrow>
   sorted_wrt (\<lambda>v w. apart (extent v) (extent w)) (shift_wr a ws)"
  unfolding shift_wr_def sorted_wrt_map
  by (erule sorted_wrt_mono_rel [rotated]) (auto simp: apart_def extent_def)

lemma points_wr_all:
  "points st p a n \<Longrightarrow> (\<And>w. w \<in> set ws \<Longrightarrow> fst w + length (snd w) \<le> n) \<Longrightarrow>
   wr_all ptr_store (shift_wr p ws) st = wr_all g_wr (shift_wr a ws) st"
proof (induction ws arbitrary: st)
  case (Cons w ws)
  have ok: "guest_ok st (a + fst w) (length (snd w))"
    using guest.ok_sub [OF points_guest_ok [OF Cons.prems(1)]] Cons.prems(2) by simp
  then obtain t where t: "g_wr st (a + fst w) (snd w) = Some t" using guest.wr_total by blast
  have "points t p a n" by (rule frame_points [OF g_wr_frame [OF ok t] Cons.prems(1)])
  then show ?case
    using t points_store [OF Cons.prems(1), of "fst w" "snd w"] Cons by simp
qed simp

lemma g_wr_all_frame:
  "wr_all g_wr ws st = Some st' \<Longrightarrow>
   (\<And>w. w \<in> set ws \<Longrightarrow> guest_ok st (fst w) (length (snd w)) \<and> a \<le> fst w \<and> fst w + length (snd w) \<le> a + n) \<Longrightarrow>
   frame st (a, n) st'"
proof (induction ws arbitrary: st)
  case (Cons w ws)
  obtain t where t: "g_wr st (fst w) (snd w) = Some t" "wr_all g_wr ws t = Some st'"
    using Cons.prems(1) by (auto split: Option.bind_splits)
  have ok: "guest_ok st (fst w) (length (snd w))" using Cons.prems(2) by simp
  note fr = g_wr_frame [OF ok t(1)]
  have "frame t (a, n) st'"
    using Cons.IH [OF t(2)] Cons.prems(2) frame_guest_ok [OF fr] by simp
  moreover have "frame st (a, n) t" by (rule frame_mono [OF fr]) (use Cons.prems(2) in auto)
  ultimately show ?case by (rule frame_trans [rotated])
qed simp

text \<open>Pairwise apart writes through one pointer succeed and are all readable afterwards.\<close>

lemma points_wr_all_holds:
  assumes "points st p a n" "sorted_wrt (\<lambda>v w. apart (extent v) (extent w)) ws"
    and "\<And>w. w \<in> set ws \<Longrightarrow> fst w + length (snd w) \<le> n"
  shows "\<exists>st'. wr_all ptr_store (shift_wr p ws) st = Some st' \<and> frame st (a, n) st' \<and>
    (\<forall>w\<in>set ws. holds st' (a + fst w) (snd w))"
proof -
  have ok: "guest_ok st (fst w) (length (snd w)) \<and> a \<le> fst w \<and> fst w + length (snd w) \<le> a + n"
    if "w \<in> set (shift_wr a ws)" for w
    using that assms(3) guest.ok_sub [OF points_guest_ok [OF assms(1)]] by (auto simp: in_shift_wr)
  then obtain st' where st': "wr_all g_wr (shift_wr a ws) st = Some st'"
    using guest.wr_all_total by metis
  have fr: "frame st (a, n) st'" by (rule g_wr_all_frame [OF st' ok])
  have "g_rd st' (fst w) (length (snd w)) = Some (snd w)" if "w \<in> set (shift_wr a ws)" for w
    by (rule guest.rd_wr_all_in [OF st' _ sorted_shift_wr [OF assms(2)] that]) (use ok in blast)
  then have "holds st' (a + fst w) (snd w)" if "w \<in> set ws" for w
    using that ok [of "(a + fst w, snd w)"] frame_guest_ok [OF fr] by (fastforce simp: holds_def in_shift_wr)
  then show ?thesis using st' fr points_wr_all [OF assms(1,3)] by simp
qed

section \<open>Properties\<close>

text \<open>The documented behaviour of \<open>mmap\<close> without a fixed address: a successful mapping lies
  inside the address space and overlaps no other mapping.\<close>

definition mmap_contract :: "mm_env \<Rightarrow> bool" where
  "mmap_contract env \<longleftrightarrow>
     (\<forall>i n p. env_mmap env i n = Some p \<longrightarrow> unat p + unat n \<le> 2 ^ 64) \<and>
     (\<forall>n k p q. env_mmap env 0 n = Some p \<longrightarrow> env_mmap env 1 k = Some q \<longrightarrow>
        apart (unat p, unat n) (unat q, unat k))"

text \<open>The guest-physical addresses that RAM of the given size occupies.\<close>

definition ram_addr :: "u64 \<Rightarrow> nat \<Rightarrow> bool" where
  "ram_addr ram_size a \<longleftrightarrow>
     a < min (unat ram_size) 0xC0000000 \<or>
     (0x100000000 \<le> a \<and> a + 0xC0000000 < 0x100000000 + unat ram_size)"

lemmas init_defs = init_memory_map_def init_slot_def init_rams_def Let_def

lemma mapped_map_zero: "mapped (map_zero m a n) a n"
  by (simp add: mapped_def map_zero_def)

lemma mapped_map_zero_keep: "mapped m b k \<Longrightarrow> mapped (map_zero m a n) b k"
  by (simp add: mapped_def map_zero_def)

lemma init_memory_map_low:
  assumes "ram_size \<le> 0xC0000000" "0 < ram_size" "init_memory_map env ram_size memory_0 = Some (None, st)"
  obtains p where "env_mmap env 0 ram_size = Some p"
    "MemMapper st = [\<lparr>mr_slot = 0, mr_flags = 0, guest_phys_addr = 0, memory_size = ram_size,
        userspace_addr = p\<rparr>, zero_region]"
    "RamSize st = ram_size" "hmem st = map_zero Map.empty (unat p) (unat ram_size)"
  using assms
  by (auto simp: init_defs memory_0_def split: option.splits if_splits sum.splits
      Option.bind_splits)

lemma init_memory_map_high:
  assumes "\<not> ram_size \<le> 0xC0000000" "init_memory_map env ram_size memory_0 = Some (None, st)"
  obtains p q where "env_mmap env 0 0xC0000000 = Some p"
    "env_mmap env 1 (ram_size - 0xC0000000) = Some q"
    "MemMapper st = [\<lparr>mr_slot = 0, mr_flags = 0, guest_phys_addr = 0, memory_size = 0xC0000000,
        userspace_addr = p\<rparr>,
      \<lparr>mr_slot = 1, mr_flags = 0, guest_phys_addr = 0x100000000,
        memory_size = ram_size - 0xC0000000, userspace_addr = q\<rparr>]"
    "RamSize st = ram_size"
    "hmem st = map_zero (map_zero Map.empty (unat p) 0xC0000000) (unat q) (unat (ram_size - 0xC0000000))"
  using assms
  by (auto simp: init_defs memory_0_def split: option.splits if_splits sum.splits
      Option.bind_splits)

text \<open>Memory that fits below the hole, as \<open>main\<close> asks for it: one slot, accessible and zero.\<close>

lemma init_low_ram:
  assumes "mmap_contract env" "0 < ram_size" "ram_size \<le> 0xC0000000"
    and "init_memory_map env ram_size memory_0 = Some (None, st)"
  shows "mm_ok st" "RamSize st = ram_size" "guest_ok st 0 (unat ram_size)"
    "a + n \<le> unat ram_size \<Longrightarrow> g_rd st a n = Some (replicate n 0)"
proof -
  obtain p where p: "env_mmap env 0 ram_size = Some p"
    "MemMapper st = [\<lparr>mr_slot = 0, mr_flags = 0, guest_phys_addr = 0, memory_size = ram_size,
        userspace_addr = p\<rparr>, zero_region]"
    "RamSize st = ram_size" "hmem st = map_zero Map.empty (unat p) (unat ram_size)"
    using assms by (elim init_memory_map_low)
  have r: "0 < unat ram_size" "unat ram_size \<le> 0xC0000000"
    using assms(2,3) by (simp_all add: word_le_nat_alt word_less_nat_alt)
  have "unat p + unat ram_size \<le> 2 ^ 64"
    using assms(1) p(1) by (auto simp: mmap_contract_def)
  then show ok: "mm_ok st"
    using p r by (simp add: mm_ok_def region_ok_def zero_region_def apart_def guest_extent_def
        host_extent_def mapped_map_zero)
  then show "guest_ok st 0 (unat ram_size)" using p(2) by (simp add: guest_ok_def region_covers_def)
  show "RamSize st = ram_size" by (rule p(3))
  assume a: "a + n \<le> unat ram_size"
  then have c: "region_covers (MemMapper st ! 0) a n" using p(2) by (simp add: region_covers_def)
  have "mapped (hmem st) (host_addr (MemMapper st ! 0) a) n"
    by (rule host_mapped [OF mm_ok_region [OF ok]]) (auto intro: c)
  moreover have "hmem st (host_addr (MemMapper st ! 0) a + i) = Some 0" if "i < n" for i
    using a that p(2,4) by (simp add: host_addr_def map_zero_def)
  ultimately show "g_rd st a n = Some (replicate n 0)"
    using ok c by (subst g_rd_eq [of _ 0]) (auto simp: load_bytes_eq intro!: nth_equalityI)
qed

text \<open>Property C11. When \<open>init_memory_map\<close> succeeds, the mapper is well formed (both slots lie in
  mapped host memory, without wrap-around or overlap) and exactly the guest addresses of RAM
  are accessible: all of RAM up to the hole at 3 GiB, the rest from 4 GiB on, and
  \<open>get_ram_end\<close> is the first address after it.\<close>

theorem init_memory_map_layout:
  assumes "mmap_contract env" "0 < ram_size" "unat ram_size \<le> 2 ^ 63"
    and "init_memory_map env ram_size memory_0 = Some (None, st)"
  shows "mm_ok st \<and> RamSize st = ram_size \<and>
    (\<forall>a. guest_ok st a 1 = ram_addr ram_size a) \<and>
    ram_addr ram_size (unat (get_ram_end st) - 1) \<and>
    (\<forall>a. ram_addr ram_size a \<longrightarrow> a < unat (get_ram_end st))"
proof (cases "ram_size \<le> 0xC0000000")
  case True
  then obtain p where p: "env_mmap env 0 ram_size = Some p"
    "MemMapper st = [\<lparr>mr_slot = 0, mr_flags = 0, guest_phys_addr = 0, memory_size = ram_size,
        userspace_addr = p\<rparr>, zero_region]"
    "RamSize st = ram_size" "hmem st = map_zero Map.empty (unat p) (unat ram_size)"
    using assms by (elim init_memory_map_low)
  have r: "0 < unat ram_size" "unat ram_size \<le> 0xC0000000"
    using True assms(2) by (simp_all add: word_le_nat_alt word_less_nat_alt)
  have "mm_ok st" by (rule init_low_ram(1) [OF assms(1,2) True assms(4)])
  then show ?thesis using p r True
    by (auto simp: guest_ok_def region_covers_def zero_region_def ram_addr_def get_ram_end_def)
next
  case False
  then obtain p q where p: "env_mmap env 0 0xC0000000 = Some p"
    "env_mmap env 1 (ram_size - 0xC0000000) = Some q"
    "MemMapper st = [\<lparr>mr_slot = 0, mr_flags = 0, guest_phys_addr = 0, memory_size = 0xC0000000,
        userspace_addr = p\<rparr>,
      \<lparr>mr_slot = 1, mr_flags = 0, guest_phys_addr = 0x100000000,
        memory_size = ram_size - 0xC0000000, userspace_addr = q\<rparr>]"
    "RamSize st = ram_size"
    "hmem st = map_zero (map_zero Map.empty (unat p) 0xC0000000) (unat q) (unat (ram_size - 0xC0000000))"
    using assms by (elim init_memory_map_high)
  have r: "0xC0000000 < unat ram_size" using False by (simp add: word_le_nat_alt)
  then have sub: "unat (ram_size - 0xC0000000) = unat ram_size - 0xC0000000"
    by (subst unat_sub) (auto simp: word_le_nat_alt)
  have "unat p + unat (0xC0000000 :: u64) \<le> 2 ^ 64"
    "unat q + unat (ram_size - 0xC0000000) \<le> 2 ^ 64"
    "apart (unat p, unat (0xC0000000 :: u64)) (unat q, unat (ram_size - 0xC0000000))"
    using assms(1) p(1,2) unfolding mmap_contract_def by blast+
  then have "mm_ok st"
    using p r assms(3) by (simp add: mm_ok_def region_ok_def apart_def guest_extent_def
        host_extent_def mapped_map_zero mapped_map_zero_keep sub)
  moreover have "unat (get_ram_end st) = 0x100000000 + (unat ram_size - 0xC0000000)"
    using False p(4) assms(3) r by (simp add: get_ram_end_def unat_word_ariths sub)
  ultimately show ?thesis using p r
    by (auto simp: guest_ok_def region_covers_def ram_addr_def sub)
qed

text \<open>A host on which both mappings succeed, and the guest memory \<open>main\<close> gets from it.\<close>

definition sample_env :: mm_env where
  "sample_env = \<lparr>env_malloc = (\<lambda>_. True),
     env_mmap = (\<lambda>i n. if n \<le> 0x10000000000 then Some (if i = 0 then 0x100000000000 else 0x200000000000)
                       else None),
     env_ioctl = (\<lambda>_ _. 0)\<rparr>"

definition sample_memory :: memory where
  "sample_memory = \<lparr>RamSize = RAM_SIZE,
     MemMapper = [\<lparr>mr_slot = 0, mr_flags = 0, guest_phys_addr = 0, memory_size = RAM_SIZE,
        userspace_addr = 0x100000000000\<rparr>, zero_region],
     hmem = map_zero Map.empty 0x100000000000 (unat RAM_SIZE)\<rparr>"

lemma sample_mmap_contract: "mmap_contract sample_env"
proof -
  have bound: "n \<le> 0x10000000000 \<Longrightarrow> unat n \<le> 0x10000000000" for n :: u64
    by (simp add: word_le_nat_alt)
  show ?thesis
    by (auto simp: mmap_contract_def sample_env_def apart_def dest!: bound split: if_splits)
qed

lemma init_sample: "init_memory_map sample_env RAM_SIZE memory_0 = Some (None, sample_memory)"
  by (simp add: init_defs sample_env_def memory_0_def sample_memory_def const_simps)

lemma sample_mm_ok [simp]: "mm_ok sample_memory"
  by (simp add: mm_ok_def sample_memory_def region_ok_def zero_region_def const_simps
      mapped_map_zero apart_def guest_extent_def host_extent_def)

lemma sample_guest_ok [simp]: "a + n \<le> 0x20000000 \<Longrightarrow> guest_ok sample_memory a n"
  by (simp add: guest_ok_def) (simp add: sample_memory_def region_covers_def const_simps)

lemma sample_guest_zero: "a + n \<le> 0x20000000 \<Longrightarrow> g_rd sample_memory a n = Some (replicate n 0)"
proof -
  assume a: "a + n \<le> 0x20000000"
  then have c: "region_covers (MemMapper sample_memory ! 0) a n"
    by (simp add: sample_memory_def region_covers_def const_simps)
  have "mapped (hmem sample_memory) (host_addr (MemMapper sample_memory ! 0) a) n"
    by (rule host_mapped [OF mm_ok_region [OF sample_mm_ok]]) (auto intro: c)
  moreover have "hmem sample_memory (host_addr (MemMapper sample_memory ! 0) a + i) = Some 0" if "i < n" for i
    using a that by (simp add: sample_memory_def host_addr_def map_zero_def const_simps)
  ultimately show ?thesis
    using c by (subst g_rd_eq [of _ 0]) (auto simp: load_bytes_eq intro!: nth_equalityI)
qed

theorem init_memory_map_layout_witness:
  "mmap_contract sample_env \<and> mm_ok sample_memory \<and> RamSize sample_memory = RAM_SIZE \<and>
    (\<forall>a. guest_ok sample_memory a 1 = ram_addr RAM_SIZE a)"
  using init_memory_map_layout [OF sample_mmap_contract _ _ init_sample] sample_mmap_contract
  by (simp add: const_simps)

text \<open>\<open>init_memory_map\<close> decides between its outcomes as follows: it succeeds exactly
  when every \<open>mmap\<close> and ioctl it makes for a non-empty part does; otherwise, with memory for
  the slot records, it returns \<open>-1\<close>. It makes no call for an empty part.\<close>

lemma init_memory_map_outcome:
  assumes "\<forall>i. env_malloc env i" "length (MemMapper st) = 2"
  shows "\<exists>st'. init_memory_map env ram_size st =
    Some (if \<forall>i<2. let ram = init_rams ram_size ! i in
               snd ram = 0 \<or> (\<exists>p. env_mmap env i (snd ram) = Some p \<and>
                 0 \<le> env_ioctl env i \<lparr>mr_slot = of_nat i, mr_flags = 0, guest_phys_addr = fst ram,
                    memory_size = snd ram, userspace_addr = p\<rparr>)
          then None else Some (- 1), st')"
  using assms
  by (cases "ram_size \<le> 0xC0000000")
    (auto simp: init_defs all_less_2 split: option.splits sum.splits)

text \<open>Property C12. Under a well-formed mapper the translation is exact: an address of slot \<open>i\<close> goes
  to the byte at the same offset of that slot's host mapping, which is mapped memory; an
  address of no slot makes \<open>find_mapper_index\<close> return \<open>-1\<close>, with which the code indexes
  outside \<open>MemMapper\<close>. Two guest addresses never share a host byte.\<close>

theorem get_userspace_addr_exact:
  assumes "mm_ok st"
  shows "(\<forall>i<2. region_covers (MemMapper st ! i) (unat a) 1 \<longrightarrow>
      (\<exists>p. get_userspace_addr st a = Some p \<and> hmem st (unat p) \<noteq> None \<and>
        unat p = unat (userspace_addr (MemMapper st ! i)) + (unat a - unat (guest_phys_addr (MemMapper st ! i))))) \<and>
    (\<not> guest_ok st (unat a) 1 \<longrightarrow> get_userspace_addr st a = None) \<and>
    (\<forall>b p. get_userspace_addr st a = Some p \<longrightarrow> get_userspace_addr st b = Some p \<longrightarrow> a = b)"
proof (intro conjI allI impI)
  fix i :: nat
  assume i: "i < 2" "region_covers (MemMapper st ! i) (unat a) 1"
  obtain p where p: "get_userspace_addr st a = Some p" "unat p = host_addr (MemMapper st ! i) (unat a)"
    using get_userspace_addr_covered [OF assms i(1), of "unat a" 0] i(2) by auto
  have "mapped (hmem st) (host_addr (MemMapper st ! i) (unat a)) 1"
    using host_mapped mm_ok_region assms i by blast
  then show "\<exists>p. get_userspace_addr st a = Some p \<and> hmem st (unat p) \<noteq> None \<and>
        unat p = unat (userspace_addr (MemMapper st ! i)) + (unat a - unat (guest_phys_addr (MemMapper st ! i)))"
    using p by (simp add: mapped_def host_addr_def)
next
  show "get_userspace_addr st a = None" if "\<not> guest_ok st (unat a) 1"
    by (rule get_userspace_addr_uncovered [OF assms that])
next
  fix b p
  assume ab: "get_userspace_addr st a = Some p" "get_userspace_addr st b = Some p"
  then have "guest_ok st (unat a) 1" "guest_ok st (unat b) 1"
    using get_userspace_addr_uncovered [OF assms] by fastforce+
  then obtain i j where ij: "i < 2" "region_covers (MemMapper st ! i) (unat a) 1"
    "j < 2" "region_covers (MemMapper st ! j) (unat b) 1"
    by (metis guest_okE)
  have "host_addr (MemMapper st ! i) (unat a) = host_addr (MemMapper st ! j) (unat b)"
    using get_userspace_addr_covered [OF assms ij(1), of "unat a" 0]
      get_userspace_addr_covered [OF assms ij(3), of "unat b" 0] ab ij by auto
  then have "\<not> apart (unat a, 1) (unat b, 1)"
    using host_apart [OF assms ij(1,3,2,4)] by (auto simp: apart_def)
  then show "a = b" by (simp add: apart_def word_unat_eq_iff)
qed

theorem get_userspace_addr_exact_witness:
  "get_userspace_addr sample_memory 0x1000 = Some 0x100000001000 \<and>
   get_userspace_addr sample_memory 0x20000000 = None"
proof
  show "get_userspace_addr sample_memory 0x1000 = Some 0x100000001000"
  proof -
    obtain p where "get_userspace_addr sample_memory 0x1000 = Some p" "unat p = unat (0x100000001000 :: u64)"
      using conjunct1 [OF get_userspace_addr_exact [OF sample_mm_ok, of "0x1000"]]
      by (auto simp: all_less_2 region_covers_def sample_memory_def const_simps)
    then show ?thesis by (metis word_unat_eq_iff)
  qed
  show "get_userspace_addr sample_memory 0x20000000 = None"
    using conjunct1 [OF conjunct2 [OF get_userspace_addr_exact [OF sample_mm_ok, of "0x20000000"]]]
    by (simp add: guest_ok_def region_covers_def sample_memory_def const_simps zero_region_def)
qed

text \<open>\<open>write_userspace_memory\<close> to accessible guest memory succeeds, stores exactly the
  given bytes there and leaves every other accessible range, and the mapper, unchanged.\<close>

theorem write_userspace_memory_correct:
  assumes "guest_ok st (unat a) (length src)" "src \<noteq> []"
  shows "\<exists>st'. write_userspace_memory st src a = Some st' \<and> MemMapper st' = MemMapper st \<and>
    guest_load st' a (length src) = Some src \<and>
    (\<forall>b n. guest_ok st (unat b) n \<longrightarrow> 0 < n \<longrightarrow> apart (unat a, length src) (unat b, n) \<longrightarrow>
       guest_load st' b n = guest_load st b n)"
proof -
  obtain st' where st': "g_wr st (unat a) src = Some st'"
    using guest.wr_total [OF assms(1)] by blast
  then have "write_userspace_memory st src a = Some st'"
    using assms(2) by (simp add: write_userspace_memory_eq guest_store_g_wr)
  then show ?thesis
    using assms guest.rd_wr_same [OF assms(1) st'] guest.rd_wr_other [OF assms(1) st'] guest_store_keeps
    by (auto simp: write_userspace_memory_eq guest_load_g_rd)
qed

theorem write_userspace_memory_correct_witness:
  "\<exists>st'. write_userspace_memory sample_memory [1, 2, 3] 0x7000 = Some st' \<and>
     guest_load st' 0x7000 3 = Some [1, 2, 3]"
  using write_userspace_memory_correct [of sample_memory "0x7000" "[1, 2, 3]"] by (auto simp: numeral_3_eq_3)

end
