(* ===== verification/Pagetable.thy ===== *)
theory Pagetable
  imports Memory
begin

text \<open>
  \<open>setup_pagetable\<close> of \<open>src/main.c\<close>: one PML4 entry, one page-directory-pointer entry and
  512 page-directory entries of 2 MiB pages, written to guest memory. The reference is the
  address translation of the processor in 4-level paging mode, \<open>page_walk\<close>; the property is
  that the tables identity-map exactly the first GiB.
\<close>

section \<open>The page tables\<close>

definition pde_value :: "nat \<Rightarrow> u64" where
  "pde_value i = word_of_int (push_bit 21 (int i) + 0x83)"

primrec setup_pde :: "nat list \<Rightarrow> memory \<Rightarrow> memory option" where
  "setup_pde [] st = Some st"
| "setup_pde (i # is) st =
     do { st' \<leftarrow> guest_store st (PDE_START + of_nat (i * 8)) (le_bytes 8 (pde_value i));
          setup_pde is st' }"

definition setup_pagetable :: "memory \<Rightarrow> memory option" where
  "setup_pagetable st =
     do { st1 \<leftarrow> guest_store st PML4_START (le_bytes 8 (PDPTE_START OR 0x03));
          st2 \<leftarrow> guest_store st1 PDPTE_START (le_bytes 8 (PDE_START OR 0x03));
          setup_pde [0..<512] st2 }"

section \<open>The processor's translation\<close>

definition table_index :: "nat \<Rightarrow> nat \<Rightarrow> nat" where
  "table_index shift va = va div 2 ^ shift mod 512"

definition entry_at :: "memory \<Rightarrow> nat \<Rightarrow> nat \<Rightarrow> u64 option" where
  "entry_at st table index =
     do { bs \<leftarrow> g_rd st (table + index * 8) 8;
          let e = of_le bs :: u64 in if bit e 0 then Some e else None }"

definition entry_addr :: "u64 \<Rightarrow> nat" where
  "entry_addr e = unat (e AND 0x000ffffffffff000)"

text \<open>4-level paging with 2 MiB pages: \<open>None\<close> when an entry is not present or the last level
  would need a page table.\<close>

definition page_walk :: "memory \<Rightarrow> u64 \<Rightarrow> nat \<Rightarrow> nat option" where
  "page_walk st cr3 va =
     do { pml4e \<leftarrow> entry_at st (entry_addr cr3) (table_index 39 va);
          pdpte \<leftarrow> entry_at st (entry_addr pml4e) (table_index 30 va);
          if bit pdpte 7 then None else do {
          pde \<leftarrow> entry_at st (entry_addr pdpte) (table_index 21 va);
          if bit pde 7 then Some (unat (pde AND 0x000fffffffe00000) + va mod 2 ^ 21) else None } }"

section \<open>Properties\<close>

definition table_writes :: "(nat \<times> bytes) list" where
  "table_writes = (0x9000, le_bytes 8 (PDPTE_START OR 0x03)) # (0xa000, le_bytes 8 (PDE_START OR 0x03)) #
     map (\<lambda>i. (0xb000 + i * 8, le_bytes 8 (pde_value i))) [0..<512]"

lemma guest_store_word: "guest_store st a (le_bytes 8 (w :: u64)) = g_wr st (unat a) (le_bytes 8 w)"
  by (rule guest_store_g_wr) (simp add: layout_simps)

lemma setup_pde_wr:
  "(\<And>i. i \<in> set is \<Longrightarrow> i < 512) \<Longrightarrow>
   setup_pde is st = wr_all g_wr (map (\<lambda>i. (0xb000 + i * 8, le_bytes 8 (pde_value i))) is) st"
proof (induction "is" arbitrary: st)
  case (Cons i "is")
  have "unat (PDE_START + of_nat (i * 8)) = 0xb000 + i * 8"
    using Cons.prems [of i] of_nat_unat_add [of PDE_START "i * 8"] by (simp add: const_simps)
  then show ?case using Cons by (auto simp: guest_store_word split: Option.bind_split)
qed simp

lemma setup_pagetable_wr: "setup_pagetable st = wr_all g_wr table_writes st"
proof -
  have "unat PML4_START = 0x9000" "unat PDPTE_START = 0xa000" by (simp_all add: const_simps)
  then show ?thesis
    by (auto simp: setup_pagetable_def table_writes_def guest_store_word intro: setup_pde_wr split: Option.bind_split)
qed

lemma table_writes_extent:
  "w \<in> set table_writes \<Longrightarrow> extent w \<in> {(0x9000, 8), (0xa000, 8)} \<union> {(0xb000 + i * 8, 8) | i. i < 512}"
  by (auto simp: table_writes_def)

lemma table_writes_ok:
  "guest_ok st 0x9000 0x3000 \<Longrightarrow> w \<in> set table_writes \<Longrightarrow> guest_ok st (fst w) (length (snd w))"
  using table_writes_extent [of w] by (auto simp: extent_def intro!: guest.ok_sub [of st "0x9000" "0x3000"])

lemma table_writes_apart: "sorted_wrt (\<lambda>v w. apart (extent v) (extent w)) table_writes"
proof -
  have "sorted_wrt (\<lambda>i j. apart (0xb000 + i * 8, 8) (0xb000 + j * 8, 8)) [0..<512]"
    by (rule sorted_wrt_mono_rel [OF _ sorted_wrt_upt]) (auto simp: apart_def)
  then show ?thesis by (auto simp: table_writes_def sorted_wrt_map apart_def)
qed

lemma entry_at_present: "g_rd st (t + i * 8) 8 = Some (le_bytes 8 (e :: u64)) \<Longrightarrow> bit e 0 \<Longrightarrow> entry_at st t i = Some e"
  by (simp add: entry_at_def Let_def)

lemma unat_index: "i < 512 \<Longrightarrow> unat (ucast (of_nat i :: 9 word) :: u64) = i"
  by (simp add: unsigned_ucast_eq take_bit_nat_eq_self unat_of_nat)

lemma pde_value_eq: "i < 512 \<Longrightarrow> pde_value i = push_bit 21 (ucast (of_nat i :: 9 word)) OR 0x83"
proof -
  assume i: "i < 512"
  then have "(ucast (of_nat i :: 9 word) :: u64) = of_nat i"
    by (intro word_unat_eq_iff [THEN iffD2]) (simp add: unat_index unat_of_nat)
  then have "pde_value i = push_bit 21 (ucast (of_nat i :: 9 word)) + 0x83"
    by (simp add: pde_value_def push_bit_eq_mult)
  also have "\<dots> = push_bit 21 (ucast (of_nat i :: 9 word)) OR 0x83"
  proof (rule disjunctive_add)
    have "bit (0x83 :: u64) n \<Longrightarrow> n < 8" for n by (auto simp: bit_numeral_rec bit_1_iff split: nat.splits)
    then show "\<not> bit (push_bit 21 (ucast (of_nat i :: 9 word)) :: u64) n \<or> \<not> bit (0x83 :: u64) n" for n
      by (fastforce simp: bit_push_bit_iff)
  qed
  finally show ?thesis .
qed

lemma pde_value_bits:
  assumes "i < 512"
  shows "bit (pde_value i) 0" "bit (pde_value i) 7" "unat (pde_value i AND 0x000fffffffe00000) = i * 2 ^ 21"
proof -
  show "bit (pde_value i) 0" "bit (pde_value i) 7"
    using assms by (simp_all add: pde_value_eq bit_simps)
  have "pde_value i AND 0x000fffffffe00000 = push_bit 21 (ucast (of_nat i :: 9 word))"
    unfolding pde_value_eq [OF assms]
    by (rule word_eqI64, simp, unfold upt_0_64) (simp add: bit_simps)
  then show "unat (pde_value i AND 0x000fffffffe00000) = i * 2 ^ 21"
    using assms by (simp add: push_bit_eq_mult unat_word_ariths unat_index)
qed

text \<open>The tables in memory, and the walks they give for the first GiB.\<close>

definition tables_hold :: "memory \<Rightarrow> bool" where
  "tables_hold st \<longleftrightarrow> (\<forall>w\<in>set table_writes. holds st (fst w) (snd w))"

lemma tables_entries:
  assumes "tables_hold st"
  shows "entry_at st 0x9000 0 = Some (PDPTE_START OR 3)" "entry_at st 0xa000 0 = Some (PDE_START OR 3)"
    "i < 512 \<Longrightarrow> entry_at st 0xb000 i = Some (pde_value i)"
proof -
  have rd: "g_rd st (fst w) (length (snd w)) = Some (snd w)" if "w \<in> set table_writes" for w
    using assms that by (auto simp: tables_hold_def holds_def)
  show "entry_at st 0x9000 0 = Some (PDPTE_START OR 3)"
    using rd [of "(0x9000, le_bytes 8 (PDPTE_START OR 3))"]
    by (intro entry_at_present) (simp_all add: table_writes_def const_simps)
  show "entry_at st 0xa000 0 = Some (PDE_START OR 3)"
    using rd [of "(0xa000, le_bytes 8 (PDE_START OR 3))"]
    by (intro entry_at_present) (simp_all add: table_writes_def const_simps)
  show "i < 512 \<Longrightarrow> entry_at st 0xb000 i = Some (pde_value i)"
    using rd [of "(0xb000 + i * 8, le_bytes 8 (pde_value i))"]
    by (intro entry_at_present) (auto simp: table_writes_def pde_value_bits)
qed

lemma tables_walk:
  assumes "tables_hold st" "va < 2 ^ 30"
  shows "page_walk st PML4_START va = Some va"
proof -
  have "va div 2 ^ 21 < 512" using assms(2) by (simp add: div_less_iff_less_mult)
  then show ?thesis using assms tables_entries [OF assms(1)]
    by (simp add: page_walk_def table_index_def entry_addr_def const_simps bit_simps pde_value_bits)
qed

lemma tables_frame:
  assumes "tables_hold st" "frame st (a, n) st'" "a + n \<le> 0x9000 \<or> 0xc000 \<le> a"
  shows "tables_hold st'"
  unfolding tables_hold_def
proof
  fix w
  assume w: "w \<in> set table_writes"
  then have "apart (a, n) (fst w, length (snd w))"
    using table_writes_extent [OF w] assms(3) by (auto simp: apart_def extent_def)
  then show "holds st' (fst w) (snd w)"
    using frame_holds [OF assms(2)] assms(1) w by (auto simp: tables_hold_def)
qed

lemma setup_pagetable_holds:
  assumes "guest_ok st 0x9000 0x3000"
  shows "\<exists>st'. setup_pagetable st = Some st' \<and> tables_hold st' \<and> frame st (0x9000, 0x3000) st'"
proof -
  note ok = table_writes_ok [OF assms]
  obtain st' where st': "wr_all g_wr table_writes st = Some st'"
    using guest.wr_all_total ok by blast
  have in3: "0x9000 \<le> fst w" "fst w + length (snd w) \<le> 0xc000" if "w \<in> set table_writes" for w
    using table_writes_extent [OF that] by (auto simp: extent_def)
  then have fr: "frame st (0x9000, 0x3000) st'"
    using ok by (intro g_wr_all_frame [OF st']) auto
  have "tables_hold st'"
    using guest.rd_wr_all_in [OF st' ok table_writes_apart] frame_guest_ok [OF fr ok]
    by (auto simp: tables_hold_def holds_def)
  then show ?thesis using st' fr by (auto simp: setup_pagetable_wr)
qed

text \<open>Property C15. With accessible memory from \<open>PML4_START\<close> on, \<open>setup_pagetable\<close> succeeds, and the
  processor's walk from \<open>PML4_START\<close> translates every address of the first GiB to itself; when the
  table pages were zero before, as a fresh mapping is, it translates no other address of the
  48-bit space.\<close>

theorem setup_pagetable_identity:
  assumes "guest_ok st 0x9000 0x3000"
  shows "\<exists>st'. setup_pagetable st = Some st' \<and>
    (\<forall>va < 2 ^ 30. page_walk st' PML4_START va = Some va) \<and>
    (g_rd st 0x9000 0x2000 = Some (replicate 0x2000 0) \<longrightarrow>
      (\<forall>va < 2 ^ 48. 2 ^ 30 \<le> va \<longrightarrow> page_walk st' PML4_START va = None))"
proof -
  note ok = table_writes_ok [OF assms]
  obtain st' where st': "wr_all g_wr table_writes st = Some st'"
    using guest.wr_all_total ok by blast
  have tab: "tables_hold st'"
    using setup_pagetable_holds [OF assms] st' by (auto simp: setup_pagetable_wr)
  note pml4e = tables_entries(1) [OF tab]
  note low = tables_walk [OF tab]
  have none: "entry_at st' t i = None"
    if z: "g_rd st 0x9000 0x2000 = Some (replicate 0x2000 0)" and t: "t = 0x9000 \<or> t = 0xa000"
      and i: "0 < i" "i < 512" for t i
  proof -
    have in2: "guest_ok st 0x9000 0x2000" and ine: "guest_ok st (t + i * 8) 8"
      using t i by (auto intro!: guest.ok_sub [OF assms])
    have "g_rd st' (t + i * 8) 8 = g_rd st (t + i * 8) 8"
      using guest.rd_wr_all_other [OF st' ok ine] table_writes_extent t i
      by (fastforce simp: apart_def)
    also have "\<dots> = Some (replicate 8 0)"
      using guest.rd_sub [OF in2 z, of "t + i * 8" 8] t i by auto
    finally show ?thesis by (simp add: entry_at_def)
  qed
  have "page_walk st' PML4_START va = None"
    if z: "g_rd st 0x9000 0x2000 = Some (replicate 0x2000 0)" and va: "va < 2 ^ 48" "2 ^ 30 \<le> va" for va
  proof (cases "table_index 39 va = 0")
    case True
    then have "va div 2 ^ 39 = 0" using va(1) by (simp add: table_index_def div_less_iff_less_mult)
    then have "va div 2 ^ 30 < 512" "1 \<le> va div 2 ^ 30"
      using va(2) by (simp_all add: div_less_iff_less_mult div_eq_0_iff less_eq_div_iff_mult_less_eq)
    then have "0 < table_index 30 va" by (simp add: table_index_def)
    then show ?thesis
      using True none [OF z, of "0xa000" "table_index 30 va"] pml4e
      by (simp add: page_walk_def entry_addr_def const_simps table_index_def)
  next
    case False
    then show ?thesis
      using none [OF z, of "0x9000" "table_index 39 va"]
      by (simp add: page_walk_def entry_addr_def const_simps table_index_def)
  qed
  with low st' show ?thesis by (auto simp: setup_pagetable_wr)
qed

theorem setup_pagetable_identity_witness:
  "\<exists>st'. setup_pagetable sample_memory = Some st' \<and>
     page_walk st' PML4_START 0x1000000 = Some 0x1000000 \<and>
     page_walk st' PML4_START 0x40000000 = None"
  using setup_pagetable_identity [of sample_memory] sample_guest_zero [of "0x9000" "0x2000"] by fastforce

end
