(* ===== verification/Mptable.thy ===== *)
theory Mptable
  imports Memory
begin

text \<open>
  \<open>src/mptable.c\<close> and the structures of \<open>src/mpspec_def.h\<close>: the MultiProcessor tables the
  guest reads to find its processors and interrupt routing. \<open>setup_mptable\<close> writes a floating
  pointer, a table header and the entries straight into guest memory, adding up the checksum as
  it goes. The reference is a parser of the table in the form the MP specification gives it;
  the properties say that the checksums come out as zero, that the parser reads back every
  processor and interrupt, and that nothing else is touched.
\<close>

section \<open>Structures\<close>

record mpf_intel =
  mpf_signature :: bytes
  mpf_physptr :: u32
  mpf_length :: u8
  mpf_specification :: u8
  mpf_checksum :: u8
  mpf_feature1 :: u8
  mpf_feature2 :: u8
  mpf_feature3 :: u8
  mpf_feature4 :: u8
  mpf_feature5 :: u8

record mpc_table =
  mpc_signature :: bytes
  mpc_length :: u16
  mpc_spec :: u8
  mpc_checksum :: u8
  mpc_oem :: bytes
  mpc_productid :: bytes
  mpc_oemptr :: u32
  mpc_oemsize :: u16
  mpc_oemcount :: u16
  mpc_lapic :: u32
  mpc_reserved :: u32

record mpc_cpu =
  cpu_type :: u8
  cpu_apicid :: u8
  cpu_apicver :: u8
  cpu_cpuflag :: u8
  cpu_cpufeature :: u32
  cpu_featureflag :: u32
  cpu_reserved1 :: u32
  cpu_reserved2 :: u32

record mpc_bus =
  bus_type :: u8
  bus_busid :: u8
  bus_bustype :: bytes

record mpc_ioapic =
  ioapic_type :: u8
  ioapic_apicid :: u8
  ioapic_apicver :: u8
  ioapic_flags :: u8
  ioapic_apicaddr :: u32

record mpc_intsrc =
  int_type :: u8
  int_irqtype :: u8
  int_irqflag :: u16
  int_srcbus :: u8
  int_srcbusirq :: u8
  int_dstapic :: u8
  int_dstirq :: u8

record mpc_lintsrc =
  lint_type :: u8
  lint_irqtype :: u8
  lint_irqflag :: u16
  lint_srcbusid :: u8
  lint_srcbusirq :: u8
  lint_destapic :: u8
  lint_destapiclint :: u8

datatype mp_irq_source_types = mp_INT | mp_NMI | mp_SMI | mp_ExtINT

primrec irq_source_code :: "mp_irq_source_types \<Rightarrow> u8" where
  "irq_source_code mp_INT = 0"
| "irq_source_code mp_NMI = 1"
| "irq_source_code mp_SMI = 2"
| "irq_source_code mp_ExtINT = 3"

definition MP_PROCESSOR :: u8 where "MP_PROCESSOR = 0"
definition MP_BUS :: u8 where "MP_BUS = 1"
definition MP_IOAPIC :: u8 where "MP_IOAPIC = 2"
definition MP_INTSRC :: u8 where "MP_INTSRC = 3"
definition MP_LINTSRC :: u8 where "MP_LINTSRC = 4"
definition CPU_ENABLED :: u8 where "CPU_ENABLED = 1"
definition CPU_BOOTPROCESSOR :: u8 where "CPU_BOOTPROCESSOR = 2"
definition MPC_APIC_USABLE :: u8 where "MPC_APIC_USABLE = 1"
definition APIC_VERSION :: u8 where "APIC_VERSION = 0x14"
definition MPC_SPEC :: u8 where "MPC_SPEC = 4"
definition MP_IRQDIR_DEFAULT :: u16 where "MP_IRQDIR_DEFAULT = 0"

text \<open>The character arrays, without the terminating null the copies leave out.\<close>

definition c_chars :: "string \<Rightarrow> bytes" where
  "c_chars s = map of_char s"

definition MPC_SIGNATURE :: bytes where "MPC_SIGNATURE = c_chars ''PCMP''"
definition MPC_OEM :: bytes where "MPC_OEM = c_chars ''STRATSTR''"
definition MPC_PRODUCT_ID :: bytes where "MPC_PRODUCT_ID = c_chars ''1.1.1.1.1.1.''"
definition BUS_TYPE_ISA :: bytes where "BUS_TYPE_ISA = c_chars ''ISAISA''"

lemmas mp_consts = MP_PROCESSOR_def MP_BUS_def MP_IOAPIC_def MP_INTSRC_def MP_LINTSRC_def
  CPU_ENABLED_def CPU_BOOTPROCESSOR_def MPC_APIC_USABLE_def APIC_VERSION_def MPC_SPEC_def
  MP_IRQDIR_DEFAULT_def MPC_SIGNATURE_def MPC_OEM_def MPC_PRODUCT_ID_def BUS_TYPE_ISA_def c_chars_def

text \<open>Object representations; no member is preceded by padding.\<close>

definition mpf_bytes :: "mpf_intel \<Rightarrow> bytes" where
  "mpf_bytes s = mpf_signature s @ le_bytes 4 (mpf_physptr s) @
     [mpf_length s, mpf_specification s, mpf_checksum s, mpf_feature1 s, mpf_feature2 s,
      mpf_feature3 s, mpf_feature4 s, mpf_feature5 s]"

definition table_bytes :: "mpc_table \<Rightarrow> bytes" where
  "table_bytes s = mpc_signature s @ le_bytes 2 (mpc_length s) @ [mpc_spec s, mpc_checksum s] @
     mpc_oem s @ mpc_productid s @ le_bytes 4 (mpc_oemptr s) @ le_bytes 2 (mpc_oemsize s) @
     le_bytes 2 (mpc_oemcount s) @ le_bytes 4 (mpc_lapic s) @ le_bytes 4 (mpc_reserved s)"

definition cpu_bytes :: "mpc_cpu \<Rightarrow> bytes" where
  "cpu_bytes s = [cpu_type s, cpu_apicid s, cpu_apicver s, cpu_cpuflag s] @
     le_bytes 4 (cpu_cpufeature s) @ le_bytes 4 (cpu_featureflag s) @
     le_bytes 4 (cpu_reserved1 s) @ le_bytes 4 (cpu_reserved2 s)"

definition bus_bytes :: "mpc_bus \<Rightarrow> bytes" where
  "bus_bytes s = [bus_type s, bus_busid s] @ bus_bustype s"

definition ioapic_bytes :: "mpc_ioapic \<Rightarrow> bytes" where
  "ioapic_bytes s = [ioapic_type s, ioapic_apicid s, ioapic_apicver s, ioapic_flags s] @
     le_bytes 4 (ioapic_apicaddr s)"

definition intsrc_bytes :: "mpc_intsrc \<Rightarrow> bytes" where
  "intsrc_bytes s = [int_type s, int_irqtype s] @ le_bytes 2 (int_irqflag s) @
     [int_srcbus s, int_srcbusirq s, int_dstapic s, int_dstirq s]"

definition lintsrc_bytes :: "mpc_lintsrc \<Rightarrow> bytes" where
  "lintsrc_bytes s = [lint_type s, lint_irqtype s] @ le_bytes 2 (lint_irqflag s) @
     [lint_srcbusid s, lint_srcbusirq s, lint_destapic s, lint_destapiclint s]"

section \<open>Operations\<close>

primrec checksum_loop :: "memory \<Rightarrow> nat \<Rightarrow> nat \<Rightarrow> u8 \<Rightarrow> u8 option" where
  "checksum_loop st buf 0 acc = Some acc"
| "checksum_loop st buf (Suc n) acc =
     do { b \<leftarrow> hmem st buf; checksum_loop st (Suc buf) n (acc + b) }"

definition mptable_checksum :: "memory \<Rightarrow> nat \<Rightarrow> nat \<Rightarrow> int option" where
  "mptable_checksum st buf n = do { sum \<leftarrow> checksum_loop st buf n 0; Some (uint sum) }"

text \<open>The members assigned between the \<open>memset\<close> of a structure and its checksum make up the
  whole structure, so they are one store of its bytes. The state of the entry loops is guest
  memory, \<open>offset\<close> and \<open>checksum\<close>.\<close>

definition mp_entry :: "bytes \<Rightarrow> memory \<times> nat \<times> u8 \<Rightarrow> (memory \<times> nat \<times> u8) option" where
  "mp_entry bs s = (case s of (st, offset, checksum) \<Rightarrow>
     do { p \<leftarrow> get_userspace_addr st (MPTABLE_START + of_nat offset);
          st' \<leftarrow> ptr_store st (unat p) bs;
          sum \<leftarrow> mptable_checksum st' (unat p) (length bs);
          Some (st', offset + length bs, checksum + word_of_int sum) })"

definition mp_cpu :: "nat \<Rightarrow> mpc_cpu" where
  "mp_cpu i = \<lparr>cpu_type = MP_PROCESSOR, cpu_apicid = of_nat i, cpu_apicver = APIC_VERSION,
     cpu_cpuflag = (if i = 0 then CPU_ENABLED OR CPU_BOOTPROCESSOR else CPU_ENABLED),
     cpu_cpufeature = 0x600, cpu_featureflag = 0x201, cpu_reserved1 = 0, cpu_reserved2 = 0\<rparr>"

definition mp_intsrc :: "int \<Rightarrow> nat \<Rightarrow> mpc_intsrc" where
  "mp_intsrc num_cpus i = \<lparr>int_type = MP_INTSRC, int_irqtype = irq_source_code mp_INT,
     int_irqflag = MP_IRQDIR_DEFAULT, int_srcbus = 0, int_srcbusirq = of_nat i,
     int_dstapic = word_of_int (num_cpus + 1), int_dstirq = of_nat i\<rparr>"

primrec setup_cpus :: "nat list \<Rightarrow> memory \<times> nat \<times> u8 \<Rightarrow> (memory \<times> nat \<times> u8) option" where
  "setup_cpus [] s = Some s"
| "setup_cpus (i # is) s = do { s' \<leftarrow> mp_entry (cpu_bytes (mp_cpu i)) s; setup_cpus is s' }"

primrec setup_intsrcs ::
    "int \<Rightarrow> nat list \<Rightarrow> memory \<times> nat \<times> u8 \<Rightarrow> (memory \<times> nat \<times> u8) option" where
  "setup_intsrcs num_cpus [] s = Some s"
| "setup_intsrcs num_cpus (i # is) s =
     do { s' \<leftarrow> mp_entry (intsrc_bytes (mp_intsrc num_cpus i)) s; setup_intsrcs num_cpus is s' }"

definition setup_mpf :: "memory \<Rightarrow> memory option" where
  "setup_mpf st =
     do { mpf \<leftarrow> get_userspace_addr st MPTABLE_START;
          st \<leftarrow> ptr_store st (unat mpf) (mpf_bytes
            \<lparr>mpf_signature = c_chars ''_MP_'', mpf_physptr = ucast (MPTABLE_START + 16), mpf_length = 1,
             mpf_specification = 4, mpf_checksum = 0, mpf_feature1 = 0, mpf_feature2 = 0,
             mpf_feature3 = 0, mpf_feature4 = 0, mpf_feature5 = 0\<rparr>);
          sum \<leftarrow> mptable_checksum st (unat mpf) 16;
          old \<leftarrow> ptr_load st (unat mpf + 10) 1;
          ptr_store st (unat mpf + 10) [hd old - word_of_int sum] }"

definition mp_table :: mpc_table where
  "mp_table = \<lparr>mpc_signature = MPC_SIGNATURE, mpc_length = 0, mpc_spec = MPC_SPEC, mpc_checksum = 0,
     mpc_oem = MPC_OEM, mpc_productid = MPC_PRODUCT_ID, mpc_oemptr = 0, mpc_oemsize = 0,
     mpc_oemcount = 0, mpc_lapic = ucast APIC_DEFAULT_PHYS_BASE, mpc_reserved = 0\<rparr>"

definition mp_bus :: mpc_bus where
  "mp_bus = \<lparr>bus_type = MP_BUS, bus_busid = 0, bus_bustype = BUS_TYPE_ISA\<rparr>"

definition mp_ioapic :: "int \<Rightarrow> mpc_ioapic" where
  "mp_ioapic num_cpus = \<lparr>ioapic_type = MP_IOAPIC, ioapic_apicid = word_of_int (num_cpus + 1),
     ioapic_apicver = APIC_VERSION, ioapic_flags = MPC_APIC_USABLE,
     ioapic_apicaddr = ucast IO_APIC_DEFAULT_PHYS_BASE\<rparr>"

definition mp_lint_ext :: "int \<Rightarrow> mpc_lintsrc" where
  "mp_lint_ext num_cpus = \<lparr>lint_type = MP_LINTSRC, lint_irqtype = irq_source_code mp_ExtINT,
     lint_irqflag = MP_IRQDIR_DEFAULT, lint_srcbusid = 0, lint_srcbusirq = 0,
     lint_destapic = word_of_int (num_cpus + 1), lint_destapiclint = 0\<rparr>"

definition mp_lint_nmi :: mpc_lintsrc where
  "mp_lint_nmi = \<lparr>lint_type = MP_LINTSRC, lint_irqtype = irq_source_code mp_NMI,
     lint_irqflag = MP_IRQDIR_DEFAULT, lint_srcbusid = 0, lint_srcbusirq = 0,
     lint_destapic = 0xFF, lint_destapiclint = 1\<rparr>"

definition setup_mptable :: "memory \<Rightarrow> int \<Rightarrow> memory option" where
  "setup_mptable st num_cpus =
     do { st \<leftarrow> setup_mpf st;
          table \<leftarrow> get_userspace_addr st (MPTABLE_START + 16);
          st \<leftarrow> ptr_store st (unat table) (table_bytes mp_table);
          s \<leftarrow> setup_cpus [0..<nat num_cpus] (st, 16 + 44, 0);
          s \<leftarrow> mp_entry (bus_bytes mp_bus) s;
          s \<leftarrow> mp_entry (ioapic_bytes (mp_ioapic num_cpus)) s;
          s \<leftarrow> setup_intsrcs num_cpus [0..<16] s;
          s \<leftarrow> mp_entry (lintsrc_bytes (mp_lint_ext num_cpus)) s;
          (st, offset, checksum) \<leftarrow> mp_entry (lintsrc_bytes mp_lint_nmi) s;
          st \<leftarrow> ptr_store st (unat table + 4) (le_bytes 2 (of_nat (offset - 16) :: u16));
          sum \<leftarrow> mptable_checksum st (unat table) 44;
          old \<leftarrow> ptr_load st (unat table + 7) 1;
          ptr_store st (unat table + 7) [hd old - (checksum + word_of_int sum)] }"

section \<open>The table as the MP specification reads it\<close>

datatype mp_item =
    MP_cpu u8 u8 u8 u32 u32
  | MP_bus u8 bytes
  | MP_ioapic u8 u8 u8 u32
  | MP_int u8 u16 u8 u8 u8 u8
  | MP_lint u8 u16 u8 u8 u8 u8

text \<open>One entry by its type byte: a processor entry has twenty bytes, every other kind eight.\<close>

definition mp_item_of :: "bytes \<Rightarrow> (mp_item \<times> nat) option" where
  "mp_item_of e =
     (if e = [] then None
      else if e ! 0 = 0 then
        (if length e < 20 then None
         else Some (MP_cpu (e ! 1) (e ! 2) (e ! 3) (of_le (take 4 (drop 4 e))) (of_le (take 4 (drop 8 e))), 20))
      else if length e < 8 then None
      else if e ! 0 = 1 then Some (MP_bus (e ! 1) (take 6 (drop 2 e)), 8)
      else if e ! 0 = 2 then Some (MP_ioapic (e ! 1) (e ! 2) (e ! 3) (of_le (take 4 (drop 4 e))), 8)
      else if e ! 0 = 3 then
        Some (MP_int (e ! 1) (of_le (take 2 (drop 2 e))) (e ! 4) (e ! 5) (e ! 6) (e ! 7), 8)
      else if e ! 0 = 4 then
        Some (MP_lint (e ! 1) (of_le (take 2 (drop 2 e))) (e ! 4) (e ! 5) (e ! 6) (e ! 7), 8)
      else None)"

function mp_parse :: "bytes \<Rightarrow> mp_item list option" where
  "mp_parse e =
     (if e = [] then Some []
      else case mp_item_of e of
        None \<Rightarrow> None
      | Some (x, n) \<Rightarrow> map_option ((#) x) (mp_parse (drop n e)))"
  by pat_completeness auto

termination
  by (relation "measure length") (auto simp: mp_item_of_def split: if_splits)

declare mp_parse.simps [simp del]

definition mp_items :: "nat \<Rightarrow> mp_item list" where
  "mp_items n =
     map (\<lambda>i. MP_cpu (of_nat i) 0x14 (if i = 0 then 3 else 1) 0x600 0x201) [0..<n] @
     [MP_bus 0 (c_chars ''ISAISA''), MP_ioapic (of_nat (n + 1)) 0x14 1 0xfec00000] @
     map (\<lambda>i. MP_int 0 0 0 (of_nat i) (of_nat (n + 1)) (of_nat i)) [0..<16] @
     [MP_lint 3 0 0 0 (of_nat (n + 1)) 0, MP_lint 1 0 0 0 0xFF 1]"

section \<open>Checksums and entries in memory\<close>

lemma checksum_loop_eq:
  "load_bytes (hmem st) buf n = Some bs \<Longrightarrow> checksum_loop st buf n acc = Some (acc + sum_list bs)"
  by (induction n arbitrary: buf acc bs) (fastforce split: Option.bind_splits)+

lemma mptable_checksum_eq:
  "ptr_load st buf n = Some bs \<Longrightarrow> mptable_checksum st buf n = Some (uint (sum_list bs))"
  by (simp add: mptable_checksum_def ptr_load_def checksum_loop_eq)

primrec mp_put :: "bytes list \<Rightarrow> memory \<times> nat \<times> u8 \<Rightarrow> (memory \<times> nat \<times> u8) option" where
  "mp_put [] s = Some s"
| "mp_put (bs # bss) s = do { s' \<leftarrow> mp_entry bs s; mp_put bss s' }"

lemma mp_put_append: "mp_put (xs @ ys) s = do { s' \<leftarrow> mp_put xs s; mp_put ys s' }"
  by (induction xs arbitrary: s) (auto split: Option.bind_split)

lemma setup_cpus_put: "setup_cpus is s = mp_put (map (\<lambda>i. cpu_bytes (mp_cpu i)) is) s"
  by (induction "is" arbitrary: s) (auto split: Option.bind_split)

lemma setup_intsrcs_put: "setup_intsrcs n is s = mp_put (map (\<lambda>i. intsrc_bytes (mp_intsrc n i)) is) s"
  by (induction "is" arbitrary: s) (auto split: Option.bind_split)

definition mp_entries :: "int \<Rightarrow> bytes list" where
  "mp_entries num_cpus = map (\<lambda>i. cpu_bytes (mp_cpu i)) [0..<nat num_cpus] @
     [bus_bytes mp_bus, ioapic_bytes (mp_ioapic num_cpus)] @
     map (\<lambda>i. intsrc_bytes (mp_intsrc num_cpus i)) [0..<16] @
     [lintsrc_bytes (mp_lint_ext num_cpus), lintsrc_bytes mp_lint_nmi]"

lemma setup_mptable_put:
  "setup_mptable st num_cpus =
     do { st \<leftarrow> setup_mpf st;
          table \<leftarrow> get_userspace_addr st (MPTABLE_START + 16);
          st \<leftarrow> ptr_store st (unat table) (table_bytes mp_table);
          (st, offset, checksum) \<leftarrow> mp_put (mp_entries num_cpus) (st, 60, 0);
          st \<leftarrow> ptr_store st (unat table + 4) (le_bytes 2 (of_nat (offset - 16) :: u16));
          sum \<leftarrow> mptable_checksum st (unat table) 44;
          old \<leftarrow> ptr_load st (unat table + 7) 1;
          ptr_store st (unat table + 7) [hd old - (checksum + word_of_int sum)] }"
  by (simp add: setup_mptable_def mp_entries_def mp_put_append setup_cpus_put setup_intsrcs_put)

lemma unat_mptable: "n \<le> 0x10000 \<Longrightarrow> unat (MPTABLE_START + of_nat n) = 0x9fc00 + n"
  using of_nat_unat_add [of MPTABLE_START n] by (simp add: const_simps)

text \<open>Writing one entry after what the table holds so far.\<close>

lemma mp_entry_correct:
  assumes "holds st 0x9fc00 pre" "guest_ok st 0x9fc00 m" "length pre + length bs \<le> m" "m \<le> 0x10000"
    and "bs \<noteq> []"
  shows "\<exists>st'. mp_entry bs (st, length pre, c) = Some (st', length (pre @ bs), c + sum_list bs) \<and>
    holds st' 0x9fc00 (pre @ bs) \<and> frame st (0x9fc00 + length pre, length bs) st'"
proof -
  let ?a = "0x9fc00 + length pre"
  have a: "unat (MPTABLE_START + of_nat (length pre)) = ?a" using assms(3,4) by (simp add: unat_mptable)
  have ok: "guest_ok st ?a (length bs)" "guest_ok st 0x9fc00 (length pre + length bs)"
    using guest.ok_sub [OF assms(2)] assms(3) by auto
  obtain n where n: "length bs = Suc n" using assms(5) by (cases bs) auto
  obtain p where p: "get_userspace_addr st (MPTABLE_START + of_nat (length pre)) = Some p"
    "points st (unat p) ?a (length bs)"
    using get_userspace_addr_points [of st "MPTABLE_START + of_nat (length pre)" n] ok(1) a n by auto
  obtain st' where st': "g_wr st ?a bs = Some st'" using guest.wr_total [OF ok(1)] by blast
  note fr = g_wr_frame [OF ok(1) st']
  have "ptr_store st (unat p) bs = Some st'" using points_store [OF p(2), of 0 bs] st' by simp
  moreover have new: "g_rd st' ?a (length bs) = Some bs" by (rule guest.rd_wr_same [OF ok(1) st'])
  moreover have "ptr_load st' (unat p) (length bs) = Some bs"
    using points_load [OF frame_points [OF fr p(2)], of 0 "length bs"] new by simp
  ultimately have "mp_entry bs (st, length pre, c) = Some (st', length (pre @ bs), c + sum_list bs)"
    using p(1) by (simp add: mp_entry_def mptable_checksum_eq)
  moreover have "holds st' 0x9fc00 pre" by (rule frame_holds [OF fr assms(1)]) (simp add: apart_def)
  then have "holds st' 0x9fc00 (pre @ bs)"
    using new frame_guest_ok [OF fr] ok by (intro holds_append) (auto simp: holds_def)
  ultimately show ?thesis using fr by blast
qed

lemma mp_put_correct:
  "holds st 0x9fc00 pre \<Longrightarrow> guest_ok st 0x9fc00 m \<Longrightarrow> length pre + length (concat bss) \<le> m \<Longrightarrow>
   m \<le> 0x10000 \<Longrightarrow> [] \<notin> set bss \<Longrightarrow>
   \<exists>st'. mp_put bss (st, length pre, c) = Some (st', length (pre @ concat bss), c + sum_list (concat bss)) \<and>
     holds st' 0x9fc00 (pre @ concat bss) \<and> frame st (0x9fc00, m) st'"
proof (induction bss arbitrary: st pre c)
  case (Cons bs bss)
  obtain t where t: "mp_entry bs (st, length pre, c) = Some (t, length (pre @ bs), c + sum_list bs)"
    "holds t 0x9fc00 (pre @ bs)" "frame st (0x9fc00 + length pre, length bs) t"
    using mp_entry_correct [OF Cons.prems(1,2), of bs c] Cons.prems(3-5) by auto
  have fr: "frame st (0x9fc00, m) t" by (rule frame_mono [OF t(3)]) (use Cons.prems(3) in auto)
  obtain st' where "mp_put bss (t, length (pre @ bs), c + sum_list bs) =
      Some (st', length ((pre @ bs) @ concat bss), (c + sum_list bs) + sum_list (concat bss))"
    "holds st' 0x9fc00 ((pre @ bs) @ concat bss)" "frame t (0x9fc00, m) st'"
    using Cons.IH [OF t(2), of "c + sum_list bs"] frame_guest_ok [OF fr Cons.prems(2)] Cons.prems(3-5) by auto
  then show ?case using t(1) frame_trans [OF fr] by (auto simp: add.assoc)
qed simp

text \<open>The final step of both structures: subtracting what their bytes and the entries add up to
  from the checksum byte.\<close>

lemma sum_list_upd:
  "k < length xs \<Longrightarrow> sum_list (xs[k := v]) = sum_list xs - xs ! k + (v :: u8)"
  by (simp add: upd_conv_take_nth_drop) (subst (3) id_take_nth_drop, assumption, simp)

lemma fix_checksum:
  assumes "points st p a (length xs)" "holds st a xs" "k < length xs"
  shows "\<exists>st'. do { sum \<leftarrow> mptable_checksum st p (length xs);
        old \<leftarrow> ptr_load st (p + k) 1;
        ptr_store st (p + k) [hd old - (c + word_of_int sum)] } = Some st' \<and>
     holds st' a (xs[k := xs ! k - (c + sum_list xs)]) \<and> frame st (a + k, 1) st'"
proof -
  have "ptr_load st p (length xs) = Some xs"
    using points_load [OF assms(1), of 0 "length xs"] assms(2) by (simp add: holds_def)
  moreover have "ptr_load st (p + k) 1 = Some [xs ! k]"
    using points_load [OF assms(1), of k 1] holds_sub [OF assms(2), of k 1] assms(3)
    by (simp add: holds_def take_Suc hd_drop_conv_nth)
  moreover obtain st' where "ptr_store st (p + k) [xs ! k - (c + sum_list xs)] = Some st'"
    "frame st (a + k, 1) st'"
    "holds st' a (take k xs @ [xs ! k - (c + sum_list xs)] @ drop (k + 1) xs)"
    using points_write [OF assms(1) _ assms(2), of k "[xs ! k - (c + sum_list xs)]"] assms(3) by auto
  ultimately show ?thesis
    using assms(3) by (auto simp: mptable_checksum_eq upd_conv_take_nth_drop)
qed

lemma fix_checksum_sum:
  "k < length xs \<Longrightarrow> sum_list (xs[k := xs ! k - (c + sum_list xs)]) = - (c :: u8)"
  by (simp add: sum_list_upd)

definition mpf_image :: bytes where
  "mpf_image = [0x5F, 0x4D, 0x50, 0x5F, 0x10, 0xFC, 9, 0, 1, 4, 0x8B, 0, 0, 0, 0, 0]"

lemma setup_mpf_correct:
  assumes "guest_ok st 0x9fc00 16"
  shows "\<exists>st'. setup_mpf st = Some st' \<and> holds st' 0x9fc00 mpf_image \<and> frame st (0x9fc00, 16) st'"
proof -
  define xs :: bytes where "xs = [0x5F, 0x4D, 0x50, 0x5F, 0x10, 0xFC, 9, 0, 1, 4, 0, 0, 0, 0, 0, 0]"
  have len: "length xs = 16" by (simp add: xs_def)
  have a: "unat MPTABLE_START = 0x9fc00" by (simp add: const_simps)
  obtain p where p: "get_userspace_addr st MPTABLE_START = Some p" "points st (unat p) 0x9fc00 16"
    using get_userspace_addr_points [of st MPTABLE_START 15] assms a by auto
  obtain t where t: "g_wr st 0x9fc00 xs = Some t" using guest.wr_total [of st "0x9fc00" xs] assms len by auto
  have fr: "frame st (0x9fc00, 16) t" using g_wr_frame [OF _ t] assms len by simp
  have h: "holds t 0x9fc00 xs"
    using guest.rd_wr_same [OF _ t] frame_guest_ok [OF fr assms] assms len by (simp add: holds_def)
  have "mpf_bytes \<lparr>mpf_signature = c_chars ''_MP_'', mpf_physptr = ucast (MPTABLE_START + 16), mpf_length = 1,
      mpf_specification = 4, mpf_checksum = 0, mpf_feature1 = 0, mpf_feature2 = 0,
      mpf_feature3 = 0, mpf_feature4 = 0, mpf_feature5 = 0\<rparr> = xs"
    by (simp add: xs_def mpf_bytes_def c_chars_def const_simps layout_simps)
  moreover have "ptr_store st (unat p) xs = Some t" using points_store [OF p(2), of 0 xs] t len by simp
  moreover obtain st' where st': "do { sum \<leftarrow> mptable_checksum t (unat p) (length xs);
        old \<leftarrow> ptr_load t (unat p + 10) 1;
        ptr_store t (unat p + 10) [hd old - (0 + word_of_int sum)] } = Some st'"
     "holds st' 0x9fc00 (xs[10 := xs ! 10 - (0 + sum_list xs)])" "frame t (0x9fc00 + 10, 1) st'"
    using fix_checksum [of t "unat p" "0x9fc00" xs 10 0] frame_points [OF fr p(2)] h len by auto
  ultimately have "setup_mpf st = Some st'" using p(1) len by (simp add: setup_mpf_def)
  moreover have "xs[10 := xs ! 10 - (0 + sum_list xs)] = mpf_image" by (simp add: mpf_image_def xs_def)
  ultimately show ?thesis
    using st'(2) frame_trans [OF fr frame_mono [OF st'(3)]] by auto
qed

lemma length_table_bytes: "length (table_bytes mp_table) = 44"
  by (simp add: table_bytes_def mp_table_def mp_consts)

lemma entry_lengths [simp]:
  "length (cpu_bytes x) = 20" "length (bus_bytes mp_bus) = 8" "length (ioapic_bytes y) = 8"
  "length (intsrc_bytes z) = 8" "length (lintsrc_bytes w) = 8"
  by (simp_all add: cpu_bytes_def bus_bytes_def ioapic_bytes_def intsrc_bytes_def lintsrc_bytes_def
      mp_bus_def mp_consts)

lemma length_mp_entries: "length (concat (mp_entries (int n))) = 20 * n + 160"
  by (simp add: mp_entries_def length_concat comp_def sum_list_triv)

lemma mp_entries_nonempty: "[] \<notin> set (mp_entries n)"
  by (auto simp: mp_entries_def dest!: arg_cong [of _ _ length])

section \<open>Reading the entries back\<close>

definition parses_as :: "bytes \<Rightarrow> mp_item \<Rightarrow> bool" where
  "parses_as bs x \<longleftrightarrow> bs \<noteq> [] \<and> (\<forall>rest. mp_item_of (bs @ rest) = Some (x, length bs))"

lemma mp_parse_concat: "list_all2 parses_as bss xs \<Longrightarrow> mp_parse (concat bss) = Some xs"
proof (induction rule: list_all2_induct)
  case Nil
  show ?case by (simp add: mp_parse.simps)
next
  case (Cons bs bss x xs)
  then show ?case by (subst mp_parse.simps) (simp add: parses_as_def)
qed

lemma parses_cpu: "parses_as (cpu_bytes (mp_cpu i)) (MP_cpu (of_nat i) 0x14 (if i = 0 then 3 else 1) 0x600 0x201)"
  by (simp add: parses_as_def mp_item_of_def cpu_bytes_def mp_cpu_def mp_consts layout_simps)

lemma parses_bus: "parses_as (bus_bytes mp_bus) (MP_bus 0 (c_chars ''ISAISA''))"
  by (simp add: parses_as_def mp_item_of_def bus_bytes_def mp_bus_def mp_consts)

lemma parses_ioapic: "parses_as (ioapic_bytes (mp_ioapic n)) (MP_ioapic (word_of_int (n + 1)) 0x14 1 0xfec00000)"
  by (simp add: parses_as_def mp_item_of_def ioapic_bytes_def mp_ioapic_def mp_consts layout_simps const_simps)

lemma parses_intsrc:
  "parses_as (intsrc_bytes (mp_intsrc n i)) (MP_int 0 0 0 (of_nat i) (word_of_int (n + 1)) (of_nat i))"
  by (simp add: parses_as_def mp_item_of_def intsrc_bytes_def mp_intsrc_def mp_consts layout_simps
      del: le_bytes_zero)

lemma parses_lints:
  "parses_as (lintsrc_bytes (mp_lint_ext n)) (MP_lint 3 0 0 0 (word_of_int (n + 1)) 0)"
  "parses_as (lintsrc_bytes mp_lint_nmi) (MP_lint 1 0 0 0 0xFF 1)"
  by (simp_all add: parses_as_def mp_item_of_def lintsrc_bytes_def mp_lint_ext_def mp_lint_nmi_def
      mp_consts layout_simps del: le_bytes_zero)

lemmas parses = parses_cpu parses_bus parses_ioapic parses_intsrc parses_lints

lemma mp_parse_entries: "mp_parse (concat (mp_entries (int n))) = Some (mp_items n)"
proof (rule mp_parse_concat)
  have "parses_as (intsrc_bytes (mp_intsrc (int n) i)) (MP_int 0 0 0 (of_nat i) (of_nat n + 1) (of_nat i))" for i
    using parses_intsrc [of "int n" i] by simp
  then show "list_all2 parses_as (mp_entries (int n)) (mp_items n)"
    unfolding mp_entries_def mp_items_def
    using parses_ioapic [of "int n"] parses_lints(1) [of "int n"]
    by (intro list_all2_appendI) (simp_all add: list.rel_map list_all2_same parses add.commute)
qed

section \<open>Properties\<close>

definition table_image :: "nat \<Rightarrow> bytes" where
  "table_image n =
     (let t = table_bytes (mp_table\<lparr>mpc_length := of_nat (20 * n + 204)\<rparr>);
          c = sum_list (concat (mp_entries (int n)))
      in t[7 := t ! 7 - (c + sum_list t)])"

lemma table_length_patch:
  "take 4 (table_bytes mp_table) @ le_bytes 2 w @ drop 6 (table_bytes mp_table) =
     table_bytes (mp_table\<lparr>mpc_length := w\<rparr>)"
  by (simp add: table_bytes_def mp_table_def mp_consts)

lemma length_table_image: "length (table_image n) = 44"
  by (simp add: table_image_def Let_def table_bytes_def mp_table_def mp_consts)

lemma sum_table_image: "sum_list (table_image n) + sum_list (concat (mp_entries (int n))) = 0"
  unfolding table_image_def Let_def
  by (subst fix_checksum_sum) (simp_all add: table_bytes_def mp_table_def mp_consts)

lemma table_image_fields:
  "take 4 (table_image n) = c_chars ''PCMP''"
  "of_le (take 2 (drop 4 (table_image n))) = (of_nat (20 * n + 204) :: u16)"
  "of_le (take 4 (drop 36 (table_image n))) = (0xfee00000 :: u32)"
proof -
  have "take 4 (table_image n) = take 4 (table_bytes (mp_table\<lparr>mpc_length := of_nat (20 * n + 204)\<rparr>))"
    "take 2 (drop 4 (table_image n)) =
      take 2 (drop 4 (table_bytes (mp_table\<lparr>mpc_length := of_nat (20 * n + 204)\<rparr>)))"
    "drop 36 (table_image n) = drop 36 (table_bytes (mp_table\<lparr>mpc_length := of_nat (20 * n + 204)\<rparr>))"
    by (simp_all add: table_image_def Let_def drop_update_swap)
  then show "take 4 (table_image n) = c_chars ''PCMP''"
    "of_le (take 2 (drop 4 (table_image n))) = (of_nat (20 * n + 204) :: u16)"
    "of_le (take 4 (drop 36 (table_image n))) = (0xfee00000 :: u32)"
    by (simp_all add: table_bytes_def mp_table_def mp_consts const_simps)
qed

lemma length_mpf_image: "length mpf_image = 16"
  by (simp add: mpf_image_def)

text \<open>The floating pointer and the table header, before the entries.\<close>

lemma mp_header_correct:
  assumes "guest_ok st 0x9fc00 m" "60 \<le> m"
  shows "\<exists>s1 p s2. setup_mpf st = Some s1 \<and> get_userspace_addr s1 (MPTABLE_START + 16) = Some p \<and>
    ptr_store s1 (unat p) (table_bytes mp_table) = Some s2 \<and> points s2 (unat p) 0x9fc10 44 \<and>
    holds s2 0x9fc00 (mpf_image @ table_bytes mp_table) \<and> frame st (0x9fc00, m) s2"
proof -
  let ?t = "table_bytes mp_table"
  have sub: "guest_ok s b k" if "guest_ok s 0x9fc00 m" "0x9fc00 \<le> b" "b + k \<le> 0x9fc00 + m" for s b k
    using guest.ok_sub [OF that] .
  obtain s1 where s1: "setup_mpf st = Some s1" "holds s1 0x9fc00 mpf_image" "frame st (0x9fc00, 16) s1"
    using setup_mpf_correct [of st] sub [OF assms(1)] assms(2) by auto
  have f1: "frame st (0x9fc00, m) s1" by (rule frame_mono [OF s1(3)]) (use assms(2) in auto)
  note ok1 = frame_guest_ok [OF f1 assms(1)]
  obtain p where p: "get_userspace_addr s1 (MPTABLE_START + 16) = Some p" "points s1 (unat p) 0x9fc10 44"
    using get_userspace_addr_points [of s1 "MPTABLE_START + 16" 43] sub [OF ok1, of "0x9fc10" 44] assms(2)
    by (auto simp: const_simps)
  obtain s2 where s2: "g_wr s1 0x9fc10 ?t = Some s2"
    using guest.wr_total [OF sub [OF ok1]] length_table_bytes assms(2) by fastforce
  have fr2: "frame s1 (0x9fc10, 44) s2"
    using g_wr_frame [OF _ s2] sub [OF ok1] length_table_bytes assms(2) by simp
  have f2: "frame s1 (0x9fc00, m) s2" by (rule frame_mono [OF fr2]) (use assms(2) in auto)
  note ok2 = frame_guest_ok [OF f2 ok1]
  have st2: "ptr_store s1 (unat p) ?t = Some s2"
    using points_store [OF p(2), of 0 ?t] s2 length_table_bytes by simp
  have "holds s2 0x9fc10 ?t" "holds s2 0x9fc00 mpf_image"
    using guest.rd_wr_same [OF _ s2] sub [OF ok1] sub [OF ok2] length_table_bytes
      frame_holds [OF fr2 s1(2)] assms(2) by (simp_all add: holds_def apart_def length_mpf_image)
  then have h2: "holds s2 0x9fc00 (mpf_image @ ?t)"
    using sub [OF ok2] assms(2) by (intro holds_append) (auto simp: length_mpf_image length_table_bytes)
  show ?thesis
    using s1(1) p(1) st2 frame_points [OF f2 p(2)] h2 frame_trans [OF f1 f2] by blast
qed

lemma setup_mptable_correct:
  assumes "guest_ok st 0x9fc00 (20 * n + 220)" "n \<le> 1000"
  shows "\<exists>st'. setup_mptable st (int n) = Some st' \<and>
    holds st' 0x9fc00 (mpf_image @ table_image n @ concat (mp_entries (int n))) \<and>
    frame st (0x9fc00, 20 * n + 220) st'"
proof -
  let ?m = "20 * n + 220" and ?t = "table_bytes mp_table" and ?e = "concat (mp_entries (int n))"
  have sub: "guest_ok s b k" if "guest_ok s 0x9fc00 ?m" "0x9fc00 \<le> b" "b + k \<le> 0x9fc00 + ?m" for s b k
    using guest.ok_sub [OF that] .
  obtain s1 p s2 where s2: "setup_mpf st = Some s1" "get_userspace_addr s1 (MPTABLE_START + 16) = Some p"
    "ptr_store s1 (unat p) ?t = Some s2" "points s2 (unat p) 0x9fc10 44"
    "holds s2 0x9fc00 (mpf_image @ ?t)" "frame st (0x9fc00, ?m) s2"
    using mp_header_correct [OF assms(1)] by auto
  note ok2 = frame_guest_ok [OF s2(6) assms(1)]
  obtain s3 where s3: "mp_put (mp_entries (int n)) (s2, 60, 0) = Some (s3, ?m, sum_list ?e)"
    "holds s3 0x9fc00 ((mpf_image @ ?t) @ ?e)" "frame s2 (0x9fc00, ?m) s3"
    using mp_put_correct [OF s2(5) ok2, of "mp_entries (int n)" 0] assms(2)
    by (auto simp: length_mpf_image length_table_bytes length_mp_entries mp_entries_nonempty)
  let ?w = "of_nat (20 * n + 204) :: u16"
  let ?t' = "table_bytes (mp_table\<lparr>mpc_length := ?w\<rparr>)"
  have tlen: "length ?t' = 44" by (simp add: table_bytes_def mp_table_def mp_consts)
  have p3: "points s3 (unat p) 0x9fc10 44" by (rule frame_points [OF s3(3) s2(4)])
  have h3: "holds s3 0x9fc10 ?t"
    using holds_sub [OF s3(2), of 16 44] by (simp add: length_mpf_image length_table_bytes)
  obtain s4 where s4: "ptr_store s3 (unat p + 4) (le_bytes 2 ?w) = Some s4"
    "frame s3 (0x9fc14, 2) s4" "holds s4 0x9fc10 ?t'"
    using points_write [OF p3 _ h3, of 4 "le_bytes 2 ?w"] by (auto simp: length_table_bytes table_length_patch)
  have p4: "points s4 (unat p) 0x9fc10 (length ?t')" using frame_points [OF s4(2) p3] tlen by simp
  obtain s5 where s5: "do { sum \<leftarrow> mptable_checksum s4 (unat p) 44;
          old \<leftarrow> ptr_load s4 (unat p + 7) 1;
          ptr_store s4 (unat p + 7) [hd old - (sum_list ?e + word_of_int sum)] } = Some s5"
    "holds s5 0x9fc10 (table_image n)" "frame s4 (0x9fc17, 1) s5"
    using fix_checksum [OF p4 s4(3), of 7 "sum_list ?e"] tlen by (auto simp: table_image_def Let_def)
  have "setup_mptable st (int n) = Some s5"
    using s2(1-3) s3(1) s4(1) s5(1) by (simp add: setup_mptable_put add.commute)
  moreover have f45: "frame s3 (0x9fc10, 44) s5"
    by (rule frame_trans [OF frame_mono [OF s4(2)] frame_mono [OF s5(3)]]) auto
  moreover have "holds s3 0x9fc00 mpf_image" "holds s3 0x9fc3c ?e"
    using holds_sub [OF s3(2), of 0 16] holds_sub [OF s3(2), of 60 "length ?e"]
    by (simp_all add: length_mpf_image length_table_bytes length_mp_entries)
  then have "holds s5 0x9fc00 mpf_image" "holds s5 0x9fc3c ?e"
    by (auto intro!: frame_holds [OF f45] simp: apart_def length_mpf_image)
  moreover have f: "frame st (0x9fc00, ?m) s5"
    by (rule frame_trans [OF s2(6) frame_trans [OF s3(3) frame_mono [OF f45]]]) auto
  note ok5 = frame_guest_ok [OF f assms(1)]
  ultimately show ?thesis
    using s5(2) sub [OF ok5] f
    by (intro exI [of _ s5] conjI holds_append)
      (auto simp: length_mpf_image length_table_image length_mp_entries)
qed

text \<open>Property C8. With accessible memory from \<open>MPTABLE_START\<close> on for \<open>n\<close> processors, \<open>setup_mptable\<close>
  succeeds and leaves what the MP specification asks for: a floating pointer whose bytes add up
  to zero and which points to the table; a table whose bytes, over the length in its header, add
  up to zero; and entries that parse as the \<open>n\<close> processors (the first one the boot processor),
  the ISA bus, the I/O APIC with its sixteen interrupt lines and the two local interrupts.
  Nothing outside the tables changes, and for up to 40 processors they stay below the VGA memory.\<close>

theorem setup_mptable_parses:
  assumes "guest_ok st 0x9fc00 (20 * n + 220)" "n \<le> 1000"
  shows "\<exists>st' f t e. setup_mptable st (int n) = Some st' \<and>
    guest_load st' MPTABLE_START 16 = Some f \<and> take 4 f = c_chars ''_MP_'' \<and> sum_list f = 0 \<and>
    guest_load st' (ucast (of_le (take 4 (drop 4 f)) :: u32)) (20 * n + 204) = Some (t @ e) \<and>
    length t = 44 \<and> take 4 t = c_chars ''PCMP'' \<and> unat (of_le (take 2 (drop 4 t)) :: u16) = 20 * n + 204 \<and>
    of_le (take 4 (drop 36 t)) = (ucast APIC_DEFAULT_PHYS_BASE :: u32) \<and>
    sum_list (t @ e) = 0 \<and> mp_parse e = Some (mp_items n) \<and>
    frame st (0x9fc00, 20 * n + 220) st' \<and>
    (n \<le> 40 \<longrightarrow> unat MPTABLE_START + (20 * n + 220) \<le> unat VGA_RAM_START)"
proof -
  let ?e = "concat (mp_entries (int n))"
  obtain st' where st': "setup_mptable st (int n) = Some st'"
    "holds st' 0x9fc00 (mpf_image @ table_image n @ ?e)" "frame st (0x9fc00, 20 * n + 220) st'"
    using setup_mptable_correct [OF assms] by blast
  have f: "of_le (take 4 (drop 4 mpf_image)) = (0x9fc10 :: u32)" "take 4 mpf_image = c_chars ''_MP_''"
    "sum_list mpf_image = 0" by (simp_all add: mpf_image_def c_chars_def)
  have "holds st' 0x9fc00 mpf_image" "holds st' 0x9fc10 (table_image n @ ?e)"
    using holds_sub [OF st'(2), of 0 16] holds_sub [OF st'(2), of 16 "20 * n + 204"]
    by (simp_all add: length_mpf_image length_table_image length_mp_entries)
  then have "g_rd st' 0x9fc00 16 = Some mpf_image" "g_rd st' 0x9fc10 (20 * n + 204) = Some (table_image n @ ?e)"
    by (simp_all add: holds_def length_mpf_image length_table_image length_mp_entries add.commute)
  then have rd: "guest_load st' MPTABLE_START 16 = Some mpf_image"
    "guest_load st' (ucast (0x9fc10 :: u32)) (20 * n + 204) = Some (table_image n @ ?e)"
    by (simp_all add: guest_load_g_rd const_simps)
  have len: "unat (of_nat (20 * n + 204) :: u16) = 20 * n + 204"
    using assms(2) by (subst unat_of_nat) simp
  have vga: "unat MPTABLE_START = 0x9fc00" "unat VGA_RAM_START = 0xa0000"
    "(ucast APIC_DEFAULT_PHYS_BASE :: u32) = 0xfee00000" by (simp_all add: const_simps)
  show ?thesis
    by (intro exI [of _ st'] exI [of _ mpf_image] exI [of _ "table_image n"] exI [of _ ?e] conjI;
        (unfold f table_image_fields sum_list_append sum_table_image mp_parse_entries len vga length_table_image)?)
      (use st'(1,3) rd in simp_all)
qed

theorem setup_mptable_parses_witness:
  "\<exists>st' e. setup_mptable sample_memory 1 = Some st' \<and> mp_parse e = Some (mp_items 1) \<and>
     frame sample_memory (0x9fc00, 240) st'"
  using setup_mptable_parses [of sample_memory 1] by auto

end
