(* ===== verification/Bootparams.thy ===== *)
theory Bootparams
  imports Memory
begin

text \<open>
  \<open>src/bootparams.c\<close> and the structures of \<open>src/bootparams.h\<close>: the kernel and the initial
  RAM disk are copied into guest memory, and the zero page describes them and the memory map to
  the guest. The packed structures are tables of members and sizes from which \<open>offsetof\<close> and
  \<open>sizeof\<close> are computed, so that an assignment to a member is a store at its offset. Files are
  a parameter: the contents of a path, or nothing when \<open>fopen\<close> fails, upon which the program
  exits.
\<close>

section \<open>Structure layouts\<close>

type_synonym layout = "(string \<times> nat) list"

primrec offsetof_from :: "nat \<Rightarrow> layout \<Rightarrow> string \<Rightarrow> nat option" where
  "offsetof_from k [] f = None"
| "offsetof_from k (m # ms) f = (if fst m = f then Some k else offsetof_from (k + snd m) ms f)"

definition offsetof :: "layout \<Rightarrow> string \<Rightarrow> nat option" where
  "offsetof l f = offsetof_from 0 l f"

definition sizeof :: "layout \<Rightarrow> nat" where
  "sizeof l = sum_list (map snd l)"

definition setup_header :: layout where
  "setup_header =
     [(''setup_sects'', 1), (''root_flags'', 2), (''syssize'', 4), (''ram_size'', 2), (''vid_mode'', 2),
      (''root_dev'', 2), (''boot_flag'', 2), (''jump'', 2), (''header'', 4), (''version'', 2),
      (''realmode_swtch'', 4), (''start_sys_seg'', 2), (''kernel_version'', 2), (''type_of_loader'', 1),
      (''loadflags'', 1), (''setup_move_size'', 2), (''code32_start'', 4), (''ramdisk_image'', 4),
      (''ramdisk_size'', 4), (''bootsect_kludge'', 4), (''heap_end_ptr'', 2), (''ext_loader_ver'', 1),
      (''ext_loader_type'', 1), (''cmd_line_ptr'', 4), (''initrd_addr_max'', 4), (''kernel_alignment'', 4),
      (''relocatable_kernel'', 1), (''min_alignment'', 1), (''xloadflags'', 2), (''cmdline_size'', 4),
      (''hardware_subarch'', 4), (''hardware_subarch_data'', 8), (''payload_offset'', 4),
      (''payload_length'', 4), (''setup_data'', 8), (''pref_address'', 8), (''init_size'', 4),
      (''handover_offset'', 4), (''kernel_info_offset'', 4)]"

definition E820_MAX_ENTRIES_ZEROPAGE :: nat where "E820_MAX_ENTRIES_ZEROPAGE = 0x80"
definition E820_RAM :: u32 where "E820_RAM = 1"
definition E820_RESERVED :: u32 where "E820_RESERVED = 2"

record boot_e820_entry =
  e_addr :: u64
  e_size :: u64
  e_type :: u32

definition e820_bytes :: "boot_e820_entry \<Rightarrow> bytes" where
  "e820_bytes e = le_bytes 8 (e_addr e) @ le_bytes 8 (e_size e) @ le_bytes 4 (e_type e)"

definition boot_params :: layout where
  "boot_params =
     [(''_pad_screen_info'', 0x40), (''_pad_apm_bios_info'', 0x14), (''_pad2'', 4), (''tboot_addr'', 8),
      (''_pad_ist_info'', 0x10), (''acpi_rsdp_addr'', 8), (''_pad3'', 8), (''hd0_info'', 0x10),
      (''hd1_info'', 0x10), (''_pad_sys_desc_table'', 0x10), (''_pad_olpc_ofw_header'', 0x10),
      (''ext_ramdisk_image'', 4), (''ext_ramdisk_size'', 4), (''ext_cmd_line_ptr'', 4), (''_pad4'', 0x74),
      (''_pad_edid_info'', 0x80), (''_pad_efi_info'', 0x20), (''alt_mem_k'', 4), (''scratch'', 4),
      (''e820_entries'', 1), (''eddbuf_entries'', 1), (''edd_mbr_sig_buf_entries'', 1), (''kbd_status'', 1),
      (''secure_boot'', 1), (''_pad5'', 2), (''sentinel'', 1), (''_pad6'', 1),
      (''hdr'', sizeof setup_header), (''_pad7'', 0x290 - 0x1f1 - sizeof setup_header),
      (''_pad_edd_mbr_sig_buffer'', 0x40), (''e820_table'', 20 * E820_MAX_ENTRIES_ZEROPAGE),
      (''_pad8'', 0x30), (''_pad_edd_info'', 0x1ec), (''_pad9'', 276)]"

text \<open>Assignments to a member of the structure at \<open>p\<close>, to \<open>hdr\<close> and to an element of
  \<open>e820_table\<close>.\<close>

definition put_field :: "memory \<Rightarrow> nat \<Rightarrow> string \<Rightarrow> bytes \<Rightarrow> memory option" where
  "put_field st p f bs = do { k \<leftarrow> offsetof boot_params f; ptr_store st (p + k) bs }"

definition put_hdr :: "memory \<Rightarrow> nat \<Rightarrow> string \<Rightarrow> bytes \<Rightarrow> memory option" where
  "put_hdr st p f bs =
     do { h \<leftarrow> offsetof boot_params ''hdr''; k \<leftarrow> offsetof setup_header f; ptr_store st (p + h + k) bs }"

definition put_e820 :: "memory \<Rightarrow> nat \<Rightarrow> nat \<Rightarrow> boot_e820_entry \<Rightarrow> memory option" where
  "put_e820 st p i e = do { k \<leftarrow> offsetof boot_params ''e820_table''; ptr_store st (p + k + 20 * i) (e820_bytes e) }"

section \<open>Operations\<close>

definition BOOT_FLAG :: u16 where "BOOT_FLAG = 0xAA55"
definition HDRS :: u32 where "HDRS = 0x53726448"
definition UNDEFINED_ID :: u8 where "UNDEFINED_ID = 0xFF"

definition CMDLINE :: bytes where
  "CMDLINE = map of_char ''console=ttyS0 pci=conf1 panic=1 reboot=k root=/dev/ram rdinit=/bin/sh''"

record boot_state =
  b_mem :: memory
  InitrdSize :: u64
  InitrdAddr :: u64

type_synonym files = "string \<Rightarrow> bytes option"

text \<open>\<open>ftell\<close> returns a \<open>long\<close>, which the result type \<open>int\<close> cuts to 32 bits.\<close>

definition file_len :: "bytes \<Rightarrow> int" where
  "file_len fp = sint (of_nat (length fp) :: u32)"

text \<open>\<open>fread (ptr, size, 1, fp)\<close> from the start of a file.\<close>

definition fread_one :: "memory \<Rightarrow> nat \<Rightarrow> u64 \<Rightarrow> bytes \<Rightarrow> memory option" where
  "fread_one st p n fp = ptr_store st p (take (unat n) fp)"

text \<open>\<open>Inl\<close> is the exit code of a call of \<open>exit\<close>.\<close>

definition load_initrd :: "files \<Rightarrow> string \<Rightarrow> boot_state \<Rightarrow> (int + boot_state) option" where
  "load_initrd fs initrd_path b =
     (case fs initrd_path of
        None \<Rightarrow> Some (Inl 0)
      | Some fp \<Rightarrow>
          let isize = word_of_int (file_len fp);
              initrd_addr_max = (if INITRD_ADDR_MAX > get_ram_end (b_mem b) then get_ram_end (b_mem b)
                                 else INITRD_ADDR_MAX);
              addr = (initrd_addr_max - isize) AND NOT 0xfff
          in do { p \<leftarrow> get_userspace_addr (b_mem b) addr;
                  st \<leftarrow> fread_one (b_mem b) (unat p) isize fp;
                  Some (Inr \<lparr>b_mem = st, InitrdSize = isize, InitrdAddr = addr\<rparr>) })"

definition load_kernel :: "files \<Rightarrow> string \<Rightarrow> boot_state \<Rightarrow> (int + boot_state) option" where
  "load_kernel fs vmlinux_path b =
     (case fs vmlinux_path of
        None \<Rightarrow> Some (Inl 0)
      | Some fp \<Rightarrow>
          let len = file_len fp
          in do { p \<leftarrow> get_userspace_addr (b_mem b) VMLINUX_START;
                  st \<leftarrow> fread_one (b_mem b) (unat p) (word_of_int len) fp;
                  Some (Inr (b\<lparr>b_mem := st\<rparr>)) })"

definition setup_e820 :: "nat \<Rightarrow> memory \<Rightarrow> memory option" where
  "setup_e820 p st =
     do { st \<leftarrow> put_field st p ''e820_entries'' [0];
          st \<leftarrow> put_e820 st p 0 \<lparr>e_addr = REAL_MODE_IVT_START,
                   e_size = MPTABLE_START - REAL_MODE_IVT_START, e_type = E820_RAM\<rparr>;
          st \<leftarrow> put_e820 st p 1 \<lparr>e_addr = MPTABLE_START,
                   e_size = VGA_RAM_START - MPTABLE_START, e_type = E820_RESERVED\<rparr>;
          st \<leftarrow> put_e820 st p 2 \<lparr>e_addr = MB_BIOS_START, e_size = 0, e_type = E820_RESERVED\<rparr>;
          if get_ram_end st \<le> get_gap_end then do {
            st \<leftarrow> put_e820 st p 3 \<lparr>e_addr = VMLINUX_RAM_START,
                     e_size = get_ram_end st - VMLINUX_RAM_START, e_type = E820_RAM\<rparr>;
            put_field st p ''e820_entries'' [4] }
          else do {
            st \<leftarrow> put_e820 st p 3 \<lparr>e_addr = VMLINUX_RAM_START,
                     e_size = get_gap_start - VMLINUX_RAM_START, e_type = E820_RAM\<rparr>;
            st \<leftarrow> put_e820 st p 4 \<lparr>e_addr = get_gap_end,
                     e_size = get_ram_end st - get_gap_end, e_type = E820_RAM\<rparr>;
            put_field st p ''e820_entries'' [5] } }"

definition setup_header_ramdisk :: "nat \<Rightarrow> boot_state \<Rightarrow> memory option" where
  "setup_header_ramdisk p b =
     do { st \<leftarrow> put_hdr (b_mem b) p ''ramdisk_image'' (le_bytes 4 (ucast (InitrdAddr b) :: u32));
          st \<leftarrow> put_hdr st p ''ramdisk_size'' (le_bytes 4 (ucast (InitrdSize b) :: u32));
          st \<leftarrow> put_hdr st p ''boot_flag'' (le_bytes 2 BOOT_FLAG);
          st \<leftarrow> put_hdr st p ''header'' (le_bytes 4 HDRS);
          st \<leftarrow> put_hdr st p ''type_of_loader'' [UNDEFINED_ID];
          st \<leftarrow> put_hdr st p ''cmd_line_ptr'' (le_bytes 4 (ucast CMDLINE_START :: u32));
          put_hdr st p ''cmdline_size'' (le_bytes 4 (of_nat (length CMDLINE) :: u32)) }"

definition setup_cmdline :: "memory \<Rightarrow> memory option" where
  "setup_cmdline st = write_userspace_memory st CMDLINE CMDLINE_START"

definition setup_boot_params ::
    "files \<Rightarrow> string \<Rightarrow> string \<Rightarrow> boot_state \<Rightarrow> (int + boot_state) option" where
  "setup_boot_params fs vmlinux_path initrd_path b =
     do { p \<leftarrow> get_userspace_addr (b_mem b) ZERO_PAGE_START;
          st \<leftarrow> ptr_store (b_mem b) (unat p) (replicate (sizeof boot_params) 0);
          k \<leftarrow> load_kernel fs vmlinux_path (b\<lparr>b_mem := st\<rparr>);
          case k of Inl c \<Rightarrow> Some (Inl c) | Inr b \<Rightarrow> do {
          i \<leftarrow> load_initrd fs initrd_path b;
          case i of Inl c \<Rightarrow> Some (Inl c) | Inr b \<Rightarrow> do {
          st \<leftarrow> setup_e820 (unat p) (b_mem b);
          st \<leftarrow> setup_header_ramdisk (unat p) (b\<lparr>b_mem := st\<rparr>);
          Some (Inr (b\<lparr>b_mem := st\<rparr>)) } } }"

section \<open>Layout facts\<close>

text \<open>The packed structures have the offsets their comments give and the Linux boot protocol
  fixes: the zero page is one page of 4096 bytes, every commented member of \<open>boot_params\<close> lies
  at its commented offset, and the header members that are set lie where the kernel reads them.\<close>

lemma boot_params_layout:
  "sizeof boot_params = 0x1000 \<and>
   map (offsetof boot_params) [''_pad_apm_bios_info'', ''_pad2'', ''tboot_addr'', ''_pad_ist_info'',
     ''acpi_rsdp_addr'', ''_pad3'', ''hd0_info'', ''hd1_info'', ''_pad_sys_desc_table'',
     ''_pad_olpc_ofw_header'', ''ext_ramdisk_image'', ''ext_ramdisk_size'', ''ext_cmd_line_ptr'', ''_pad4'',
     ''_pad_edid_info'', ''_pad_efi_info'', ''alt_mem_k'', ''scratch'', ''e820_entries'', ''eddbuf_entries'',
     ''edd_mbr_sig_buf_entries'', ''kbd_status'', ''secure_boot'', ''_pad5'', ''sentinel'', ''_pad6'', ''hdr'',
     ''_pad_edd_mbr_sig_buffer'', ''e820_table'', ''_pad8'', ''_pad_edd_info'', ''_pad9''] =
   map Some [0x040, 0x054, 0x058, 0x060, 0x070, 0x078, 0x080, 0x090, 0x0a0, 0x0b0, 0x0c0, 0x0c4, 0x0c8,
     0x0cc, 0x140, 0x1c0, 0x1e0, 0x1e4, 0x1e8, 0x1e9, 0x1ea, 0x1eb, 0x1ec, 0x1ed, 0x1ef, 0x1f0, 0x1f1,
     0x290, 0x2d0, 0xcd0, 0xd00, 0xeec] \<and>
   map (offsetof setup_header) [''boot_flag'', ''header'', ''type_of_loader'', ''ramdisk_image'',
     ''ramdisk_size'', ''cmd_line_ptr'', ''cmdline_size''] =
   map (\<lambda>k. Some (k - 0x1f1)) [0x1fe, 0x202, 0x210, 0x218, 0x21c, 0x228, 0x238]"
  by (intro conjI) code_simp+

lemma offsets:
  "sizeof boot_params = 0x1000"
  "offsetof boot_params ''e820_entries'' = Some 0x1e8" "offsetof boot_params ''hdr'' = Some 0x1f1"
  "offsetof boot_params ''e820_table'' = Some 0x2d0"
  "offsetof setup_header ''boot_flag'' = Some 0x00d" "offsetof setup_header ''header'' = Some 0x011"
  "offsetof setup_header ''type_of_loader'' = Some 0x01f" "offsetof setup_header ''ramdisk_image'' = Some 0x027"
  "offsetof setup_header ''ramdisk_size'' = Some 0x02b" "offsetof setup_header ''cmd_line_ptr'' = Some 0x037"
  "offsetof setup_header ''cmdline_size'' = Some 0x047"
  by code_simp+

section \<open>The memory map\<close>

definition e820_list :: "u64 \<Rightarrow> boot_e820_entry list" where
  "e820_list ram_end =
     [\<lparr>e_addr = 0, e_size = 0x9fc00, e_type = 1\<rparr>, \<lparr>e_addr = 0x9fc00, e_size = 0x400, e_type = 2\<rparr>,
      \<lparr>e_addr = 0xf0000, e_size = 0, e_type = 2\<rparr>] @
     (if ram_end \<le> 0x100000000 then [\<lparr>e_addr = 0x100000, e_size = ram_end - 0x100000, e_type = 1\<rparr>]
      else [\<lparr>e_addr = 0x100000, e_size = 0xbff00000, e_type = 1\<rparr>,
            \<lparr>e_addr = 0x100000000, e_size = ram_end - 0x100000000, e_type = 1\<rparr>])"

text \<open>How the guest reads the map.\<close>

primrec e820_read_entries :: "memory \<Rightarrow> nat \<Rightarrow> nat \<Rightarrow> boot_e820_entry list option" where
  "e820_read_entries st i 0 = Some []"
| "e820_read_entries st i (Suc n) =
     do { bs \<leftarrow> g_rd st (0x72d0 + 20 * i) 20;
          es \<leftarrow> e820_read_entries st (Suc i) n;
          Some (\<lparr>e_addr = of_le (take 8 bs), e_size = of_le (take 8 (drop 8 bs)), e_type = of_le (drop 16 bs)\<rparr> # es) }"

definition e820_read :: "memory \<Rightarrow> boot_e820_entry list option" where
  "e820_read st = do { n \<leftarrow> g_rd st 0x71e8 1; e820_read_entries st 0 (unat (hd n)) }"

lemma length_e820_bytes [simp]: "length (e820_bytes e) = 20"
  by (simp add: e820_bytes_def)

lemma e820_read_entries_eq:
  "(\<And>j. j < length es \<Longrightarrow> holds st (0x72d0 + 20 * (i + j)) (e820_bytes (es ! j))) \<Longrightarrow>
   e820_read_entries st i (length es) = Some es"
proof (induction es arbitrary: i)
  case (Cons e es)
  have "g_rd st (0x72d0 + 20 * i) 20 = Some (e820_bytes e)" using Cons.prems [of 0] by (simp add: holds_def)
  moreover have "e820_read_entries st (Suc i) (length es) = Some es"
    using Cons.IH [of "Suc i"] Cons.prems [of "Suc _"] by simp
  ultimately show ?case by (simp add: e820_bytes_def)
qed simp

definition in_e820 :: "boot_e820_entry \<Rightarrow> nat \<Rightarrow> bool" where
  "in_e820 e a \<longleftrightarrow> unat (e_addr e) \<le> a \<and> a < unat (e_addr e) + unat (e_size e)"

text \<open>What the entries describe.\<close>

lemma e820_list_covers:
  assumes "unat (RamSize st) \<le> 2 ^ 63"
  shows "(0x100000 \<le> unat (RamSize st) \<longrightarrow>
      sorted_wrt (\<lambda>d e. unat (e_addr d) + unat (e_size d) \<le> unat (e_addr e)) (e820_list (get_ram_end st)) \<and>
      (\<forall>a. (\<exists>e\<in>set (e820_list (get_ram_end st)). e_type e = E820_RAM \<and> in_e820 e a) \<longleftrightarrow>
         ram_addr (RamSize st) a \<and> (a < 0x9fc00 \<or> 0x100000 \<le> a))) \<and>
    (unat (RamSize st) < 0x100000 \<longrightarrow>
      (\<exists>e\<in>set (e820_list (get_ram_end st)). e_type e = E820_RAM \<and> in_e820 e (2 ^ 63)))"
proof (cases "RamSize st \<le> 0xC0000000")
  case True
  then have re: "get_ram_end st = RamSize st" "RamSize st \<le> 0x100000000" "unat (RamSize st) \<le> 0xC0000000"
    by (auto simp: get_ram_end_def word_le_nat_alt)
  show ?thesis
  proof (cases "unat (RamSize st) < 0x100000")
    case False
    then have "unat (RamSize st - 0x100000) = unat (RamSize st) - 0x100000"
      by (subst unat_sub) (simp_all add: word_le_nat_alt)
    then show ?thesis using re False True
      by (auto simp: e820_list_def in_e820_def E820_RAM_def ram_addr_def)
  next
    case lt: True
    then have "unat (RamSize st - 0x100000) = unat (RamSize st) + 2 ^ 64 - 0x100000"
      by (simp add: unat_sub_if')
    then show ?thesis using re lt by (auto simp: e820_list_def in_e820_def E820_RAM_def)
  qed
next
  case False
  then have r: "0xC0000000 < unat (RamSize st)" by (simp add: word_le_nat_alt)
  then have sub: "unat (RamSize st - 0xC0000000) = unat (RamSize st) - 0xC0000000"
    by (subst unat_sub) (simp_all add: word_le_nat_alt)
  then have "unat (get_ram_end st) = 0x100000000 + (unat (RamSize st) - 0xC0000000)"
    "get_ram_end st - 0x100000000 = RamSize st - 0xC0000000"
    using False assms r by (simp_all add: get_ram_end_def unat_word_ariths)
  then show ?thesis using r False assms sub
    by (auto simp: e820_list_def in_e820_def E820_RAM_def ram_addr_def word_le_nat_alt)
qed

section \<open>The zero page\<close>

definition e820_writes :: "u64 \<Rightarrow> (nat \<times> bytes) list" where
  "e820_writes ram_end = map (\<lambda>i. (0x2d0 + 20 * i, e820_bytes (e820_list ram_end ! i))) [0..<length (e820_list ram_end)] @
     [(0x1e8, [of_nat (length (e820_list ram_end))])]"

definition hdr_writes :: "u64 \<Rightarrow> u64 \<Rightarrow> (nat \<times> bytes) list" where
  "hdr_writes addr n = [(0x218, le_bytes 4 (ucast addr :: u32)), (0x21c, le_bytes 4 (ucast n :: u32)),
     (0x1fe, le_bytes 2 BOOT_FLAG), (0x202, le_bytes 4 HDRS), (0x210, [UNDEFINED_ID]),
     (0x228, le_bytes 4 (0x20000 :: u32)), (0x238, le_bytes 4 (69 :: u32))]"

lemma length_CMDLINE: "length CMDLINE = 69"
  by (simp add: CMDLINE_def)

lemma ptr_store_ram_end: "ptr_store st p bs = Some st' \<Longrightarrow> get_ram_end st' = get_ram_end st"
  by (auto simp: ptr_store_def get_ram_end_def split: Option.bind_splits)

lemma setup_e820_wr:
  "setup_e820 p st = wr_all ptr_store (shift_wr p ((0x1e8, [0]) # e820_writes (get_ram_end st))) st"
proof -
  have g: "get_gap_end = 0x100000000" "get_gap_start = 0xC0000000"
    by (simp_all add: get_gap_end_def get_gap_start_def)
  show ?thesis
  proof (cases "get_ram_end st \<le> 0x100000000")
    case True
    then show ?thesis
      unfolding setup_e820_def put_field_def put_e820_def offsets e820_writes_def e820_list_def
      by (auto simp: g upt_rec ptr_store_ram_end const_simps E820_RAM_def E820_RESERVED_def add.assoc
          split: Option.bind_split)
  next
    case False
    then show ?thesis
      unfolding setup_e820_def put_field_def put_e820_def offsets e820_writes_def e820_list_def
      by (auto simp: g upt_rec ptr_store_ram_end const_simps E820_RAM_def E820_RESERVED_def add.assoc
          split: Option.bind_split)
  qed
qed

lemma setup_header_ramdisk_wr:
  "setup_header_ramdisk p b = wr_all ptr_store (shift_wr p (hdr_writes (InitrdAddr b) (InitrdSize b))) (b_mem b)"
  unfolding setup_header_ramdisk_def put_hdr_def offsets hdr_writes_def
  by (simp add: add.assoc length_CMDLINE const_simps)

lemma zero_page_apart: "sorted_wrt (\<lambda>v w. apart (extent v) (extent w)) (e820_writes r @ hdr_writes addr n)"
  by (cases "r \<le> 0x100000000") (simp_all add: e820_writes_def hdr_writes_def e820_list_def upt_rec apart_def)

lemma zero_page_inside: "\<forall>w\<in>set (e820_writes r @ hdr_writes addr n). fst w + length (snd w) \<le> 0x1000"
  by (cases "r \<le> 0x100000000") (simp_all add: e820_writes_def hdr_writes_def e820_list_def upt_rec)

lemma e820_read_writes:
  assumes "\<forall>w\<in>set (e820_writes r). holds st (0x7000 + fst w) (snd w)"
  shows "e820_read st = Some (e820_list r)"
proof -
  have "holds st (0x72d0 + 20 * j) (e820_bytes (e820_list r ! j))" if "j < length (e820_list r)" for j
    using assms that by (force simp: e820_writes_def)
  then have "e820_read_entries st 0 (length (e820_list r)) = Some (e820_list r)"
    by (intro e820_read_entries_eq) simp
  moreover have "holds st 0x71e8 [of_nat (length (e820_list r))]" using assms by (auto simp: e820_writes_def)
  moreover have "unat (of_nat (length (e820_list r)) :: u8) = length (e820_list r)" by (simp add: e820_list_def)
  ultimately show ?thesis by (simp add: e820_read_def holds_def)
qed

lemma clear_entries:
  assumes "points st p 0x7000 0x1000"
  shows "\<exists>t. ptr_store st (p + 0x1e8) [0] = Some t \<and> frame st (0x7000, 0x1000) t"
proof -
  obtain t where t: "ptr_store st (p + 0x1e8) [0] = Some t" "frame st (0x7000 + 0x1e8, 1) t"
    using points_store [OF assms, of "0x1e8" "[0]"] guest.wr_total [of st "0x71e8" "[0]"]
      g_wr_frame [of st "0x71e8" "[0]"] guest.ok_sub [OF points_guest_ok [OF assms], of "0x71e8" 1] by auto
  then show ?thesis using frame_mono [OF t(2), of "0x7000" "0x1000"] by auto
qed

lemma setup_e820_correct:
  assumes "points st p 0x7000 0x1000"
  shows "\<exists>st1. setup_e820 p st = Some st1 \<and> frame st (0x7000, 0x1000) st1 \<and> e820_read st1 = Some (e820_list (get_ram_end st))"
proof -
  let ?ws = "e820_writes (get_ram_end st)"
  obtain t where t: "ptr_store st (p + 0x1e8) [0] = Some t" "frame st (0x7000, 0x1000) t" using clear_entries [OF assms] by blast
  have "sorted_wrt (\<lambda>v w. apart (extent v) (extent w)) ?ws" "\<And>w. w \<in> set ?ws \<Longrightarrow> fst w + length (snd w) \<le> 0x1000"
    using zero_page_apart [of "get_ram_end st" 0 0] zero_page_inside [of "get_ram_end st" 0 0] by (auto simp: sorted_wrt_append)
  from points_wr_all_holds [OF frame_points [OF t(2) assms] this] obtain st1 where
    "wr_all ptr_store (shift_wr p ?ws) t = Some st1" "frame t (0x7000, 0x1000) st1" "\<forall>w\<in>set ?ws. holds st1 (0x7000 + fst w) (snd w)"
    by blast
  then show ?thesis using t e820_read_writes frame_trans [OF t(2)] by (simp add: setup_e820_wr)
qed

text \<open>What the last two calls of \<open>setup_boot_params\<close> leave in the zero page.\<close>

lemma zero_page_correct:
  assumes "points st p 0x7000 0x1000"
  shows "\<exists>st1 st2. setup_e820 p st = Some st1 \<and>
    setup_header_ramdisk p \<lparr>b_mem = st1, InitrdSize = n, InitrdAddr = addr\<rparr> = Some st2 \<and>
    frame st (0x7000, 0x1000) st2 \<and> e820_read st2 = Some (e820_list (get_ram_end st)) \<and>
    (\<forall>w\<in>set (hdr_writes addr n). holds st2 (0x7000 + fst w) (snd w))"
proof -
  let ?r = "get_ram_end st"
  let ?ws = "e820_writes ?r @ hdr_writes addr n"
  obtain t where t: "ptr_store st (p + 0x1e8) [0] = Some t" "frame st (0x7000, 0x1000) t" using clear_entries [OF assms] by blast
  note fr = t(2)
  obtain st2 where st2: "wr_all ptr_store (shift_wr p ?ws) t = Some st2" "frame t (0x7000, 0x1000) st2"
    "\<forall>w\<in>set ?ws. holds st2 (0x7000 + fst w) (snd w)"
    using points_wr_all_holds [OF frame_points [OF fr assms] zero_page_apart] zero_page_inside [of ?r addr n] by blast
  then obtain st1 where st1: "wr_all ptr_store (shift_wr p (e820_writes ?r)) t = Some st1"
    "wr_all ptr_store (shift_wr p (hdr_writes addr n)) st1 = Some st2"
    by (auto simp: wr_all_append split: Option.bind_splits)
  have "e820_read st2 = Some (e820_list ?r)" by (rule e820_read_writes) (use st2(3) in simp)
  then show ?thesis
    using st1 st2 t(1) frame_trans [OF fr st2(2)] by (simp add: setup_e820_wr setup_header_ramdisk_wr)
qed

text \<open>Property C9. The memory map that \<open>setup_e820\<close> writes, as the guest reads it back from the zero page: for a guest with
  at least 1 MiB of RAM it is sorted and its ranges do not overlap, and it reports as usable exactly the RAM that
  \<open>init_memory_map\<close> backs, less the area from the MP tables to 1 MiB. With less RAM the size of the
  fourth range wraps around and the map reports memory that does not exist. Nothing outside the zero page changes.\<close>

theorem e820_covers_ram:
  assumes "points st p 0x7000 0x1000" "unat (RamSize st) \<le> 2 ^ 63"
  shows "\<exists>st' es. setup_e820 p st = Some st' \<and> e820_read st' = Some es \<and> frame st (0x7000, 0x1000) st' \<and>
    (0x100000 \<le> unat (RamSize st) \<longrightarrow>
      sorted_wrt (\<lambda>d e. unat (e_addr d) + unat (e_size d) \<le> unat (e_addr e)) es \<and>
      (\<forall>a. (\<exists>e\<in>set es. e_type e = E820_RAM \<and> in_e820 e a) \<longleftrightarrow> ram_addr (RamSize st) a \<and> (a < 0x9fc00 \<or> 0x100000 \<le> a))) \<and>
    (unat (RamSize st) < 0x100000 \<longrightarrow> (\<exists>e\<in>set es. e_type e = E820_RAM \<and> in_e820 e (2 ^ 63)))"
  using setup_e820_correct [OF assms(1)] e820_list_covers [OF assms(2)] by blast

lemma sample_zero_page: "points sample_memory 0x100000007000 0x7000 0x1000"
  using sample_mm_ok unfolding points_def
  by (auto intro!: exI [of _ "0::nat"] simp: sample_memory_def region_covers_def host_addr_def const_simps)

theorem e820_covers_ram_witness:
  "\<exists>st' es. setup_e820 0x100000007000 sample_memory = Some st' \<and> e820_read st' = Some es \<and>
     (\<exists>e\<in>set es. e_type e = E820_RAM \<and> in_e820 e 0x1fffffff) \<and> \<not> (\<exists>e\<in>set es. e_type e = E820_RAM \<and> in_e820 e 0x20000000)"
proof -
  have r: "RamSize sample_memory = 0x20000000" by (simp add: sample_memory_def const_simps)
  obtain st' es where "setup_e820 0x100000007000 sample_memory = Some st'" "e820_read st' = Some es"
    "\<forall>a. (\<exists>e\<in>set es. e_type e = E820_RAM \<and> in_e820 e a) \<longleftrightarrow> ram_addr 0x20000000 a \<and> (a < 0x9fc00 \<or> 0x100000 \<le> a)"
    using e820_covers_ram [OF sample_zero_page] by (auto simp: r)
  moreover have "ram_addr 0x20000000 0x1fffffff" "\<not> ram_addr 0x20000000 0x20000000" by (simp_all add: ram_addr_def)
  ultimately show ?thesis by (intro exI [of _ st'] exI [of _ es]) simp
qed

section \<open>Loading the images\<close>

lemma unat_align:
  fixes x :: u64
  shows "unat (x AND NOT (mask n)) = unat x div 2 ^ n * 2 ^ n"
proof -
  have "x AND NOT (mask n) = push_bit n (drop_bit n x)"
    by (rule bit_eqI) (auto simp: bit_simps)
  also have "\<dots> = x - take_bit n x"
    using bits_ident [of n x] by (metis add_diff_cancel_right')
  finally have "unat (x AND NOT (mask n)) = unat x - take_bit n (unat x)"
    by (simp add: unat_sub word_le_nat_alt unsigned_take_bit_eq take_bit_nat_less_eq_self)
  then show ?thesis by (simp only: take_bit_eq_mod minus_mod_eq_div_mult)
qed

lemma unat_page_align: "unat ((x :: u64) AND NOT 0xfff) = unat x div 4096 * 4096"
  using unat_align [of x 12] by (simp add: mask_eq_exp_minus_1)

lemma file_len_small: "length fp < 2 ^ 31 \<Longrightarrow> file_len fp = int (length fp)"
  by (simp add: file_len_def signed_of_nat signed_take_bit_int_eq_self)

lemma frame_ram_end: "frame st r st' \<Longrightarrow> get_ram_end st' = get_ram_end st"
  by (simp add: frame_def get_ram_end_def ram_keeps_def)

definition initrd_top :: "memory \<Rightarrow> nat" where
  "initrd_top st = min (unat (get_ram_end st)) 0x37ffffff"

lemma fread_holds:
  assumes "points st p a (length fp)" "n = of_nat (length fp)" "length fp < 2 ^ 31"
  shows "\<exists>st'. fread_one st p n fp = Some st' \<and> holds st' a fp \<and> frame st (a, length fp) st'"
proof -
  have "unat n = length fp" using assms(2,3) by (simp add: unat_of_nat)
  moreover obtain st' where st': "g_wr st a fp = Some st'"
    using guest.wr_total [OF points_guest_ok [OF assms(1)]] by blast
  moreover have "holds st' a fp"
    using guest.rd_wr_same [OF points_guest_ok [OF assms(1)] st'] points_guest_ok [OF assms(1)]
      frame_guest_ok [OF g_wr_frame [OF points_guest_ok [OF assms(1)] st']] by (simp add: holds_def)
  ultimately show ?thesis
    using points_store [OF assms(1), of 0 fp] g_wr_frame [OF points_guest_ok [OF assms(1)] st']
    by (simp add: fread_one_def)
qed

lemma load_kernel_correct:
  assumes "fs path = Some fp" "fp \<noteq> []" "length fp < 2 ^ 31" "guest_ok (b_mem b) 0x1000000 (length fp)"
  shows "\<exists>st'. load_kernel fs path b = Some (Inr (b\<lparr>b_mem := st'\<rparr>)) \<and>
    holds st' 0x1000000 fp \<and> frame (b_mem b) (0x1000000, length fp) st'"
proof -
  obtain n where n: "length fp = Suc n" using assms(2) by (cases fp) auto
  obtain p where p: "get_userspace_addr (b_mem b) VMLINUX_START = Some p"
    "points (b_mem b) (unat p) 0x1000000 (length fp)"
    using get_userspace_addr_points [of "b_mem b" VMLINUX_START n] assms(4) n by (auto simp: const_simps)
  obtain st' where "fread_one (b_mem b) (unat p) (word_of_int (file_len fp)) fp = Some st'"
    "holds st' 0x1000000 fp" "frame (b_mem b) (0x1000000, length fp) st'"
    using fread_holds [OF p(2) _ assms(3)] assms(3) by (auto simp: file_len_small)
  then show ?thesis using assms(1) p(1) by (auto simp: load_kernel_def Let_def)
qed

lemma load_initrd_correct:
  assumes "fs path = Some fp" "fp \<noteq> []" "length fp < 2 ^ 31"
    and "guest_ok (b_mem b) 0 (initrd_top (b_mem b))" "length fp \<le> initrd_top (b_mem b)"
  shows "\<exists>st' addr. load_initrd fs path b =
      Some (Inr \<lparr>b_mem = st', InitrdSize = of_nat (length fp), InitrdAddr = addr\<rparr>) \<and>
    unat addr = (initrd_top (b_mem b) - length fp) div 4096 * 4096 \<and>
    holds st' (unat addr) fp \<and> frame (b_mem b) (unat addr, length fp) st'"
proof -
  let ?top = "if INITRD_ADDR_MAX > get_ram_end (b_mem b) then get_ram_end (b_mem b) else INITRD_ADDR_MAX"
  define addr where "addr = (?top - of_nat (length fp)) AND NOT 0xfff"
  have "unat ?top = initrd_top (b_mem b)"
    by (auto simp: initrd_top_def const_simps word_less_nat_alt min_def)
  moreover have "unat (of_nat (length fp) :: u64) = length fp" using assms(3) by (simp add: unat_of_nat)
  ultimately have "unat (?top - of_nat (length fp)) = initrd_top (b_mem b) - length fp"
    using assms(5) by (subst unat_sub) (simp_all add: word_le_nat_alt)
  then have addr: "unat addr = (initrd_top (b_mem b) - length fp) div 4096 * 4096"
    unfolding addr_def unat_page_align by simp
  then have "unat addr + length fp \<le> initrd_top (b_mem b)"
    using assms(5) by (simp add: div_times_less_eq_dividend le_diff_conv2 [symmetric])
  then have ok: "guest_ok (b_mem b) (unat addr) (length fp)"
    using guest.ok_sub [OF assms(4), of "unat addr" "length fp"] by simp
  obtain n where n: "length fp = Suc n" using assms(2) by (cases fp) auto
  obtain p where p: "get_userspace_addr (b_mem b) addr = Some p"
    "points (b_mem b) (unat p) (unat addr) (length fp)"
    using get_userspace_addr_points [of "b_mem b" addr n] ok n by auto
  obtain st' where "fread_one (b_mem b) (unat p) (of_nat (length fp)) fp = Some st'"
    "holds st' (unat addr) fp" "frame (b_mem b) (unat addr, length fp) st'"
    using fread_holds [OF p(2) refl assms(3)] by auto
  moreover have "load_initrd fs path b = do { p \<leftarrow> get_userspace_addr (b_mem b) addr;
      st \<leftarrow> fread_one (b_mem b) (unat p) (of_nat (length fp)) fp;
      Some (Inr \<lparr>b_mem = st, InitrdSize = of_nat (length fp), InitrdAddr = addr\<rparr>) }"
    using assms(1,3) by (simp add: load_initrd_def Let_def file_len_small addr_def)
  ultimately show ?thesis using p(1) addr by auto
qed

definition fs_ok :: "memory \<Rightarrow> bytes \<Rightarrow> bytes \<Rightarrow> bool" where
  "fs_ok st vmlinux initrd \<longleftrightarrow> vmlinux \<noteq> [] \<and> initrd \<noteq> [] \<and> length vmlinux < 2 ^ 31 \<and> length initrd < 2 ^ 31 \<and>
     0x1000000 + length vmlinux + length initrd + 0xfff \<le> initrd_top st"

lemma initrd_above_kernel:
  assumes "fs_ok st vmlinux initrd"
  shows "0x1000000 + length vmlinux \<le> (initrd_top st - length initrd) div 4096 * 4096"
    "(initrd_top st - length initrd) div 4096 * 4096 + length initrd \<le> initrd_top st"
    "initrd_top st < (initrd_top st - length initrd) div 4096 * 4096 + length initrd + 4096"
proof -
  let ?d = "initrd_top st - length initrd"
  have d: "?d = ?d div 4096 * 4096 + ?d mod 4096" "?d mod 4096 < 4096" by simp_all
  show "0x1000000 + length vmlinux \<le> ?d div 4096 * 4096" "?d div 4096 * 4096 + length initrd \<le> initrd_top st"
    "initrd_top st < ?d div 4096 * 4096 + length initrd + 4096"
    using d assms unfolding fs_ok_def by linarith+
qed

lemma ucast_of_nat_u32: "(ucast (of_nat n :: u64) :: u32) = of_nat n"
  by (rule word_unat_eq_iff [THEN iffD2]) (simp add: unsigned_ucast_eq unat_of_nat take_bit_eq_mod mod_mod_cancel)

text \<open>Clearing the zero page and loading the two images, with the zero page's pointer.\<close>

lemma load_images_correct:
  fixes st :: memory and vmlinux initrd :: bytes
  defines "addr \<equiv> (initrd_top st - length initrd) div 4096 * 4096"
  assumes "guest_ok st 0 (initrd_top st)" "fs kpath = Some vmlinux" "fs ipath = Some initrd"
    and "fs_ok st vmlinux initrd"
  shows "\<exists>p s1 b2 s3. get_userspace_addr st ZERO_PAGE_START = Some p \<and> points s3 (unat p) 0x7000 0x1000 \<and>
    ptr_store st (unat p) (replicate 0x1000 0) = Some s1 \<and>
    load_kernel fs kpath \<lparr>b_mem = s1, InitrdSize = z, InitrdAddr = a\<rparr> = Some (Inr b2) \<and>
    load_initrd fs ipath b2 =
      Some (Inr \<lparr>b_mem = s3, InitrdSize = of_nat (length initrd), InitrdAddr = of_nat addr\<rparr>) \<and>
    holds s3 0x1000000 vmlinux \<and> holds s3 addr initrd \<and> get_ram_end s3 = get_ram_end st \<and> ram_keeps st s3 \<and>
    (\<forall>b n. guest_ok st b n \<longrightarrow> guest_ok s3 b n) \<and>
    (\<forall>b n. guest_ok st b n \<longrightarrow> apart (0x7000, 0x1000) (b, n) \<longrightarrow> apart (0x1000000, length vmlinux) (b, n) \<longrightarrow>
       apart (addr, length initrd) (b, n) \<longrightarrow> g_rd s3 b n = g_rd st b n)"
proof -
  note above = initrd_above_kernel [OF assms(5), folded addr_def]
  have sub: "guest_ok s b k" if "guest_ok s 0 (initrd_top st)" "b + k \<le> initrd_top st" for s b k
    using guest.ok_sub [OF that(1), of b k] that(2) by simp
  have big: "0x1000000 + length vmlinux + length initrd + 0xfff \<le> initrd_top st" "vmlinux \<noteq> []" "initrd \<noteq> []"
    "length vmlinux < 2 ^ 31" "length initrd < 2 ^ 31" using assms(5) by (auto simp: fs_ok_def)
  obtain p where p: "get_userspace_addr st ZERO_PAGE_START = Some p" "points st (unat p) 0x7000 0x1000"
    using get_userspace_addr_points [of st ZERO_PAGE_START "0xfff"] sub [OF assms(2), of "0x7000" "0x1000"] big(1)
    by (auto simp: const_simps)
  obtain s1 where s1: "ptr_store st (unat p) (replicate 0x1000 0) = Some s1" "frame st (0x7000, 0x1000) s1"
    using points_store [OF p(2), of 0 "replicate 0x1000 0"] guest.wr_total [of st "0x7000" "replicate 0x1000 0"]
      g_wr_frame [of st "0x7000" "replicate 0x1000 0"] points_guest_ok [OF p(2)] by auto
  note ok1 = frame_guest_ok [OF s1(2) assms(2)]
  define b1 where "b1 = \<lparr>b_mem = s1, InitrdSize = z, InitrdAddr = a\<rparr>"
  have [simp]: "b_mem b1 = s1" by (simp add: b1_def)
  obtain s2 where s2: "load_kernel fs kpath b1 = Some (Inr (b1\<lparr>b_mem := s2\<rparr>))"
    "holds s2 0x1000000 vmlinux" "frame s1 (0x1000000, length vmlinux) s2"
    using load_kernel_correct [of fs kpath vmlinux b1] assms(3) big(2,4) sub [OF ok1] big(1) by auto
  note ok2 = frame_guest_ok [OF s2(3) ok1]
  have top2: "initrd_top s2 = initrd_top st" "get_ram_end s2 = get_ram_end st"
    using frame_ram_end [OF s1(2)] frame_ram_end [OF s2(3)] by (simp_all add: initrd_top_def)
  obtain s3 w where s3: "load_initrd fs ipath (b1\<lparr>b_mem := s2\<rparr>) =
      Some (Inr \<lparr>b_mem = s3, InitrdSize = of_nat (length initrd), InitrdAddr = w\<rparr>)"
    "unat w = addr" "holds s3 addr initrd" "frame s2 (addr, length initrd) s3"
    using load_initrd_correct [of fs ipath initrd "b1\<lparr>b_mem := s2\<rparr>"] assms(4) big(3,5) ok2 big(1)
    by (auto simp: top2 addr_def)
  have w: "w = of_nat addr" using s3(2) by (simp flip: s3(2))
  have re: "get_ram_end s3 = get_ram_end st" using frame_ram_end [OF s3(4)] top2 by simp
  have p3: "points s3 (unat p) 0x7000 0x1000"
    by (rule frame_points [OF s3(4) frame_points [OF s2(3) frame_points [OF s1(2) p(2)]]])
  have ok: "guest_ok st b n \<Longrightarrow> guest_ok s1 b n \<and> guest_ok s2 b n \<and> guest_ok s3 b n" for b n
    using frame_guest_ok [OF s1(2)] frame_guest_ok [OF s2(3)] frame_guest_ok [OF s3(4)] by blast
  have keep: "g_rd s3 b n = g_rd st b n" if "guest_ok st b n" "apart (0x7000, 0x1000) (b, n)"
    "apart (0x1000000, length vmlinux) (b, n)" "apart (addr, length initrd) (b, n)" for b n
    using that ok [OF that(1)] s1(2) s2(3) s3(4) by (simp add: frame_def)
  have k3: "holds s3 0x1000000 vmlinux"
    by (rule frame_holds [OF s3(4) s2(2)]) (use above in \<open>auto simp: apart_def\<close>)
  have rs: "ram_keeps st s3" using s1(2) s2(3) s3(4) ram_keeps_trans unfolding frame_def by blast
  show ?thesis
    using p(1) s1(1) s2(1) s3(1,3) w p3 k3 re rs ok keep unfolding b1_def by blast
qed

text \<open>When the kernel and the RAM disk fit below the top of low memory,
  \<open>setup_boot_params\<close> succeeds: the kernel is at \<open>VMLINUX_START\<close>; the RAM disk is at the
  highest page boundary from which it fits below the top, above the kernel; and the zero page
  holds the memory map, the address and size of the RAM disk, the magic numbers and the
  command line pointer, as the guest reads them. No other memory changes.\<close>

lemma setup_boot_params_correct:
  fixes st :: memory and vmlinux initrd :: bytes
  defines "addr \<equiv> (initrd_top st - length initrd) div 4096 * 4096"
  assumes "guest_ok st 0 (initrd_top st)" "fs kpath = Some vmlinux" "fs ipath = Some initrd"
    and "fs_ok st vmlinux initrd"
  shows "\<exists>st'. setup_boot_params fs kpath ipath \<lparr>b_mem = st, InitrdSize = z, InitrdAddr = a\<rparr> =
      Some (Inr \<lparr>b_mem = st', InitrdSize = of_nat (length initrd), InitrdAddr = of_nat addr\<rparr>) \<and>
    holds st' 0x1000000 vmlinux \<and> holds st' addr initrd \<and>
    0x1000000 + length vmlinux \<le> addr \<and> addr mod 4096 = 0 \<and>
    addr + length initrd \<le> initrd_top st \<and> initrd_top st < addr + length initrd + 4096 \<and>
    e820_read st' = Some (e820_list (get_ram_end st)) \<and>
    holds st' 0x7218 (le_bytes 4 (of_nat addr :: u32)) \<and>
    holds st' 0x721c (le_bytes 4 (of_nat (length initrd) :: u32)) \<and>
    holds st' 0x71fe (le_bytes 2 BOOT_FLAG) \<and> holds st' 0x7202 (le_bytes 4 HDRS) \<and>
    holds st' 0x7210 [UNDEFINED_ID] \<and> holds st' 0x7228 (le_bytes 4 (ucast CMDLINE_START :: u32)) \<and>
    holds st' 0x7238 (le_bytes 4 (of_nat (length CMDLINE) :: u32)) \<and>
    (\<forall>b n. guest_ok st b n \<longrightarrow> guest_ok st' b n) \<and> ram_keeps st st' \<and>
    (\<forall>b n. guest_ok st b n \<longrightarrow> apart (0x7000, 0x1000) (b, n) \<longrightarrow> apart (0x1000000, length vmlinux) (b, n) \<longrightarrow>
       apart (addr, length initrd) (b, n) \<longrightarrow> g_rd st' b n = g_rd st b n)"
proof -
  note above = initrd_above_kernel [OF assms(5), folded addr_def]
  obtain p s1 b2 s3 where s: "get_userspace_addr st ZERO_PAGE_START = Some p" "points s3 (unat p) 0x7000 0x1000"
    "ptr_store st (unat p) (replicate 0x1000 0) = Some s1"
    "load_kernel fs kpath \<lparr>b_mem = s1, InitrdSize = z, InitrdAddr = a\<rparr> = Some (Inr b2)"
    "load_initrd fs ipath b2 =
      Some (Inr \<lparr>b_mem = s3, InitrdSize = of_nat (length initrd), InitrdAddr = of_nat addr\<rparr>)"
    "holds s3 0x1000000 vmlinux" "holds s3 addr initrd" "get_ram_end s3 = get_ram_end st"
    "ram_keeps st s3"
    and ok: "\<forall>b n. guest_ok st b n \<longrightarrow> guest_ok s3 b n"
    and keep: "\<forall>b n. guest_ok st b n \<longrightarrow> apart (0x7000, 0x1000) (b, n) \<longrightarrow> apart (0x1000000, length vmlinux) (b, n) \<longrightarrow>
       apart (addr, length initrd) (b, n) \<longrightarrow> g_rd s3 b n = g_rd st b n"
    using load_images_correct [OF assms(2-5), folded addr_def, of z a] by blast
  obtain s4 s5 where s5: "setup_e820 (unat p) s3 = Some s4"
    "setup_header_ramdisk (unat p) \<lparr>b_mem = s4, InitrdSize = of_nat (length initrd), InitrdAddr = of_nat addr\<rparr> = Some s5"
    "frame s3 (0x7000, 0x1000) s5" "e820_read s5 = Some (e820_list (get_ram_end st))"
    "\<forall>v\<in>set (hdr_writes (of_nat addr) (of_nat (length initrd))). holds s5 (0x7000 + fst v) (snd v)"
    using zero_page_correct [OF s(2)] s(8) by metis
  have "setup_boot_params fs kpath ipath \<lparr>b_mem = st, InitrdSize = z, InitrdAddr = a\<rparr> =
      Some (Inr \<lparr>b_mem = s5, InitrdSize = of_nat (length initrd), InitrdAddr = of_nat addr\<rparr>)"
    using s(1,3-5) s5(1,2) by (simp add: setup_boot_params_def offsets)
  moreover have "holds s5 0x1000000 vmlinux" "holds s5 addr initrd"
    by (rule frame_holds [OF s5(3)], use s(6,7) above in \<open>auto simp: apart_def\<close>)+
  moreover have "g_rd s5 b n = g_rd st b n" if "guest_ok st b n" "apart (0x7000, 0x1000) (b, n)"
    "apart (0x1000000, length vmlinux) (b, n)" "apart (addr, length initrd) (b, n)" for b n
    using that ok keep s5(3) by (simp add: frame_def)
  moreover have "holds s5 0x7218 (le_bytes 4 (of_nat addr :: u32))" "holds s5 0x721c (le_bytes 4 (of_nat (length initrd) :: u32))"
    "holds s5 0x71fe (le_bytes 2 BOOT_FLAG)" "holds s5 0x7202 (le_bytes 4 HDRS)" "holds s5 0x7210 [UNDEFINED_ID]"
    "holds s5 0x7228 (le_bytes 4 (ucast CMDLINE_START :: u32))" "holds s5 0x7238 (le_bytes 4 (of_nat (length CMDLINE) :: u32))"
    using s5(5) by (simp_all add: hdr_writes_def const_simps length_CMDLINE ucast_of_nat_u32)
  moreover have "guest_ok s5 b n" if "guest_ok st b n" for b n using that ok frame_guest_ok [OF s5(3)] by blast
  moreover have "ram_keeps st s5" using s5(3) s(9) ram_keeps_trans unfolding frame_def by blast
  ultimately show ?thesis
    using above s5(4) by (auto simp: addr_def)
qed

text \<open>Property C37. A file that cannot be opened ends the program through \<open>exit (0)\<close>: the kernel's before
  anything is loaded, the RAM disk's after the kernel. A RAM disk larger than low memory is not
  refused: the subtraction wraps, and the code translates an address no slot backs.\<close>

theorem setup_boot_params_errors:
  assumes "guest_ok st 0x7000 0x1000"
  shows "(fs kpath = None \<longrightarrow>
      setup_boot_params fs kpath ipath \<lparr>b_mem = st, InitrdSize = z, InitrdAddr = a\<rparr> = Some (Inl 0)) \<and>
    (\<forall>vmlinux. fs kpath = Some vmlinux \<longrightarrow> vmlinux \<noteq> [] \<longrightarrow> length vmlinux < 2 ^ 31 \<longrightarrow>
      guest_ok st 0x1000000 (length vmlinux) \<longrightarrow> fs ipath = None \<longrightarrow>
      setup_boot_params fs kpath ipath \<lparr>b_mem = st, InitrdSize = z, InitrdAddr = a\<rparr> = Some (Inl 0)) \<and>
    (\<forall>initrd. fs ipath = Some initrd \<longrightarrow> length initrd < 2 ^ 31 \<longrightarrow> initrd_top st < length initrd \<longrightarrow>
      (\<forall>x\<ge>2 ^ 63. \<not> guest_ok st x 1) \<longrightarrow>
      load_initrd fs ipath \<lparr>b_mem = st, InitrdSize = z, InitrdAddr = a\<rparr> = None)"
proof -
  obtain p where p: "get_userspace_addr st ZERO_PAGE_START = Some p" "points st (unat p) 0x7000 0x1000"
    using get_userspace_addr_points [of st ZERO_PAGE_START "0xfff"] assms by (auto simp: const_simps)
  obtain s1 where s1: "ptr_store st (unat p) (replicate 0x1000 0) = Some s1" "frame st (0x7000, 0x1000) s1"
    using points_store [OF p(2), of 0 "replicate 0x1000 0"] guest.wr_total [of st "0x7000" "replicate 0x1000 0"]
      g_wr_frame [of st "0x7000" "replicate 0x1000 0"] points_guest_ok [OF p(2)] by auto
  let ?b = "\<lparr>b_mem = s1, InitrdSize = z, InitrdAddr = a\<rparr>"
  have eq: "setup_boot_params fs kpath ipath \<lparr>b_mem = st, InitrdSize = z, InitrdAddr = a\<rparr> = Some (Inl 0)"
    if "fs kpath = None \<or> (\<exists>s2. load_kernel fs kpath ?b = Some (Inr (?b\<lparr>b_mem := s2\<rparr>))) \<and> fs ipath = None"
    using that p(1) s1(1) by (auto simp: setup_boot_params_def offsets load_kernel_def [of _ kpath ?b] load_initrd_def)
  have big: "load_initrd fs ipath \<lparr>b_mem = st, InitrdSize = z, InitrdAddr = a\<rparr> = None"
    if i: "fs ipath = Some initrd" "length initrd < 2 ^ 31" "initrd_top st < length initrd"
      and far: "\<forall>x\<ge>2 ^ 63. \<not> guest_ok st x 1" for initrd
  proof -
    let ?top = "if INITRD_ADDR_MAX > get_ram_end st then get_ram_end st else INITRD_ADDR_MAX"
    have top: "unat ?top = initrd_top st"
      by (auto simp: initrd_top_def const_simps word_less_nat_alt min_def)
    have len: "unat (of_nat (length initrd) :: u64) = length initrd" using i(2) by (simp add: unat_of_nat)
    have "unat (?top - of_nat (length initrd)) = initrd_top st + 2 ^ 64 - length initrd"
      using top len i(3) by (subst unat_sub_if') simp
    then have "2 ^ 63 \<le> unat ((?top - of_nat (length initrd)) AND NOT 0xfff)"
      unfolding unat_page_align using i(2) by simp
    then have "get_userspace_addr st ((?top - of_nat (length initrd)) AND NOT 0xfff) = None"
      using far assms by (intro get_userspace_addr_uncovered) (auto simp: guest_ok_def)
    then show ?thesis using i(1,2) by (simp add: load_initrd_def Let_def file_len_small split: if_splits)
  qed
  show ?thesis
    using eq big load_kernel_correct [of fs kpath _ ?b] frame_guest_ok [OF s1(2)] by auto
qed

theorem setup_boot_params_errors_witness:
  "setup_boot_params Map.empty ''k'' ''i'' \<lparr>b_mem = sample_memory, InitrdSize = 0, InitrdAddr = 0\<rparr> = Some (Inl 0) \<and>
   setup_boot_params [''k'' \<mapsto> [1]] ''k'' ''i'' \<lparr>b_mem = sample_memory, InitrdSize = 0, InitrdAddr = 0\<rparr> = Some (Inl 0)"
  using setup_boot_params_errors [of sample_memory Map.empty "''k''" "''i''" 0 0]
    setup_boot_params_errors [of sample_memory "[''k'' \<mapsto> [1]]" "''k''" "''i''" 0 0]
  by auto

text \<open>\<open>setup_cmdline\<close> puts the 69 characters of the command line at \<open>CMDLINE_START\<close>,
  without a terminating null: the string the guest finds there is terminated only when the byte
  after it was zero.\<close>

lemma setup_cmdline_correct:
  assumes "guest_ok st 0x20000 70"
  shows "\<exists>st'. setup_cmdline st = Some st' \<and> holds st' 0x20000 CMDLINE \<and> 0 \<notin> set CMDLINE \<and>
    frame st (0x20000, 69) st' \<and> g_rd st' 0x20045 1 = g_rd st 0x20045 1"
proof -
  have ok: "guest_ok st 0x20000 (length CMDLINE)" "guest_ok st 0x20045 1"
    using guest.ok_sub [OF assms] by (auto simp: length_CMDLINE)
  obtain st' where st': "g_wr st 0x20000 CMDLINE = Some st'" using guest.wr_total [OF ok(1)] by blast
  note fr = g_wr_frame [OF ok(1) st']
  have "setup_cmdline st = Some st'"
    using st' by (simp add: setup_cmdline_def write_userspace_memory_eq guest_store_g_wr const_simps CMDLINE_def)
  moreover have "holds st' 0x20000 CMDLINE"
    using guest.rd_wr_same [OF ok(1) st'] frame_guest_ok [OF fr ok(1)] by (simp add: holds_def)
  moreover have "0 \<notin> set CMDLINE" by (simp add: CMDLINE_def)
  ultimately show ?thesis
    using fr guest.rd_wr_other [OF ok(1) st' ok(2)] by (simp add: length_CMDLINE apart_def)
qed

end
