(* ===== verification/Gdt.thy ===== *)
theory Gdt
  imports Memory
begin

text \<open>
  \<open>src/gdt.c\<close>: the boot GDT and IDT. A descriptor is the bit-field struct \<open>desc_struct\<close>
  laid out low bits first; \<open>entry_to_kvm_seg\<close> gives the same segment in the form KVM
  loads into the hidden part of a segment register. The properties say that the two agree and
  that the tables land in guest memory where the register setup expects them.
\<close>

section \<open>Descriptors\<close>

record desc_struct =
  limit0 :: u16
  base0 :: u16
  base1 :: "8 word"
  d_type :: "4 word"
  d_s :: "1 word"
  d_dpl :: "2 word"
  d_p :: "1 word"
  limit1 :: "4 word"
  d_avl :: "1 word"
  d_l :: "1 word"
  d_d :: "1 word"
  d_g :: "1 word"
  base2 :: "8 word"

definition GDT_ENTRY_INIT :: "u64 \<Rightarrow> u64 \<Rightarrow> u64 \<Rightarrow> desc_struct" where
  "GDT_ENTRY_INIT flags bas limit =
     \<lparr>limit0 = ucast limit,
      base0 = ucast bas,
      base1 = ucast (drop_bit 16 bas AND 0xFF),
      d_type = ucast (flags AND 0x0f),
      d_s = ucast (drop_bit 4 flags AND 0x01),
      d_dpl = ucast (drop_bit 5 flags AND 0x03),
      d_p = ucast (drop_bit 7 flags AND 0x01),
      limit1 = ucast (drop_bit 16 limit AND 0x0F),
      d_avl = ucast (drop_bit 12 flags AND 0x01),
      d_l = ucast (drop_bit 13 flags AND 0x01),
      d_d = ucast (drop_bit 14 flags AND 0x01),
      d_g = ucast (drop_bit 15 flags AND 0x01),
      base2 = ucast (drop_bit 24 bas AND 0xFF)\<rparr>"

text \<open>The packed object representation: each 16-bit unit is filled from its low bit up.\<close>

definition desc_bytes :: "desc_struct \<Rightarrow> bytes" where
  "desc_bytes d =
     le_bytes 2 (limit0 d) @ le_bytes 2 (base0 d) @
     le_bytes 2 ((ucast (base1 d) OR push_bit 8 (ucast (d_type d)) OR push_bit 12 (ucast (d_s d))
        OR push_bit 13 (ucast (d_dpl d)) OR push_bit 15 (ucast (d_p d))) :: u16) @
     le_bytes 2 ((ucast (limit1 d) OR push_bit 4 (ucast (d_avl d)) OR push_bit 5 (ucast (d_l d))
        OR push_bit 6 (ucast (d_d d)) OR push_bit 7 (ucast (d_g d)) OR push_bit 8 (ucast (base2 d))) :: u16)"

definition BOOT_GDT_MAX :: nat where "BOOT_GDT_MAX = 4"

definition STARTUP_GDT :: "desc_struct list" where
  "STARTUP_GDT =
     [GDT_ENTRY_INIT 0 0 0, GDT_ENTRY_INIT 0 0 0,
      GDT_ENTRY_INIT 0xa09b 0 0xfffff, GDT_ENTRY_INIT 0xc093 0 0xfffff]"

section \<open>KVM segments\<close>

record kvm_segment =
  seg_base :: u64
  seg_limit :: u32
  seg_selector :: u16
  seg_type :: u8
  seg_present :: u8
  seg_dpl :: u8
  seg_db :: u8
  seg_s :: u8
  seg_l :: u8
  seg_g :: u8
  seg_avl :: u8
  seg_unusable :: u8
  seg_padding :: u8

text \<open>\<open>seg0\<close> is the indeterminate content of the local variable, which keeps its selector,
  \<open>unusable\<close> and padding bytes.\<close>

definition entry_to_kvm_seg :: "kvm_segment \<Rightarrow> u64 \<Rightarrow> u64 \<Rightarrow> u64 \<Rightarrow> kvm_segment" where
  "entry_to_kvm_seg seg0 flags bas limit =
     seg0\<lparr>seg_base := bas,
          seg_limit := ucast limit,
          seg_type := ucast (flags AND 0xf),
          seg_present := ucast (drop_bit (15 - 8) flags AND 0x1),
          seg_dpl := ucast (drop_bit (13 - 8) flags AND 0x3),
          seg_db := ucast (drop_bit (22 - 8) flags AND 0x1),
          seg_s := ucast (drop_bit (12 - 8) flags AND 0x1),
          seg_l := ucast (drop_bit (21 - 8) flags AND 0x1),
          seg_g := ucast (drop_bit (23 - 8) flags AND 0x1),
          seg_avl := ucast (drop_bit (20 - 8) flags AND 0x1)\<rparr>"

definition get_code_kvm_seg :: "kvm_segment \<Rightarrow> kvm_segment" where
  "get_code_kvm_seg seg0 = entry_to_kvm_seg seg0 0xa09b 0 0xfffff"

definition get_data_kvm_seg :: "kvm_segment \<Rightarrow> kvm_segment" where
  "get_data_kvm_seg seg0 = entry_to_kvm_seg seg0 0xc093 0 0xfffff"

section \<open>Writing the tables\<close>

fun setup_gdt_loop :: "nat \<Rightarrow> desc_struct list \<Rightarrow> memory \<Rightarrow> memory option" where
  "setup_gdt_loop i [] st = Some st"
| "setup_gdt_loop i (d # ds) st =
     do { st' \<leftarrow> guest_store st (BOOT_GDT_START + of_nat (i * 8)) (desc_bytes d);
          setup_gdt_loop (Suc i) ds st' }"

definition setup_gdt :: "memory \<Rightarrow> memory option" where
  "setup_gdt st = setup_gdt_loop 0 (take BOOT_GDT_MAX STARTUP_GDT) st"

definition setup_idt :: "memory \<Rightarrow> memory option" where
  "setup_idt st = guest_store st BOOT_IDT_START (le_bytes 8 (0 :: u64))"

definition get_gdt_limit :: u16 where
  "get_gdt_limit = of_nat (length STARTUP_GDT * 8 - 1)"

definition get_idt_limit :: u16 where
  "get_idt_limit = 8 - 1"

section \<open>Properties\<close>

lemma length_desc_bytes [simp]: "length (desc_bytes d) = 8"
  by (simp add: desc_bytes_def)

text \<open>The 64-bit entry as the comment in \<open>_test_gdt\<close> composes it.\<close>

definition gdt_entry :: "u64 \<Rightarrow> u64 \<Rightarrow> u64 \<Rightarrow> u64" where
  "gdt_entry flags bas limit =
     push_bit (56 - 24) (bas AND 0xff000000) OR push_bit 16 (bas AND 0x00ffffff) OR
     push_bit (48 - 16) (limit AND 0x000f0000) OR (limit AND 0x0000ffff) OR
     push_bit 40 (flags AND 0x0000f0ff)"

lemma gdt_entry_layout: "of_le (desc_bytes (GDT_ENTRY_INIT flags bas limit)) = gdt_entry flags bas limit"
  by (rule word_eqI64, simp, unfold upt_0_64)
    (simp add: gdt_entry_def desc_bytes_def GDT_ENTRY_INIT_def layout_simps bit_simps)

lemmas desc_bit_simps = gdt_entry_def GDT_ENTRY_INIT_def bit_simps

text \<open>Property C13. A descriptor built by \<open>GDT_ENTRY_INIT\<close> and stored as the bit-field struct is the
  64-bit entry of the comment in \<open>_test_gdt\<close>, and the comment's inverse formulas recover the low
  32 bits of the base, the low 20 bits of the limit and the flag bits.\<close>

theorem gdt_entry_roundtrip:
  "let e = of_le (desc_bytes (GDT_ENTRY_INIT flags bas limit)) :: u64 in
     e = gdt_entry flags bas limit \<and>
     (drop_bit 16 e AND 0x00ffffff) OR (drop_bit (56 - 24) e AND 0xff000000) = bas AND 0xffffffff \<and>
     (drop_bit (48 - 16) e AND 0x000f0000) OR (e AND 0x0000ffff) = limit AND 0x000fffff \<and>
     drop_bit 40 e AND 0x0000f0ff = flags AND 0x0000f0ff"
  unfolding Let_def gdt_entry_layout
  by (intro conjI refl; rule word_eqI64, simp, unfold upt_0_64) (simp_all add: desc_bit_simps)

text \<open>Property C14. The segment that \<open>entry_to_kvm_seg\<close> puts in a register is the one the descriptor of
  the same flags, base and limit describes, attribute by attribute, and in full for a 32-bit
  base and a 20-bit limit, whatever the local variable held before.\<close>

theorem kvm_seg_matches_descriptor:
  fixes flags bas limit :: u64
  assumes "bas AND 0xffffffff = bas" "limit AND 0xfffff = limit"
  shows "let seg = entry_to_kvm_seg seg0 flags bas limit; d = GDT_ENTRY_INIT flags bas limit in
    seg_type seg = ucast (d_type d) \<and> seg_s seg = ucast (d_s d) \<and> seg_dpl seg = ucast (d_dpl d) \<and>
    seg_present seg = ucast (d_p d) \<and> seg_avl seg = ucast (d_avl d) \<and> seg_l seg = ucast (d_l d) \<and>
    seg_db seg = ucast (d_d d) \<and> seg_g seg = ucast (d_g d) \<and>
    seg_base seg = (ucast (base0 d) OR push_bit 16 (ucast (base1 d)) OR push_bit 24 (ucast (base2 d))) \<and>
    seg_limit seg = (ucast (limit0 d) OR push_bit 16 (ucast (limit1 d)))"
proof -
  have b: "bas = ucast (ucast bas :: u16) OR push_bit 16 (ucast (ucast (drop_bit 16 bas AND 0xFF) :: 8 word))
      OR push_bit 24 (ucast (ucast (drop_bit 24 bas AND 0xFF) :: 8 word))"
    by (rule trans [OF assms(1) [symmetric]], rule word_eqI64, simp, unfold upt_0_64) (simp add: bit_simps)
  have l: "ucast limit = (ucast (ucast limit :: u16) OR
      push_bit 16 (ucast (ucast (drop_bit 16 limit AND 0x0F) :: 4 word)) :: u32)"
    by (subst assms(2) [symmetric], rule word_eqI64, simp, unfold upt_0_64) (simp add: bit_simps)
  have f: "ucast (x AND 1) = (ucast (ucast (x AND 1) :: 1 word) :: u8)"
    "ucast (x AND 3) = (ucast (ucast (x AND 3) :: 2 word) :: u8)"
    "ucast (x AND 15) = (ucast (ucast (x AND 15) :: 4 word) :: u8)" for x :: u64
    by (rule word_eqI64, simp, unfold upt_0_64, simp add: bit_simps)+
  show ?thesis
    using b l by (simp add: entry_to_kvm_seg_def GDT_ENTRY_INIT_def Let_def flip: f)
qed

theorem kvm_seg_matches_descriptor_witness:
  "\<forall>seg0. seg_l (get_code_kvm_seg seg0) = ucast (d_l (STARTUP_GDT ! 2)) \<and>
     seg_limit (get_data_kvm_seg seg0) = 0xfffff"
proof
  fix seg0
  have "(0 :: u64) AND 0xffffffff = 0" "(0xfffff :: u64) AND 0xfffff = 0xfffff" by simp_all
  note * = kvm_seg_matches_descriptor [OF this, of seg0, unfolded Let_def]
  show "seg_l (get_code_kvm_seg seg0) = ucast (d_l (STARTUP_GDT ! 2)) \<and>
     seg_limit (get_data_kvm_seg seg0) = 0xfffff"
    using * [of "0xa09b"] * [of "0xc093"]
    by (simp add: get_code_kvm_seg_def get_data_kvm_seg_def STARTUP_GDT_def)
      (simp add: GDT_ENTRY_INIT_def)
qed

lemma setup_gdt_loop_wr:
  "i + length ds < 100 \<Longrightarrow>
   setup_gdt_loop i ds st = wr_all g_wr (layout_from (0x500 + i * 8) (map desc_bytes ds)) st"
proof (induction ds arbitrary: i st)
  case (Cons d ds)
  have "unat (BOOT_GDT_START + of_nat (i * 8)) = 0x500 + i * 8"
    using Cons.prems of_nat_unat_add [of BOOT_GDT_START "i * 8"] by (simp add: const_simps)
  moreover have "desc_bytes d \<noteq> []"
    using length_desc_bytes [of d] by (metis list.size(3) zero_neq_numeral)
  ultimately show ?case using Cons
    by (auto simp: guest_store_g_wr algebra_simps split: Option.bind_split)
qed simp

lemma setup_gdt_idt_wr:
  "do { st' \<leftarrow> setup_gdt st; setup_idt st' } =
     wr_all g_wr (layout_from 0x500 (map desc_bytes STARTUP_GDT @ [replicate 8 0])) st"
proof -
  have "setup_gdt s = wr_all g_wr (layout_from 0x500 (map desc_bytes STARTUP_GDT)) s" for s
    using setup_gdt_loop_wr [of 0 STARTUP_GDT s]
    by (simp add: setup_gdt_def STARTUP_GDT_def BOOT_GDT_MAX_def)
  moreover have "setup_idt s = g_wr s 0x520 (replicate 8 0)" for s
    by (simp add: setup_idt_def guest_store_g_wr const_simps)
  ultimately show ?thesis
    by (simp add: layout_from_append wr_all_append) (simp add: STARTUP_GDT_def)
qed

text \<open>With accessible memory at \<open>BOOT_GDT_START\<close>, \<open>setup_gdt\<close> followed by \<open>setup_idt\<close> leaves the four
  descriptors and an empty eight-byte IDT there, adjacent, and touches nothing else.\<close>

definition boot_tables :: bytes where
  "boot_tables = concat (map desc_bytes STARTUP_GDT) @ replicate 8 0"

lemma length_boot_tables: "length boot_tables = 40"
  by (simp add: boot_tables_def STARTUP_GDT_def)

lemma setup_gdt_idt_holds:
  assumes "guest_ok st 0x500 40"
  shows "\<exists>st' st''. setup_gdt st = Some st' \<and> setup_idt st' = Some st'' \<and>
    holds st'' 0x500 boot_tables \<and> frame st (0x500, 40) st''"
proof -
  let ?bss = "map desc_bytes STARTUP_GDT @ [replicate 8 0]"
  have len: "length (concat ?bss) = 40" "concat ?bss = boot_tables"
    by (simp_all add: STARTUP_GDT_def boot_tables_def)
  obtain st'' where st'': "wr_all g_wr (layout_from 0x500 ?bss) st = Some st''"
    "g_rd st'' 0x500 40 = Some (concat ?bss)" "\<forall>b n. guest_ok st'' b n = guest_ok st b n"
    using guest.wr_layout [of st "0x500" ?bss] assms len by auto
  have "frame st (0x500, 40) st''"
    by (rule g_wr_all_frame [OF st''(1)]) (use guest.layout_from_ok [of st "0x500" ?bss] assms len in auto)
  moreover obtain st' where "setup_gdt st = Some st'" "setup_idt st' = Some st''"
    using st''(1) by (auto simp flip: setup_gdt_idt_wr split: Option.bind_splits)
  ultimately show ?thesis
    using st''(2,3) assms len(2) by (auto simp: holds_def length_boot_tables)
qed

text \<open>The limits loaded into the registers are the last bytes of the two tables.\<close>

lemma boot_table_limits:
  "unat get_gdt_limit + 1 = length (concat (map desc_bytes STARTUP_GDT))" "unat get_idt_limit + 1 = 8"
  "unat BOOT_GDT_START + unat get_gdt_limit + 1 = unat BOOT_IDT_START"
  by (simp_all add: get_gdt_limit_def get_idt_limit_def STARTUP_GDT_def const_simps)

end
