(* ===== verification/Vcpu.thy ===== *)
theory Vcpu
  imports Gdt
begin

text \<open>
  \<open>src/vcpu.c\<close>: the initial state of the virtual processor. \<open>setup_vcpu\<close> fills the global
  structures for the local APIC, the run state, the segment and control registers, the general
  registers, the FPU and the MSRs; \<open>reset_vcpu\<close> filters the CPUID leaves the host supports and
  hands everything to KVM. What the processor and KVM answer (the \<open>cpuid\<close> instruction and the
  reading ioctls) are parameters; the writing ioctls are a log of what they were given, in
  order, because their results are only reported.
\<close>

section \<open>State\<close>

record kvm_cpuid_entry2 =
  ce_function :: u32
  ce_index :: u32
  ce_flags :: u32
  ce_eax :: u32
  ce_ebx :: u32
  ce_ecx :: u32
  ce_edx :: u32

record kvm_cpuid2 =
  nent :: u32
  cpuid_entries :: "kvm_cpuid_entry2 list"

record kvm_regs =
  rax :: u64
  rbx :: u64
  rcx :: u64
  rdx :: u64
  rsi :: u64
  rdi :: u64
  rsp :: u64
  rbp :: u64
  r8 :: u64
  r9 :: u64
  r10 :: u64
  r11 :: u64
  r12 :: u64
  r13 :: u64
  r14 :: u64
  r15 :: u64
  rip :: u64
  rflags :: u64

record kvm_dtable =
  dt_base :: u64
  dt_limit :: u16

record kvm_sregs =
  sr_cs :: kvm_segment
  sr_ds :: kvm_segment
  sr_es :: kvm_segment
  sr_fs :: kvm_segment
  sr_gs :: kvm_segment
  sr_ss :: kvm_segment
  sr_tr :: kvm_segment
  sr_ldt :: kvm_segment
  sr_gdt :: kvm_dtable
  sr_idt :: kvm_dtable
  cr0 :: u64
  cr2 :: u64
  cr3 :: u64
  cr4 :: u64
  cr8 :: u64
  efer :: u64
  apic_base :: u64

record kvm_fpu =
  fpr :: bytes
  fcw :: u16
  fsw :: u16
  ftwx :: u8
  last_opcode :: u16
  last_ip :: u64
  last_dp :: u64
  xmm :: bytes
  mxcsr :: u32

record kvm_msr_entry =
  msr_index :: u32
  msr_data :: u64

datatype mp_state = KVM_MP_STATE_RUNNABLE | KVM_MP_STATE_UNINITIALIZED

record vcpu_globals =
  kapic :: bytes
  vc_mp_state :: mp_state
  vc_regs :: kvm_regs
  vc_sregs :: kvm_sregs
  vc_fpu :: kvm_fpu
  nmsrs :: u32
  msrs :: "kvm_msr_entry list"

text \<open>What the processor and KVM answer: \<open>None\<close> is a negative return value, with which the
  structure passed to the ioctl keeps its contents. \<open>KVM_GET_SUPPORTED_CPUID\<close> also fills in
  how many entries are valid.\<close>

record vcpu_env =
  env_cpuid :: "u32 \<Rightarrow> u32 \<Rightarrow> u32 \<times> u32 \<times> u32 \<times> u32"
  env_get_lapic :: "bytes option"
  env_get_sregs :: "kvm_sregs option"
  env_supported_cpuid :: "kvm_cpuid2 option"
  env_malloc_cpuid :: bool

datatype kvm_set =
    KVM_SET_CPUID2 kvm_cpuid2
  | KVM_SET_LAPIC bytes
  | KVM_SET_MP_STATE mp_state
  | KVM_SET_REGS kvm_regs
  | KVM_SET_SREGS kvm_sregs
  | KVM_SET_FPU kvm_fpu
  | KVM_SET_MSRS u32 "kvm_msr_entry list"

definition KVM_MAX_CPUID_ENTRIES :: nat where "KVM_MAX_CPUID_ENTRIES = 80"
definition X86_FEATURE_HYPERVISOR :: nat where "X86_FEATURE_HYPERVISOR = 31"
definition X86_FEATURE_TSC_DEADLINE_TIMER :: nat where "X86_FEATURE_TSC_DEADLINE_TIMER = 24"
definition ECX_EPB_SHIFT :: nat where "ECX_EPB_SHIFT = 3"
definition APIC_LVT0 :: nat where "APIC_LVT0 = 0x350"
definition APIC_LVT1 :: nat where "APIC_LVT1 = 0x360"
definition APIC_MODE_NMI :: int where "APIC_MODE_NMI = 4"
definition APIC_MODE_EXTINT :: int where "APIC_MODE_EXTINT = 7"
definition X86_CR0_PE :: u64 where "X86_CR0_PE = 1"
definition X86_CR0_PG :: u64 where "X86_CR0_PG = 0x80000000"
definition MSR_EFER_LME :: u64 where "MSR_EFER_LME = 0x100"
definition MSR_EFER_LMA :: u64 where "MSR_EFER_LMA = 0x400"
definition X86_CR4_PAE :: u64 where "X86_CR4_PAE = 0x20"
definition MXCSR_DEFAULT :: u32 where "MXCSR_DEFAULT = 0x1f80"

section \<open>CPUID\<close>

definition host_cpuid :: "vcpu_env \<Rightarrow> u32 \<Rightarrow> u32 \<Rightarrow> kvm_cpuid_entry2 \<Rightarrow> kvm_cpuid_entry2" where
  "host_cpuid env fn count e = (case env_cpuid env fn count of (a, b, c, d) \<Rightarrow>
     e\<lparr>ce_eax := a, ce_ebx := b, ce_ecx := c, ce_edx := d\<rparr>)"

text \<open>The body of the loop, one branch for each \<open>case\<close> of the switch.\<close>

definition cpuid_entry_1 :: "kvm_cpuid_entry2 \<Rightarrow> kvm_cpuid_entry2" where
  "cpuid_entry_1 e = (if ce_index e = 0
     then e\<lparr>ce_ecx := ce_ecx e OR push_bit X86_FEATURE_HYPERVISOR 1 OR push_bit X86_FEATURE_TSC_DEADLINE_TIMER 1\<rparr>
     else e)"

text \<open>The source shifts the \<open>int\<close> \<open>vcpu_count - 1\<close>, which C defines for up to 32 processors; \<open>main\<close> has one.\<close>

definition cpuid_entry_4 :: "vcpu_env \<Rightarrow> int \<Rightarrow> kvm_cpuid_entry2 \<Rightarrow> kvm_cpuid_entry2" where
  "cpuid_entry_4 env vcpu_count e0 =
     (let e1 = host_cpuid env 4 (ce_index e0) e0;
          e2 = e1\<lparr>ce_eax := ce_eax e1 AND NOT 0xfc000000\<rparr>
      in if ce_eax e2 AND 0x0001ffff \<noteq> 0 \<and> vcpu_count > 1
         then e2\<lparr>ce_eax := ce_eax e2 OR word_of_int (push_bit 26 (vcpu_count - 1))\<rparr> else e2)"

definition cpuid_entry_10 :: "kvm_cpuid_entry2 \<Rightarrow> kvm_cpuid_entry2" where
  "cpuid_entry_10 e =
     (if ce_eax e \<noteq> 0 then
        let version_id = ce_eax e AND 0xff; num_counters = ce_eax e AND 0xff00
        in if version_id \<noteq> 2 \<or> num_counters = 0 then e\<lparr>ce_eax := 0\<rparr> else e
      else e)"

definition cpuid_entry_b :: "int \<Rightarrow> u32 \<Rightarrow> kvm_cpuid_entry2 \<Rightarrow> kvm_cpuid_entry2" where
  "cpuid_entry_b vcpu_count apic_id e0 =
     (let e1 = e0\<lparr>ce_edx := apic_id, ce_ecx := ce_index e0 AND 0xff\<rparr>;
          e2 = (if ce_index e1 = 0 then e1\<lparr>ce_eax := 0, ce_ebx := 1, ce_ecx := ce_ecx e1 OR push_bit 8 1\<rparr>
                else if ce_index e1 = 1
                then e1\<lparr>ce_eax := word_of_int (32 - vcpu_count), ce_ebx := word_of_int vcpu_count,
                        ce_ecx := ce_ecx e1 OR push_bit 8 2\<rparr>
                else e1\<lparr>ce_ebx := 0xff\<rparr>)
      in e2\<lparr>ce_ebx := ce_ebx e2 AND 0xffff\<rparr>)"

definition cpuid_entry :: "vcpu_env \<Rightarrow> int \<Rightarrow> u32 \<Rightarrow> kvm_cpuid_entry2 \<Rightarrow> kvm_cpuid_entry2" where
  "cpuid_entry env vcpu_count apic_id e =
     (if ce_function e = 1 then cpuid_entry_1 e
      else if ce_function e = 2 then host_cpuid env 2 0 e
      else if ce_function e = 4 then cpuid_entry_4 env vcpu_count e
      else if ce_function e = 6 then e\<lparr>ce_ecx := ce_ecx e AND NOT (push_bit ECX_EPB_SHIFT 1)\<rparr>
      else if ce_function e = 10 then cpuid_entry_10 e
      else if ce_function e = 0xb then cpuid_entry_b vcpu_count apic_id e
      else if ce_function e = 0x80000002 \<or> ce_function e = 0x80000003 \<or> ce_function e = 0x80000004
      then host_cpuid env (ce_function e) (ce_index e) e
      else e)"

text \<open>The loop indexes the array without looking at its length: past the end it is \<open>None\<close>.\<close>

fun cpuid_loop ::
    "vcpu_env \<Rightarrow> int \<Rightarrow> u32 \<Rightarrow> nat list \<Rightarrow> kvm_cpuid_entry2 list \<Rightarrow> kvm_cpuid_entry2 list option" where
  "cpuid_loop env vcpu_count apic_id [] es = Some es"
| "cpuid_loop env vcpu_count apic_id (i # is) es =
     (if i < length es
      then cpuid_loop env vcpu_count apic_id is (es[i := cpuid_entry env vcpu_count apic_id (es ! i)])
      else None)"

definition zero_cpuid :: kvm_cpuid_entry2 where
  "zero_cpuid = \<lparr>ce_function = 0, ce_index = 0, ce_flags = 0, ce_eax = 0, ce_ebx = 0, ce_ecx = 0, ce_edx = 0\<rparr>"

definition setup_cpuid :: "vcpu_env \<Rightarrow> int \<Rightarrow> int \<Rightarrow> kvm_set option" where
  "setup_cpuid env vcpu_count vcpu_id =
     (if \<not> env_malloc_cpuid env then None
      else let cpuid0 = \<lparr>nent = of_nat KVM_MAX_CPUID_ENTRIES,
                 cpuid_entries = replicate KVM_MAX_CPUID_ENTRIES zero_cpuid\<rparr>;
               cpuid = (case env_supported_cpuid env of Some c \<Rightarrow> c | None \<Rightarrow> cpuid0)
           in do { es \<leftarrow> cpuid_loop env vcpu_count (word_of_int vcpu_id) [0..<unat (nent cpuid)] (cpuid_entries cpuid);
                   Some (KVM_SET_CPUID2 (cpuid\<lparr>cpuid_entries := es\<rparr>)) })"

section \<open>The other structures\<close>

text \<open>\<open>SET_APIC_DELIVERY_MODE (x, y)\<close>, with the operands promoted to \<open>int\<close>.\<close>

definition SET_APIC_DELIVERY_MODE :: "int \<Rightarrow> int \<Rightarrow> int" where
  "SET_APIC_DELIVERY_MODE x y = (x AND NOT 0x700) OR push_bit 8 y"

text \<open>\<open>kapic.regs\<close> is an array of \<open>char\<close>, and the result passes through the \<open>char\<close> \<open>r\<close>.\<close>

definition set_lvt :: "nat \<Rightarrow> int \<Rightarrow> bytes \<Rightarrow> bytes" where
  "set_lvt reg mode k = k[reg := word_of_int (SET_APIC_DELIVERY_MODE (sint (k ! reg)) mode)]"

definition setup_lapic :: "vcpu_env \<Rightarrow> vcpu_globals \<Rightarrow> vcpu_globals" where
  "setup_lapic env v =
     (let k = (case env_get_lapic env of Some k \<Rightarrow> k | None \<Rightarrow> kapic v)
      in v\<lparr>kapic := set_lvt APIC_LVT1 APIC_MODE_NMI (set_lvt APIC_LVT0 APIC_MODE_EXTINT k)\<rparr>)"

definition setup_mpstate :: "int \<Rightarrow> vcpu_globals \<Rightarrow> vcpu_globals" where
  "setup_mpstate vcpu_id v =
     v\<lparr>vc_mp_state := (if vcpu_id = 0 then KVM_MP_STATE_RUNNABLE else KVM_MP_STATE_UNINITIALIZED)\<rparr>"

definition zero_regs :: kvm_regs where
  "zero_regs = \<lparr>rax = 0, rbx = 0, rcx = 0, rdx = 0, rsi = 0, rdi = 0, rsp = 0, rbp = 0, r8 = 0, r9 = 0,
     r10 = 0, r11 = 0, r12 = 0, r13 = 0, r14 = 0, r15 = 0, rip = 0, rflags = 0\<rparr>"

definition setup_regs :: "vcpu_globals \<Rightarrow> vcpu_globals" where
  "setup_regs v =
     v\<lparr>vc_regs := zero_regs\<lparr>rflags := 0x0002, rip := VMLINUX_START, rsp := BOOT_LOADER_SP,
                rbp := BOOT_LOADER_SP, rsi := ZERO_PAGE_START\<rparr>\<rparr>"

text \<open>\<open>code0\<close> and \<open>data0\<close> are the indeterminate contents of the locals of \<open>entry_to_kvm_seg\<close>.\<close>

definition setup_sregs ::
    "vcpu_env \<Rightarrow> kvm_segment \<Rightarrow> kvm_segment \<Rightarrow> vcpu_globals \<Rightarrow> vcpu_globals" where
  "setup_sregs env code0 data0 v =
     (let s = (case env_get_sregs env of Some s \<Rightarrow> s | None \<Rightarrow> vc_sregs v);
          code_segment = get_code_kvm_seg code0;
          data_segment = get_data_kvm_seg data0
      in v\<lparr>vc_sregs := s\<lparr>sr_cs := code_segment, sr_ds := data_segment, sr_es := data_segment,
             sr_fs := data_segment, sr_gs := data_segment, sr_ss := data_segment,
             sr_gdt := \<lparr>dt_base = BOOT_GDT_START, dt_limit = get_gdt_limit\<rparr>,
             sr_idt := \<lparr>dt_base = BOOT_IDT_START, dt_limit = get_idt_limit\<rparr>,
             efer := efer s OR (MSR_EFER_LME OR MSR_EFER_LMA),
             cr3 := PML4_START,
             cr4 := cr4 s OR X86_CR4_PAE,
             cr0 := (cr0 s OR X86_CR0_PE) OR X86_CR0_PG\<rparr>\<rparr>)"

definition setup_fpu :: "vcpu_globals \<Rightarrow> vcpu_globals" where
  "setup_fpu v =
     v\<lparr>vc_fpu := \<lparr>fpr = replicate 128 0, fcw = 0x37f, fsw = 0, ftwx = 0, last_opcode = 0, last_ip = 0,
                  last_dp = 0, xmm = replicate 256 0, mxcsr = MXCSR_DEFAULT\<rparr>\<rparr>"

definition setup_msr_entry :: "kvm_msr_entry list \<Rightarrow> nat \<Rightarrow> u32 \<Rightarrow> u64 \<Rightarrow> kvm_msr_entry list" where
  "setup_msr_entry ms n idx val = ms[n := \<lparr>msr_index = idx, msr_data = val\<rparr>]"

text \<open>The index and value of each \<open>setup_msr_entry\<close> call, in order.\<close>

definition boot_msrs :: "(u32 \<times> u64) list" where
  "boot_msrs = [(0x0174, 0), (0x0175, 0), (0x0176, 0), (0xc0000081, 0), (0xc0000082, 0), (0xc0000083, 0),
     (0xc0000084, 0), (0xc0000102, 0), (0x0010, 0), (0x01a0, 1)]"

fun setup_msr_from :: "nat \<Rightarrow> (u32 \<times> u64) list \<Rightarrow> kvm_msr_entry list \<Rightarrow> nat \<times> kvm_msr_entry list" where
  "setup_msr_from n [] ms = (n, ms)"
| "setup_msr_from n ((idx, val) # rest) ms = setup_msr_from (Suc n) rest (setup_msr_entry ms n idx val)"

definition setup_msr :: "vcpu_globals \<Rightarrow> vcpu_globals" where
  "setup_msr v = (case setup_msr_from 0 boot_msrs (msrs v) of (n, ms) \<Rightarrow>
     v\<lparr>nmsrs := of_nat n, msrs := ms\<rparr>)"

definition setup_vcpu ::
    "vcpu_env \<Rightarrow> kvm_segment \<Rightarrow> kvm_segment \<Rightarrow> int \<Rightarrow> vcpu_globals \<Rightarrow> vcpu_globals" where
  "setup_vcpu env code0 data0 vcpu_id v =
     setup_msr (setup_fpu (setup_regs (setup_sregs env code0 data0
       (setup_mpstate vcpu_id (setup_lapic env v)))))"

definition reset_vcpu :: "vcpu_env \<Rightarrow> int \<Rightarrow> int \<Rightarrow> vcpu_globals \<Rightarrow> kvm_set list option" where
  "reset_vcpu env vcpu_count vcpu_id v =
     do { c \<leftarrow> setup_cpuid env vcpu_count vcpu_id;
          Some [c, KVM_SET_LAPIC (kapic v), KVM_SET_MP_STATE (vc_mp_state v), KVM_SET_REGS (vc_regs v),
                KVM_SET_SREGS (vc_sregs v), KVM_SET_FPU (vc_fpu v), KVM_SET_MSRS (nmsrs v) (msrs v)] }"

section \<open>Properties\<close>

lemmas vcpu_consts = KVM_MAX_CPUID_ENTRIES_def X86_FEATURE_HYPERVISOR_def X86_FEATURE_TSC_DEADLINE_TIMER_def
  ECX_EPB_SHIFT_def APIC_LVT0_def APIC_LVT1_def APIC_MODE_NMI_def APIC_MODE_EXTINT_def X86_CR0_PE_def
  X86_CR0_PG_def MSR_EFER_LME_def MSR_EFER_LMA_def X86_CR4_PAE_def MXCSR_DEFAULT_def

lemma cpuid_loop_map:
  "k \<le> m \<Longrightarrow> m \<le> length es \<Longrightarrow> cpuid_loop env n a [k..<m] es =
     Some (take k es @ map (cpuid_entry env n a) (take (m - k) (drop k es)) @ drop m es)"
proof (induction "m - k" arbitrary: k es)
  case (Suc d)
  then have k: "[k..<m] = k # [Suc k..<m]" "k < length es" by (auto simp: upt_conv_Cons)
  obtain j where j: "m - k = Suc j" "m - Suc k = j" using Suc.hyps(2) by (cases "m - k") auto
  have "drop k es = es ! k # drop (Suc k) es" using k(2) by (rule Cons_nth_drop_Suc [symmetric])
  then show ?case
    using Suc.hyps(1) [of "Suc k" "es[k := cpuid_entry env n a (es ! k)]"] Suc.hyps(2) Suc.prems k j
    by (simp add: take_Suc_conv_app_nth)
qed simp

lemma cpuid_loop_overrun: "k \<le> length es \<Longrightarrow> length es < m \<Longrightarrow> cpuid_loop env n a [k..<m] es = None"
proof (induction "m - k" arbitrary: k es)
  case (Suc d)
  then have "[k..<m] = k # [Suc k..<m]" by (auto simp: upt_conv_Cons)
  then show ?case using Suc by auto
qed simp

lemma leaf_keeps [simp]:
  "ce_function (host_cpuid env f c e) = ce_function e" "ce_function (cpuid_entry_1 e) = ce_function e"
  "ce_function (cpuid_entry_4 env n e) = ce_function e" "ce_function (cpuid_entry_10 e) = ce_function e"
  "ce_function (cpuid_entry_b n a e) = ce_function e"
  "ce_index (host_cpuid env f c e) = ce_index e" "ce_index (cpuid_entry_1 e) = ce_index e"
  "ce_index (cpuid_entry_4 env n e) = ce_index e" "ce_index (cpuid_entry_10 e) = ce_index e"
  "ce_index (cpuid_entry_b n a e) = ce_index e"
  "ce_flags (host_cpuid env f c e) = ce_flags e" "ce_flags (cpuid_entry_1 e) = ce_flags e"
  "ce_flags (cpuid_entry_4 env n e) = ce_flags e" "ce_flags (cpuid_entry_10 e) = ce_flags e"
  "ce_flags (cpuid_entry_b n a e) = ce_flags e"
  by (simp_all add: cpuid_entry_1_def cpuid_entry_4_def cpuid_entry_10_def cpuid_entry_b_def
      host_cpuid_def Let_def split: prod.split)

lemma host_cpuid_overwrites:
  "host_cpuid env f c (e\<lparr>ce_eax := w\<rparr>) = host_cpuid env f c e"
  "host_cpuid env f c (host_cpuid env g d e) = host_cpuid env f c e"
  by (simp_all add: host_cpuid_def split: prod.split)

lemma leaf_idem [simp]:
  "cpuid_entry_1 (cpuid_entry_1 e) = cpuid_entry_1 e"
  "cpuid_entry_4 env n (cpuid_entry_4 env n e) = cpuid_entry_4 env n e"
  "cpuid_entry_10 (cpuid_entry_10 e) = cpuid_entry_10 e"
  "cpuid_entry_b n a (cpuid_entry_b n a e) = cpuid_entry_b n a e"
  subgoal by (simp add: cpuid_entry_1_def ac_simps)
  subgoal by (simp add: cpuid_entry_4_def Let_def host_cpuid_overwrites)
  subgoal by (simp add: cpuid_entry_10_def Let_def)
  subgoal by (simp add: cpuid_entry_b_def Let_def)
  done

lemma cpuid_entry_keeps:
  "ce_function (cpuid_entry env n a e) = ce_function e" "ce_index (cpuid_entry env n a e) = ce_index e"
  "ce_flags (cpuid_entry env n a e) = ce_flags e"
  by (simp_all add: cpuid_entry_def)

lemma cpuid_entry_idem: "cpuid_entry env n a (cpuid_entry env n a e) = cpuid_entry env n a e"
  by (simp add: cpuid_entry_def host_cpuid_overwrites and.assoc)

text \<open>Property C38. \<open>setup_cpuid\<close> gives KVM the table it reported with each valid entry adjusted once, the
  rest and the count untouched; an entry's leaf, sub-leaf and flags never change, adjusting an
  adjusted entry changes nothing, the features leaf announces a hypervisor, and a leaf no
  case names is passed on. A count beyond the 80 entries allocated, which is only reported,
  runs the loop off the array.\<close>

theorem setup_cpuid_correct:
  assumes "env_malloc_cpuid env" "env_supported_cpuid env = Some c" "length (cpuid_entries c) = 80"
  shows "setup_cpuid env vcpu_count vcpu_id =
      (if unat (nent c) \<le> 80
       then Some (KVM_SET_CPUID2 (c\<lparr>cpuid_entries :=
         map (cpuid_entry env vcpu_count (word_of_int vcpu_id)) (take (unat (nent c)) (cpuid_entries c)) @
         drop (unat (nent c)) (cpuid_entries c)\<rparr>))
       else None) \<and>
    (\<forall>e a. let e' = cpuid_entry env vcpu_count a e in
       ce_function e' = ce_function e \<and> ce_index e' = ce_index e \<and> ce_flags e' = ce_flags e \<and>
       cpuid_entry env vcpu_count a e' = e' \<and>
       (ce_function e = 1 \<longrightarrow> ce_index e = 0 \<longrightarrow> bit (ce_ecx e') 31 \<and> bit (ce_ecx e') 24) \<and>
       (ce_function e \<notin> {1, 2, 4, 6, 10, 11, 0x80000002, 0x80000003, 0x80000004} \<longrightarrow> e' = e))"
proof (intro conjI allI)
  show "setup_cpuid env vcpu_count vcpu_id =
      (if unat (nent c) \<le> 80
       then Some (KVM_SET_CPUID2 (c\<lparr>cpuid_entries :=
         map (cpuid_entry env vcpu_count (word_of_int vcpu_id)) (take (unat (nent c)) (cpuid_entries c)) @
         drop (unat (nent c)) (cpuid_entries c)\<rparr>))
       else None)"
    using assms cpuid_loop_map [of 0 "unat (nent c)" "cpuid_entries c" env vcpu_count "word_of_int vcpu_id"]
      cpuid_loop_overrun [of 0 "cpuid_entries c" "unat (nent c)" env vcpu_count "word_of_int vcpu_id"]
    by (simp add: setup_cpuid_def Let_def)
  fix e a
  have "ce_function e = 1 \<Longrightarrow> ce_index e = 0 \<Longrightarrow>
      bit (ce_ecx (cpuid_entry env vcpu_count a e)) 31 \<and> bit (ce_ecx (cpuid_entry env vcpu_count a e)) 24"
    by (simp add: cpuid_entry_def cpuid_entry_1_def vcpu_consts bit_simps)
  moreover have "ce_function e \<notin> {1, 2, 4, 6, 10, 11, 0x80000002, 0x80000003, 0x80000004} \<Longrightarrow>
      cpuid_entry env vcpu_count a e = e"
    by (simp add: cpuid_entry_def)
  ultimately show "let e' = cpuid_entry env vcpu_count a e in
       ce_function e' = ce_function e \<and> ce_index e' = ce_index e \<and> ce_flags e' = ce_flags e \<and>
       cpuid_entry env vcpu_count a e' = e' \<and>
       (ce_function e = 1 \<longrightarrow> ce_index e = 0 \<longrightarrow> bit (ce_ecx e') 31 \<and> bit (ce_ecx e') 24) \<and>
       (ce_function e \<notin> {1, 2, 4, 6, 10, 11, 0x80000002, 0x80000003, 0x80000004} \<longrightarrow> e' = e)"
    by (simp add: Let_def cpuid_entry_keeps cpuid_entry_idem)
qed

definition sample_cpuid :: kvm_cpuid2 where
  "sample_cpuid = \<lparr>nent = 1, cpuid_entries = zero_cpuid\<lparr>ce_function := 1\<rparr> # replicate 79 zero_cpuid\<rparr>"

definition zero_seg :: kvm_segment where
  "zero_seg = \<lparr>seg_base = 0, seg_limit = 0, seg_selector = 0, seg_type = 0, seg_present = 0, seg_dpl = 0,
     seg_db = 0, seg_s = 0, seg_l = 0, seg_g = 0, seg_avl = 0, seg_unusable = 0, seg_padding = 0\<rparr>"

text \<open>The registers of a processor after reset, as KVM reports them.\<close>

definition reset_sregs :: kvm_sregs where
  "reset_sregs = \<lparr>sr_cs = zero_seg, sr_ds = zero_seg, sr_es = zero_seg, sr_fs = zero_seg, sr_gs = zero_seg,
     sr_ss = zero_seg, sr_tr = zero_seg, sr_ldt = zero_seg, sr_gdt = \<lparr>dt_base = 0, dt_limit = 0xffff\<rparr>,
     sr_idt = \<lparr>dt_base = 0, dt_limit = 0xffff\<rparr>, cr0 = 0x60000010, cr2 = 0, cr3 = 0, cr4 = 0, cr8 = 0,
     efer = 0, apic_base = 0xfee00900\<rparr>"

definition sample_vcpu_env :: vcpu_env where
  "sample_vcpu_env = \<lparr>env_cpuid = (\<lambda>_ _. (0, 0, 0, 0)), env_get_lapic = Some (replicate 1024 0),
     env_get_sregs = Some reset_sregs, env_supported_cpuid = Some sample_cpuid, env_malloc_cpuid = True\<rparr>"

text \<open>The static variables at program start.\<close>

definition zero_sregs :: kvm_sregs where
  "zero_sregs = \<lparr>sr_cs = zero_seg, sr_ds = zero_seg, sr_es = zero_seg, sr_fs = zero_seg, sr_gs = zero_seg,
     sr_ss = zero_seg, sr_tr = zero_seg, sr_ldt = zero_seg, sr_gdt = \<lparr>dt_base = 0, dt_limit = 0\<rparr>,
     sr_idt = \<lparr>dt_base = 0, dt_limit = 0\<rparr>, cr0 = 0, cr2 = 0, cr3 = 0, cr4 = 0, cr8 = 0, efer = 0, apic_base = 0\<rparr>"

definition vcpu_0 :: vcpu_globals where
  "vcpu_0 = \<lparr>kapic = replicate 1024 0, vc_mp_state = KVM_MP_STATE_RUNNABLE, vc_regs = zero_regs,
     vc_sregs = zero_sregs,
     vc_fpu = \<lparr>fpr = replicate 128 0, fcw = 0, fsw = 0, ftwx = 0, last_opcode = 0, last_ip = 0, last_dp = 0,
       xmm = replicate 256 0, mxcsr = 0\<rparr>,
     nmsrs = 0, msrs = replicate 100 \<lparr>msr_index = 0, msr_data = 0\<rparr>\<rparr>"

theorem setup_cpuid_correct_witness:
  "\<exists>c. setup_cpuid sample_vcpu_env 1 0 = Some (KVM_SET_CPUID2 c) \<and> nent c = 1"
  using setup_cpuid_correct [of sample_vcpu_env sample_cpuid 1 0]
  by (simp add: sample_vcpu_env_def sample_cpuid_def)

lemma set_lvt_noop: "set_lvt reg mode k = k"
proof -
  have "(word_of_int (SET_APIC_DELIVERY_MODE (sint b) mode) :: u8) = b" for b :: u8
  proof (rule bit_word_eqI)
    fix n
    assume n: "n < LENGTH(8)"
    have "\<not> bit (push_bit 8 7 :: int) n" using n unfolding bit_push_bit_iff by simp
    then have "\<not> bit (0x700 :: int) n" by simp
    then show "bit (word_of_int (SET_APIC_DELIVERY_MODE (sint b) mode) :: u8) n = bit b n"
      using n by (auto simp: SET_APIC_DELIVERY_MODE_def bit_simps)
  qed
  then show ?thesis by (simp add: set_lvt_def)
qed

text \<open>\<open>setup_lapic\<close> means to route LINT0 as ExtINT and LINT1 as NMI, but the delivery mode is
  bits 8 to 10 of the register and the value passes through a \<open>char\<close>: the local APIC state that
  is handed back to KVM is the one KVM reported, unchanged.\<close>

theorem setup_lapic_noop:
  "kapic (setup_lapic env v) = (case env_get_lapic env of Some k \<Rightarrow> k | None \<Rightarrow> kapic v)"
  by (simp add: setup_lapic_def set_lvt_noop)

lemma setup_msr_from_eq:
  "n + length xs \<le> length ms \<Longrightarrow> setup_msr_from n xs ms =
     (n + length xs, take n ms @ map (\<lambda>(i, d). \<lparr>msr_index = i, msr_data = d\<rparr>) xs @ drop (n + length xs) ms)"
proof (induction xs arbitrary: n ms)
  case (Cons x xs)
  then show ?case by (cases x) (simp add: setup_msr_entry_def take_Suc_conv_app_nth)
qed simp

lemma setup_msr_boot:
  assumes "length (msrs v) = 100"
  shows "setup_msr v = v\<lparr>nmsrs := 10,
    msrs := map (\<lambda>(i, d). \<lparr>msr_index = i, msr_data = d\<rparr>) boot_msrs @ drop 10 (msrs v)\<rparr>"
proof -
  have "length boot_msrs = 10" by (simp add: boot_msrs_def)
  then show ?thesis using assms by (simp add: setup_msr_def setup_msr_from_eq)
qed

text \<open>What the 64-bit entry point of a Linux kernel asks of the processor, relative to the registers
  \<open>s0\<close> that KVM reported: no control bit but the required ones changes.\<close>

definition long_mode :: "kvm_sregs \<Rightarrow> kvm_sregs \<Rightarrow> bool" where
  "long_mode s0 s \<longleftrightarrow>
     (\<forall>i. bit (cr0 s) i \<longleftrightarrow> bit (cr0 s0) i \<or> i = 0 \<or> i = 31) \<and>
     (\<forall>i. bit (cr4 s) i \<longleftrightarrow> bit (cr4 s0) i \<or> i = 5) \<and>
     (\<forall>i. bit (efer s) i \<longleftrightarrow> bit (efer s0) i \<or> i = 8 \<or> i = 10)"

definition flat_code :: "kvm_segment \<Rightarrow> bool" where
  "flat_code d \<longleftrightarrow> seg_present d = 1 \<and> seg_s d = 1 \<and> seg_l d = 1 \<and> seg_db d = 0 \<and> seg_dpl d = 0 \<and>
     seg_base d = 0 \<and> bit (seg_type d) 3"

definition flat_data :: "kvm_segment \<Rightarrow> bool" where
  "flat_data d \<longleftrightarrow> seg_present d = 1 \<and> seg_s d = 1 \<and> seg_dpl d = 0 \<and> seg_base d = 0 \<and> seg_limit d = 0xfffff \<and>
     seg_g d = 1 \<and> \<not> bit (seg_type d) 3 \<and> bit (seg_type d) 1"

lemma boot_segs: "flat_code (get_code_kvm_seg x)" "flat_data (get_data_kvm_seg x)"
  by (simp_all add: flat_code_def flat_data_def get_code_kvm_seg_def get_data_kvm_seg_def entry_to_kvm_seg_def bit_simps)

lemma bit_pow2: "bit (2 ^ n :: u64) i \<longleftrightarrow> i = n \<and> n < 64"
  by (auto simp: bit_exp_iff possible_bit_def)

lemma control_bits:
  "X86_CR0_PE = 2 ^ 0" "X86_CR0_PG = 2 ^ 31" "MSR_EFER_LME = 2 ^ 8" "MSR_EFER_LMA = 2 ^ 10" "X86_CR4_PAE = 2 ^ 5"
  by (simp_all add: vcpu_consts)

lemma control_bit:
  "bit X86_CR0_PE i \<longleftrightarrow> i = 0" "bit X86_CR0_PG i \<longleftrightarrow> i = 31" "bit MSR_EFER_LME i \<longleftrightarrow> i = 8"
  "bit MSR_EFER_LMA i \<longleftrightarrow> i = 10" "bit X86_CR4_PAE i \<longleftrightarrow> i = 5"
  unfolding control_bits bit_pow2 by auto

lemma setup_sregs_long_mode:
  assumes "env_get_sregs env = Some s0"
  shows "long_mode s0 (vc_sregs (setup_sregs env code0 data0 v))"
  using assms by (auto simp: long_mode_def setup_sregs_def Let_def bit_or_iff control_bit)

lemma setup_vcpu_fields:
  assumes "length (msrs v) = 100"
  shows "vc_regs (setup_vcpu env code0 data0 i v) = zero_regs\<lparr>rflags := 0x0002, rip := VMLINUX_START, rsp := BOOT_LOADER_SP,
      rbp := BOOT_LOADER_SP, rsi := ZERO_PAGE_START\<rparr>"
    "vc_mp_state (setup_vcpu env code0 data0 0 v) = KVM_MP_STATE_RUNNABLE"
    "nmsrs (setup_vcpu env code0 data0 i v) = 10"
    "msrs (setup_vcpu env code0 data0 i v) = map (\<lambda>(i, d). \<lparr>msr_index = i, msr_data = d\<rparr>) boot_msrs @ drop 10 (msrs v)"
    "vc_sregs (setup_vcpu env code0 data0 i v) = vc_sregs (setup_sregs env code0 data0 (setup_mpstate i (setup_lapic env v)))"
  using assms
  by (simp_all add: setup_vcpu_def setup_msr_boot setup_fpu_def setup_regs_def setup_sregs_def setup_mpstate_def
      setup_lapic_def Let_def)

text \<open>Property C10. With the answers KVM documents, \<open>setup_vcpu\<close> and \<open>reset_vcpu\<close> give KVM the seven
  structures in a fixed order, CPUID first, and the boot processor they describe is in 64-bit mode
  as the Linux boot protocol asks: paging, protection, PAE and long mode are on and no other
  control bit differs from what KVM reported; code runs through a present 64-bit code segment and
  flat data segments; the descriptor tables are the ones \<open>setup_gdt\<close> and \<open>setup_idt\<close> write; execution
  starts at the kernel with the zero page in \<open>rsi\<close> and interrupts off.\<close>

theorem vcpu_boot_state:
  assumes "env_malloc_cpuid env" "env_supported_cpuid env = Some c" "length (cpuid_entries c) = 80"
    and "unat (nent c) \<le> 80" "env_get_sregs env = Some s0" "length (msrs v) = 100"
  shows "\<exists>es k r s f ms. reset_vcpu env vcpu_count 0 (setup_vcpu env code0 data0 0 v) =
      Some [KVM_SET_CPUID2 (c\<lparr>cpuid_entries := es\<rparr>), KVM_SET_LAPIC k, KVM_SET_MP_STATE KVM_MP_STATE_RUNNABLE,
            KVM_SET_REGS r, KVM_SET_SREGS s, KVM_SET_FPU f, KVM_SET_MSRS 10 ms] \<and>
    map (\<lambda>m. (msr_index m, msr_data m)) (take 10 ms) = boot_msrs \<and>
    long_mode s0 s \<and> flat_code (sr_cs s) \<and> list_all flat_data [sr_ds s, sr_es s, sr_fs s, sr_gs s, sr_ss s] \<and>
    cr3 s = PML4_START \<and> sr_tr s = sr_tr s0 \<and> apic_base s = apic_base s0 \<and>
    sr_gdt s = \<lparr>dt_base = BOOT_GDT_START, dt_limit = get_gdt_limit\<rparr> \<and>
    sr_idt s = \<lparr>dt_base = BOOT_IDT_START, dt_limit = get_idt_limit\<rparr> \<and>
    rip r = VMLINUX_START \<and> rsi r = ZERO_PAGE_START \<and> rsp r = BOOT_LOADER_SP \<and> \<not> bit (rflags r) 9"
proof -
  let ?v = "setup_vcpu env code0 data0 0 v"
  note fields = setup_vcpu_fields [OF assms(6)]
  obtain es where "setup_cpuid env vcpu_count 0 = Some (KVM_SET_CPUID2 (c\<lparr>cpuid_entries := es\<rparr>))"
    using assms(1-4) cpuid_loop_map [of 0 "unat (nent c)" "cpuid_entries c" env vcpu_count 0]
    by (simp add: setup_cpuid_def Let_def)
  then have "reset_vcpu env vcpu_count 0 ?v =
      Some [KVM_SET_CPUID2 (c\<lparr>cpuid_entries := es\<rparr>), KVM_SET_LAPIC (kapic ?v), KVM_SET_MP_STATE KVM_MP_STATE_RUNNABLE,
            KVM_SET_REGS (vc_regs ?v), KVM_SET_SREGS (vc_sregs ?v), KVM_SET_FPU (vc_fpu ?v), KVM_SET_MSRS 10 (msrs ?v)]"
    by (simp add: reset_vcpu_def fields(2,3))
  moreover have "map (\<lambda>m. (msr_index m, msr_data m)) (take 10 (msrs ?v)) = boot_msrs"
    unfolding fields(4) by (simp add: boot_msrs_def)
  moreover have "long_mode s0 (vc_sregs ?v)" unfolding fields(5) by (rule setup_sregs_long_mode [OF assms(5)])
  moreover have "flat_code (sr_cs (vc_sregs ?v))"
    "list_all flat_data [sr_ds (vc_sregs ?v), sr_es (vc_sregs ?v), sr_fs (vc_sregs ?v), sr_gs (vc_sregs ?v), sr_ss (vc_sregs ?v)]"
    "cr3 (vc_sregs ?v) = PML4_START" "sr_tr (vc_sregs ?v) = sr_tr s0" "apic_base (vc_sregs ?v) = apic_base s0"
    "sr_gdt (vc_sregs ?v) = \<lparr>dt_base = BOOT_GDT_START, dt_limit = get_gdt_limit\<rparr>"
    "sr_idt (vc_sregs ?v) = \<lparr>dt_base = BOOT_IDT_START, dt_limit = get_idt_limit\<rparr>"
    unfolding fields(5) by (simp_all add: setup_sregs_def Let_def assms(5) boot_segs)
  moreover have "rip (vc_regs ?v) = VMLINUX_START" "rsi (vc_regs ?v) = ZERO_PAGE_START"
    "rsp (vc_regs ?v) = BOOT_LOADER_SP" "\<not> bit (rflags (vc_regs ?v)) 9"
    unfolding fields(1) by (simp_all add: bit_simps)
  ultimately show ?thesis by blast
qed

theorem vcpu_boot_state_witness:
  "\<exists>es k r s f ms. reset_vcpu sample_vcpu_env 1 0 (setup_vcpu sample_vcpu_env zero_seg zero_seg 0 vcpu_0) =
      Some [KVM_SET_CPUID2 (sample_cpuid\<lparr>cpuid_entries := es\<rparr>), KVM_SET_LAPIC k,
            KVM_SET_MP_STATE KVM_MP_STATE_RUNNABLE,
            KVM_SET_REGS r, KVM_SET_SREGS s, KVM_SET_FPU f, KVM_SET_MSRS 10 ms] \<and>
     long_mode reset_sregs s \<and> rip r = VMLINUX_START"
proof -
  have "env_malloc_cpuid sample_vcpu_env" "env_supported_cpuid sample_vcpu_env = Some sample_cpuid"
    "length (cpuid_entries sample_cpuid) = 80" "unat (nent sample_cpuid) \<le> 80"
    "env_get_sregs sample_vcpu_env = Some reset_sregs" "length (msrs vcpu_0) = 100"
    by (simp_all add: sample_vcpu_env_def sample_cpuid_def vcpu_0_def)
  from vcpu_boot_state [OF this, of 1 zero_seg zero_seg] show ?thesis by blast
qed

end
