(* ===== verification/Boot.thy ===== *)
theory Boot
  imports Pagetable Mptable Bootparams Vcpu
begin

text \<open>
  \<open>init_linux_boot\<close> of \<open>src/main.c\<close>: everything the guest finds in memory when it starts. The
  parts are written one after the other into the same memory; the property is that they do not
  disturb one another, so that all of them hold together at the end, and that the processor
  state of \<open>Vcpu\<close> fetches its first instruction from the kernel image.
\<close>

definition VCPU_COUNT :: int where "VCPU_COUNT = 1"
definition VCPU_ID :: int where "VCPU_ID = 0"

text \<open>\<open>Inl\<close> is the exit of the program when an image cannot be opened.\<close>

definition init_linux_boot :: "files \<Rightarrow> string \<Rightarrow> string \<Rightarrow> boot_state \<Rightarrow> (int + boot_state) option" where
  "init_linux_boot fs kernel_file initrd_file b =
     do { st \<leftarrow> setup_pagetable (b_mem b);
          st \<leftarrow> setup_mptable st VCPU_COUNT;
          st \<leftarrow> setup_cmdline st;
          r \<leftarrow> setup_boot_params fs kernel_file initrd_file (b\<lparr>b_mem := st\<rparr>);
          case r of Inl c \<Rightarrow> Some (Inl c) | Inr b \<Rightarrow> do {
          st \<leftarrow> setup_gdt (b_mem b);
          st \<leftarrow> setup_idt st;
          Some (Inr (b\<lparr>b_mem := st\<rparr>)) } }"

section \<open>Properties\<close>

definition mp_image :: bytes where
  "mp_image = mpf_image @ table_image 1 @ concat (mp_entries 1)"

lemma length_mp_image: "length mp_image = 240"
  using length_mp_entries [of 1] by (simp add: mp_image_def length_mpf_image length_table_image)

text \<open>The first three steps, in memory that is zero at the end of the command line.\<close>

lemma boot_low_memory:
  assumes "guest_ok st 0 0x100000" "g_rd st 0x20045 1 = Some [0]"
  shows "\<exists>s1 s2 s3. setup_pagetable st = Some s1 \<and> setup_mptable s1 1 = Some s2 \<and> setup_cmdline s2 = Some s3 \<and>
    tables_hold s3 \<and> holds s3 0x9fc00 mp_image \<and> holds s3 0x20000 (CMDLINE @ [0]) \<and> frame st (0x9000, 0xf7000) s3"
proof -
  have sub: "guest_ok s b k" if "guest_ok s 0 0x100000" "b + k \<le> 0x100000" for s b k
    using guest.ok_sub [OF that(1), of b k] that(2) by simp
  obtain s1 where s1: "setup_pagetable st = Some s1" "tables_hold s1" "frame st (0x9000, 0x3000) s1"
    using setup_pagetable_holds sub [OF assms(1), of "0x9000" "0x3000"] by auto
  note ok1 = frame_guest_ok [OF s1(3) assms(1)]
  obtain s2 where s2: "setup_mptable s1 1 = Some s2" "holds s2 0x9fc00 mp_image" "frame s1 (0x9fc00, 240) s2"
    using setup_mptable_correct [of s1 1] sub [OF ok1, of "0x9fc00" 240] by (auto simp: mp_image_def)
  note ok2 = frame_guest_ok [OF s2(3) ok1]
  obtain s3 where s3: "setup_cmdline s2 = Some s3" "holds s3 0x20000 CMDLINE" "frame s2 (0x20000, 69) s3"
    "g_rd s3 0x20045 1 = g_rd s2 0x20045 1"
    using setup_cmdline_correct sub [OF ok2, of "0x20000" 70] by auto
  note ok3 = frame_guest_ok [OF s3(3) ok2]
  have "tables_hold s3"
    by (rule tables_frame [OF tables_frame [OF s1(2) s2(3)] s3(3)]) auto
  moreover have "holds s3 0x9fc00 mp_image"
    by (rule frame_holds [OF s3(3) s2(2)]) (simp add: apart_def length_mp_image)
  moreover have "g_rd s3 0x20045 1 = Some [0]"
    using s3(4) s2(3) s1(3) sub [OF assms(1)] sub [OF ok1] assms(2) by (simp add: frame_def apart_def)
  then have "holds s3 0x20000 (CMDLINE @ [0])"
    using s3(2) sub [OF ok3] by (intro holds_append) (auto simp: holds_def length_CMDLINE)
  moreover have "frame st (0x9000, 0xf7000) s3"
    by (rule frame_trans [OF frame_mono [OF s1(3)] frame_trans [OF frame_mono [OF s2(3)] frame_mono [OF s3(3)]]]) auto
  ultimately show ?thesis using s1(1) s2(1) s3(1) by blast
qed

text \<open>The ranges the whole of \<open>init_linux_boot\<close> relies on, in one description of the result.\<close>

definition loaded_image :: "memory \<Rightarrow> bytes \<Rightarrow> bytes \<Rightarrow> nat \<Rightarrow> u64 \<Rightarrow> bool" where
  "loaded_image st vmlinux initrd addr ram_end \<longleftrightarrow>
     tables_hold st \<and> holds st 0x9fc00 mp_image \<and>
     holds st 0x20000 (CMDLINE @ [0]) \<and> holds st 0x1000000 vmlinux \<and> holds st addr initrd \<and>
     e820_read st = Some (e820_list ram_end) \<and>
     holds st 0x7218 (le_bytes 4 (of_nat addr :: u32)) \<and>
     holds st 0x721c (le_bytes 4 (of_nat (length initrd) :: u32)) \<and>
     holds st 0x71fe (le_bytes 2 BOOT_FLAG) \<and> holds st 0x7202 (le_bytes 4 HDRS) \<and>
     holds st 0x7210 [UNDEFINED_ID] \<and> holds st 0x7228 (le_bytes 4 (ucast CMDLINE_START :: u32)) \<and>
     holds st 0x7238 (le_bytes 4 (of_nat (length CMDLINE) :: u32))"

definition boot_image :: "memory \<Rightarrow> bytes \<Rightarrow> bytes \<Rightarrow> nat \<Rightarrow> u64 \<Rightarrow> bool" where
  "boot_image st vmlinux initrd addr ram_end \<longleftrightarrow>
     loaded_image st vmlinux initrd addr ram_end \<and> holds st 0x500 boot_tables"

lemma e820_read_frame:
  assumes "frame st (a, n) st'" "a + n \<le> 0x7000 \<or> 0x8000 \<le> a" "guest_ok st 0x7000 0x1000"
    and "e820_read st = Some es" "length es \<le> 128"
  shows "e820_read st' = Some es"
proof -
  have same: "g_rd st' b k = g_rd st b k" if "0x7000 \<le> b" "b + k \<le> 0x8000" for b k
    using assms(1,2) guest.ok_sub [OF assms(3), of b k] that by (auto simp: frame_def apart_def)
  have entries: "e820_read_entries st' i k = e820_read_entries st i k" if "i + k \<le> 128" for i k
    using that by (induction k arbitrary: i) (simp_all add: same)
  have len: "length xs = k" if "e820_read_entries st i k = Some xs" for xs i k
    using that by (induction k arbitrary: i xs) (auto split: Option.bind_splits)
  obtain c where c: "g_rd st 0x71e8 1 = Some c" "e820_read_entries st 0 (unat (hd c)) = Some es"
    using assms(4) by (auto simp: e820_read_def split: Option.bind_splits)
  then show ?thesis using same [of "0x71e8" 1] entries [of 0 "unat (hd c)"] len [OF c(2)] assms(5)
    by (simp add: e820_read_def)
qed

lemma tables_keep:
  assumes "tables_hold st" "guest_ok st 0x9000 0x3000" "guest_ok st' 0x9000 0x3000"
    and "\<And>b n. guest_ok st b n \<Longrightarrow> 0x9000 \<le> b \<Longrightarrow> b + n \<le> 0xc000 \<Longrightarrow> g_rd st' b n = g_rd st b n"
  shows "tables_hold st'"
  unfolding tables_hold_def
proof
  fix w
  assume w: "w \<in> set table_writes"
  then have "0x9000 \<le> fst w" "fst w + length (snd w) \<le> 0xc000"
    using table_writes_extent [OF w] by (auto simp: extent_def)
  then show "holds st' (fst w) (snd w)"
    using assms w guest.ok_sub [OF assms(3), of "fst w" "length (snd w)"] by (auto simp: tables_hold_def holds_def)
qed

text \<open>The descriptor tables, written last, lie below everything else.\<close>

lemma boot_tables_last:
  assumes "loaded_image st vmlinux initrd addr ram_end" "guest_ok st 0 0x100000" "0x7000 \<le> addr"
  shows "\<exists>s6 s7. setup_gdt st = Some s6 \<and> setup_idt s6 = Some s7 \<and> boot_image s7 vmlinux initrd addr ram_end \<and> frame st (0x500, 40) s7"
proof -
  have sub: "guest_ok st b k" if "b + k \<le> 0x100000" for b k
    using guest.ok_sub [OF assms(2), of b k] that by simp
  obtain s6 s7 where s7: "setup_gdt st = Some s6" "setup_idt s6 = Some s7" "holds s7 0x500 boot_tables" "frame st (0x500, 40) s7"
    using setup_gdt_idt_holds [of st] sub by auto
  have keep: "holds s7 b xs" if "holds st b xs" "0x7000 \<le> b" for b xs
    by (rule frame_holds [OF s7(4) that(1)]) (use that(2) in \<open>simp add: apart_def\<close>)
  have "tables_hold s7" by (rule tables_frame [OF _ s7(4)]) (use assms(1) in \<open>simp_all add: loaded_image_def\<close>)
  moreover have "e820_read s7 = Some (e820_list ram_end)"
    by (rule e820_read_frame [OF s7(4) _ sub])
      (use assms(1) in \<open>auto simp: loaded_image_def e820_list_def\<close>)
  ultimately have "loaded_image s7 vmlinux initrd addr ram_end"
    using assms(1,3) keep unfolding loaded_image_def by auto
  then show ?thesis using s7 unfolding boot_image_def by blast
qed

lemma init_linux_boot_image:
  fixes st :: memory and vmlinux initrd :: bytes
  defines "addr \<equiv> (initrd_top st - length initrd) div 4096 * 4096"
  assumes ram: "guest_ok st 0 (initrd_top st)" "g_rd st 0x20045 1 = Some [0]"
    and fs: "fs kernel_file = Some vmlinux" "fs initrd_file = Some initrd" "fs_ok st vmlinux initrd"
  shows "\<exists>st'. init_linux_boot fs kernel_file initrd_file \<lparr>b_mem = st, InitrdSize = z, InitrdAddr = a\<rparr> =
      Some (Inr \<lparr>b_mem = st', InitrdSize = of_nat (length initrd), InitrdAddr = of_nat addr\<rparr>) \<and>
    boot_image st' vmlinux initrd addr (get_ram_end st) \<and> ram_keeps st st'"
proof -
  have top: "0x1000000 \<le> initrd_top st" using fs(3) by (simp add: fs_ok_def)
  have "guest_ok st 0 0x100000" using guest.ok_sub [OF ram(1)] top by simp
  then obtain s1 s2 s3 where s3: "setup_pagetable st = Some s1" "setup_mptable s1 1 = Some s2" "setup_cmdline s2 = Some s3"
    "tables_hold s3" "holds s3 0x9fc00 mp_image" "holds s3 0x20000 (CMDLINE @ [0])" "frame st (0x9000, 0xf7000) s3"
    using boot_low_memory [OF _ ram(2)] by auto
  note ok3 = frame_guest_ok [OF s3(7) ram(1)]
  have top3: "initrd_top s3 = initrd_top st" "get_ram_end s3 = get_ram_end st"
    using frame_ram_end [OF s3(7)] by (simp_all add: initrd_top_def)
  obtain s5 where s5: "setup_boot_params fs kernel_file initrd_file \<lparr>b_mem = s3, InitrdSize = z, InitrdAddr = a\<rparr> =
      Some (Inr \<lparr>b_mem = s5, InitrdSize = of_nat (length initrd), InitrdAddr = of_nat addr\<rparr>)"
    and img: "holds s5 0x1000000 vmlinux" "holds s5 addr initrd" "0x1000000 + length vmlinux \<le> addr"
      "e820_read s5 = Some (e820_list (get_ram_end st))"
    and hdr: "holds s5 0x7218 (le_bytes 4 (of_nat addr :: u32))" "holds s5 0x721c (le_bytes 4 (of_nat (length initrd) :: u32))"
      "holds s5 0x71fe (le_bytes 2 BOOT_FLAG)" "holds s5 0x7202 (le_bytes 4 HDRS)" "holds s5 0x7210 [UNDEFINED_ID]"
      "holds s5 0x7228 (le_bytes 4 (ucast CMDLINE_START :: u32))" "holds s5 0x7238 (le_bytes 4 (of_nat (length CMDLINE) :: u32))"
    and keeps: "ram_keeps s3 s5"
    and ok: "\<forall>b n. guest_ok s3 b n \<longrightarrow> guest_ok s5 b n"
    and keep: "\<forall>b n. guest_ok s3 b n \<longrightarrow> apart (0x7000, 0x1000) (b, n) \<longrightarrow> apart (0x1000000, length vmlinux) (b, n) \<longrightarrow>
       apart (addr, length initrd) (b, n) \<longrightarrow> g_rd s5 b n = g_rd s3 b n"
    using setup_boot_params_correct [of s3 fs kernel_file vmlinux initrd_file initrd z a] ok3 fs
    unfolding addr_def top3 fs_ok_def by metis
  have low: "g_rd s5 b n = g_rd s3 b n" if "guest_ok s3 b n" "0x8000 \<le> b" "b + n \<le> 0x1000000" for b n
    using keep that img(3) by (auto simp: apart_def)
  have ok5: "guest_ok s5 0 (initrd_top st)" using ok ok3 by blast
  have sub: "guest_ok s b k" if "guest_ok s 0 (initrd_top st)" "b + k \<le> 0x1000000" for s b k
    using guest.ok_sub [OF that(1), of b k] that(2) top by simp
  have t5: "tables_hold s5"
    by (rule tables_keep [OF s3(4)]) (use sub [OF ok3] sub [OF ok5] low in auto)
  have h5: "holds s5 0x9fc00 mp_image" "holds s5 0x20000 (CMDLINE @ [0])"
    using s3(5,6) low ok by (simp_all add: holds_def length_mp_image length_CMDLINE)
  have "loaded_image s5 vmlinux initrd addr (get_ram_end st)"
    using t5 h5 img hdr unfolding loaded_image_def by blast
  then obtain s6 s7 where s7: "setup_gdt s5 = Some s6" "setup_idt s6 = Some s7"
    "boot_image s7 vmlinux initrd addr (get_ram_end st)" "frame s5 (0x500, 40) s7"
    using boot_tables_last [of s5 vmlinux initrd addr "get_ram_end st"] sub [OF ok5, of 0 "0x100000"] img(3) by auto
  then show ?thesis
    using s3(1-3,7) s5 keeps by (intro exI [of _ s7]) (auto simp: init_linux_boot_def VCPU_COUNT_def frame_def intro: ram_keeps_trans)
qed

text \<open>The same from the memory \<open>init_memory_map\<close> leaves.\<close>

lemma ram_boots:
  assumes "mmap_contract env" "init_memory_map env RAM_SIZE memory_0 = Some (None, st)"
    and "fs kernel_file = Some vmlinux" "fs initrd_file = Some initrd" "vmlinux \<noteq> []" "initrd \<noteq> []"
    and "0x1000000 + length vmlinux + length initrd + 0xfff \<le> unat RAM_SIZE"
  shows "\<exists>st' addr. init_linux_boot fs kernel_file initrd_file \<lparr>b_mem = st, InitrdSize = z, InitrdAddr = a\<rparr> =
      Some (Inr \<lparr>b_mem = st', InitrdSize = of_nat (length initrd), InitrdAddr = of_nat addr\<rparr>) \<and>
    boot_image st' vmlinux initrd addr RAM_SIZE \<and>
    addr mod 4096 = 0 \<and> 0x1000000 + length vmlinux \<le> addr \<and> addr + length initrd \<le> unat RAM_SIZE \<and>
    ram_keeps st st' \<and> guest_ok st' 0 (unat RAM_SIZE)"
proof -
  have ram: "RAM_SIZE \<le> 0xC0000000" "0 < RAM_SIZE" "unat RAM_SIZE = 0x20000000" by (simp_all add: const_simps)
  note st = init_low_ram [OF assms(1) ram(2,1) assms(2)]
  have re: "get_ram_end st = RAM_SIZE" using st(2) ram(1) by (simp add: get_ram_end_def)
  then have top: "initrd_top st = 0x20000000" by (simp add: initrd_top_def ram(3))
  have fs: "fs_ok st vmlinux initrd" using assms(5-7) by (simp add: fs_ok_def top ram(3))
  let ?addr = "(initrd_top st - length initrd) div 4096 * 4096"
  obtain st' where "init_linux_boot fs kernel_file initrd_file \<lparr>b_mem = st, InitrdSize = z, InitrdAddr = a\<rparr> =
      Some (Inr \<lparr>b_mem = st', InitrdSize = of_nat (length initrd), InitrdAddr = of_nat ?addr\<rparr>)"
    "boot_image st' vmlinux initrd ?addr RAM_SIZE" "ram_keeps st st'"
    using init_linux_boot_image [OF _ _ assms(3,4) fs, of z a] st(3) st(4) [of "0x20045" 1] re top ram(3) by auto
  then show ?thesis using initrd_above_kernel [OF fs] top ram(3) st(3) ram_keeps_guest_ok [of st st']
    by (intro exI [of _ st'] exI [of _ ?addr]) simp
qed

definition sample_fs :: files where
  "sample_fs = [''k'' \<mapsto> [1, 2, 3], ''i'' \<mapsto> [4, 5]]"

text \<open>Property C1. Starting from the memory \<open>main\<close> sets up, and with images that fit, \<open>init_linux_boot\<close> leaves all
  its parts in memory together: the page tables translate the first GiB to itself, the kernel,
  the RAM disk above it on a page boundary, the zero page with a memory map of the RAM, the MP
  tables, the null-terminated command line and the descriptor tables. The processor set up by
  \<open>setup_vcpu\<close> walks these page tables from its instruction pointer to the kernel image, finds the
  zero page at \<open>rsi\<close> and its descriptor tables at the limits it has loaded.\<close>

theorem linux_boot_image:
  assumes "mmap_contract env" "init_memory_map env RAM_SIZE memory_0 = Some (None, st)"
    and "fs kernel_file = Some vmlinux" "fs initrd_file = Some initrd" "vmlinux \<noteq> []" "initrd \<noteq> []"
    and "0x1000000 + length vmlinux + length initrd + 0xfff \<le> unat RAM_SIZE"
  shows "\<exists>st' addr. init_linux_boot fs kernel_file initrd_file \<lparr>b_mem = st, InitrdSize = z, InitrdAddr = a\<rparr> =
      Some (Inr \<lparr>b_mem = st', InitrdSize = of_nat (length initrd), InitrdAddr = of_nat addr\<rparr>) \<and>
    boot_image st' vmlinux initrd addr RAM_SIZE \<and>
    addr mod 4096 = 0 \<and> 0x1000000 + length vmlinux \<le> addr \<and> addr + length initrd \<le> unat RAM_SIZE \<and>
    (\<forall>va < 2 ^ 30. page_walk st' PML4_START va = Some va) \<and>
    (\<forall>venv c0 d0 v. length (msrs v) = 100 \<longrightarrow>
       (let r = vc_regs (setup_vcpu venv c0 d0 VCPU_ID v); s = vc_sregs (setup_vcpu venv c0 d0 VCPU_ID v) in
       (\<exists>pa. page_walk st' (cr3 s) (unat (rip r)) = Some pa \<and> g_rd st' pa (length vmlinux) = Some vmlinux) \<and>
       page_walk st' (cr3 s) (unat (rsi r)) = Some (unat ZERO_PAGE_START) \<and>
       guest_load st' (dt_base (sr_gdt s)) (unat (dt_limit (sr_gdt s)) + 1) = Some (concat (map desc_bytes STARTUP_GDT))))"
proof -
  obtain st' addr where st': "init_linux_boot fs kernel_file initrd_file \<lparr>b_mem = st, InitrdSize = z, InitrdAddr = a\<rparr> =
      Some (Inr \<lparr>b_mem = st', InitrdSize = of_nat (length initrd), InitrdAddr = of_nat addr\<rparr>)"
    "boot_image st' vmlinux initrd addr RAM_SIZE"
    and above: "addr mod 4096 = 0" "0x1000000 + length vmlinux \<le> addr" "addr + length initrd \<le> unat RAM_SIZE"
    using ram_boots [OF assms, of z a] by (elim exE conjE) (rule that)
  have walk: "\<forall>va < 2 ^ 30. page_walk st' PML4_START va = Some va"
    using st'(2) tables_walk by (auto simp: boot_image_def loaded_image_def)
  have vm: "g_rd st' 0x1000000 (length vmlinux) = Some vmlinux"
    using st'(2) by (simp add: boot_image_def loaded_image_def holds_def)
  have "holds st' 0x500 boot_tables" using st'(2) by (simp add: boot_image_def)
  then have "holds st' 0x500 (concat (map desc_bytes STARTUP_GDT))"
    using holds_sub [of st' "0x500" boot_tables 0 32] length_boot_tables by (simp add: boot_tables_def STARTUP_GDT_def)
  then have gdt: "guest_load st' BOOT_GDT_START (unat get_gdt_limit + 1) = Some (concat (map desc_bytes STARTUP_GDT))"
    unfolding boot_table_limits(1) by (simp add: holds_def guest_load_g_rd const_simps STARTUP_GDT_def)
  have regs: "rip (vc_regs (setup_vcpu e c d i w)) = VMLINUX_START" "rsi (vc_regs (setup_vcpu e c d i w)) = ZERO_PAGE_START"
    "cr3 (vc_sregs (setup_vcpu e c d i w)) = PML4_START"
    "sr_gdt (vc_sregs (setup_vcpu e c d i w)) = \<lparr>dt_base = BOOT_GDT_START, dt_limit = get_gdt_limit\<rparr>"
    if "length (msrs w) = 100" for e c d i w
    by (simp_all add: setup_vcpu_fields [OF that] setup_sregs_def Let_def)
  have v: "unat VMLINUX_START = 0x1000000" "unat ZERO_PAGE_START = 0x7000" by (simp_all add: const_simps)
  show ?thesis
    using st' walk vm gdt above
    by (intro exI [of _ st'] exI [of _ addr]) (simp add: Let_def regs v)
qed

theorem linux_boot_image_witness:
  "\<exists>st' addr. init_linux_boot sample_fs ''k'' ''i'' \<lparr>b_mem = sample_memory, InitrdSize = 0, InitrdAddr = 0\<rparr> =
      Some (Inr \<lparr>b_mem = st', InitrdSize = 2, InitrdAddr = of_nat addr\<rparr>) \<and>
    boot_image st' [1, 2, 3] [4, 5] addr RAM_SIZE \<and> page_walk st' PML4_START 0x1000000 = Some 0x1000000"
proof -
  have "sample_fs ''k'' = Some [1, 2, 3]" "sample_fs ''i'' = Some [4, 5]"
    "0x1000000 + length [1, 2, 3 :: u8] + length [4, 5 :: u8] + 0xfff \<le> unat RAM_SIZE"
    by (simp_all add: const_simps sample_fs_def)
  from linux_boot_image [OF sample_mmap_contract init_sample this(1,2) _ _ this(3), of 0 0]
  show ?thesis by auto
qed

end
