(* ===== verification/Iobus.thy ===== *)
theory Iobus
  imports Global
begin

text \<open>
  \<open>src/iobus.c\<close> and \<open>src/iobus.h\<close>: buses are intrusive singly linked lists of regions. The
  regions are statically allocated objects linked through their \<open>next\<close> field, so the model
  keeps them in a store indexed by the object's identity; a pointer to a pointer (the cursor of
  the C loops) is a location of that store. The lemmas relate the store to the list of regions
  a bus holds (the predicate \<open>chain\<close>), state the interface \<open>region_bus\<close> and interpret it.
\<close>

section \<open>State\<close>

datatype bus_id = PioBus | MmioBus | PciBus

text \<open>The region objects of the program: the two PCI configuration ports, the serial port, and
  per PCI device its configuration space and its BARs.\<close>

datatype region_id = PciAddrRegion | PciDataRegion | SerialRegion | ConfigRegion nat | BarRegion nat nat

datatype io_fn = Pcibus_addr_io | Pcibus_data_io | Serial_handle_io | Pci_config_handle_io
  | Virtio_pci_iospace_handle_io

datatype owner = NoOwner | PciDev nat

record region =
  r_bus :: "bus_id option"
  r_base :: u64
  r_len :: u64
  r_owner :: owner
  r_handle_io :: "io_fn option"
  r_next :: "region_id option"

record bus =
  region_count :: u64
  bus_head :: "region_id option"

record iobus =
  regions :: "region_id \<Rightarrow> region"
  buses :: "bus_id \<Rightarrow> bus"

definition zero_io_region :: region where
  "zero_io_region = \<lparr>r_bus = None, r_base = 0, r_len = 0, r_owner = NoOwner, r_handle_io = None, r_next = None\<rparr>"

definition empty_bus :: bus where
  "empty_bus = \<lparr>region_count = 0, bus_head = None\<rparr>"

definition iobus_0 :: iobus where
  "iobus_0 = \<lparr>regions = (\<lambda>_. zero_io_region), buses = (\<lambda>_. empty_bus)\<rparr>"

section \<open>Operations\<close>

definition region_hit :: "region \<Rightarrow> u64 \<Rightarrow> bool" where
  "region_hit r addr \<longleftrightarrow>
     (let start = r_base r; end' = start + r_len r - 1 in addr \<ge> start \<and> addr \<le> end')"

text \<open>The loop of \<open>iobus_find_region\<close>; \<open>None\<close> is a loop that never ends.\<close>

partial_function (option) find_from ::
    "(region_id \<Rightarrow> region) \<Rightarrow> region_id option \<Rightarrow> u64 \<Rightarrow> region_id option option" where
  "find_from rs p addr =
     (case p of None \<Rightarrow> Some None
      | Some r \<Rightarrow> if region_hit (rs r) addr then Some (Some r) else find_from rs (r_next (rs r)) addr)"

definition iobus_find_region :: "iobus \<Rightarrow> bus_id \<Rightarrow> u64 \<Rightarrow> region_id option option" where
  "iobus_find_region h b addr = find_from (regions h) (bus_head (buses h b)) addr"

definition upd_region :: "region_id \<Rightarrow> (region \<Rightarrow> region) \<Rightarrow> iobus \<Rightarrow> iobus" where
  "upd_region r f h = h\<lparr>regions := (regions h)(r := f (regions h r))\<rparr>"

definition upd_bus :: "bus_id \<Rightarrow> (bus \<Rightarrow> bus) \<Rightarrow> iobus \<Rightarrow> iobus" where
  "upd_bus b f h = h\<lparr>buses := (buses h)(b := f (buses h b))\<rparr>"

definition iobus_register_region :: "bus_id \<Rightarrow> region_id \<Rightarrow> iobus \<Rightarrow> iobus" where
  "iobus_register_region p r h =
     (let h1 = upd_region r (r_next_update (\<lambda>_. bus_head (buses h p))) h;
          h2 = upd_bus p (bus_head_update (\<lambda>_. Some r)) h1;
          h3 = upd_bus p (region_count_update (\<lambda>n. n + 1)) h2
      in upd_region r (r_bus_update (\<lambda>_. Some p)) h3)"

text \<open>The pointers \<open>struct region **p\<close> of \<open>iobus_deregister_region\<close>.\<close>

datatype loc = HeadLoc bus_id | NextLoc region_id

fun deref :: "iobus \<Rightarrow> loc \<Rightarrow> region_id option" where
  "deref h (HeadLoc b) = bus_head (buses h b)"
| "deref h (NextLoc r) = r_next (regions h r)"

fun assign :: "loc \<Rightarrow> region_id option \<Rightarrow> iobus \<Rightarrow> iobus" where
  "assign (HeadLoc b) v h = upd_bus b (bus_head_update (\<lambda>_. v)) h"
| "assign (NextLoc r) v h = upd_region r (r_next_update (\<lambda>_. v)) h"

partial_function (option) find_link :: "iobus \<Rightarrow> loc \<Rightarrow> region_id \<Rightarrow> loc option" where
  "find_link h p r =
     (case deref h p of None \<Rightarrow> Some p
      | Some q \<Rightarrow> if q = r then Some p else find_link h (NextLoc q) r)"

definition iobus_deregister_region :: "region_id \<Rightarrow> iobus \<Rightarrow> iobus option" where
  "iobus_deregister_region r h =
     (case r_bus (regions h r) of
        None \<Rightarrow> Some h
      | Some b \<Rightarrow> do { p \<leftarrow> find_link h (HeadLoc b) r;
                       case deref h p of None \<Rightarrow> Some h
                       | Some q \<Rightarrow> Some (assign p (r_next (regions h q)) h) })"

definition iobus_init :: "iobus \<Rightarrow> iobus" where
  "iobus_init h =
     upd_bus MmioBus (\<lambda>b. b\<lparr>region_count := 0, bus_head := None\<rparr>)
       (upd_bus PioBus (\<lambda>b. b\<lparr>region_count := 0, bus_head := None\<rparr>) h)"

definition region_init :: "region_id \<Rightarrow> u64 \<Rightarrow> u64 \<Rightarrow> owner \<Rightarrow> io_fn \<Rightarrow> iobus \<Rightarrow> iobus" where
  "region_init r bas len own fn h =
     upd_region r (\<lambda>_. \<lparr>r_bus = None, r_base = bas, r_len = len, r_owner = own,
                         r_handle_io = Some fn, r_next = None\<rparr>) h"

text \<open>
  \<open>bus_handle_io\<close> calls the handler stored in the region. The handler table \<open>call\<close> and the
  place \<open>view\<close> of the bus store in the whole state are arguments here; \<open>Machine\<close>
  supplies both. \<open>data\<close> is the buffer the handler may read and write.
\<close>

type_synonym 's handler = "u64 \<Rightarrow> u8 \<Rightarrow> bytes \<Rightarrow> bool \<Rightarrow> owner \<Rightarrow> 's \<Rightarrow> (bytes \<times> 's) option"

definition fits_region :: "region \<Rightarrow> u64 \<Rightarrow> u8 \<Rightarrow> bool" where
  "fits_region r addr sz \<longleftrightarrow> addr + ucast sz - 1 \<le> r_base r + r_len r - 1"

definition bus_handle_io ::
    "(io_fn \<Rightarrow> 's handler) \<Rightarrow> ('s \<Rightarrow> iobus) \<Rightarrow> bus_id \<Rightarrow> u64 \<Rightarrow> u8 \<Rightarrow> bytes \<Rightarrow> bool \<Rightarrow> 's \<Rightarrow>
     (bytes \<times> 's) option" where
  "bus_handle_io call view b addr sz data is_write s =
     do { found \<leftarrow> iobus_find_region (view s) b addr;
          case found of
            None \<Rightarrow> Some (data, s)
          | Some rid \<Rightarrow>
              let r = regions (view s) rid in
              if fits_region r addr sz
              then (case r_handle_io r of
                      None \<Rightarrow> None
                    | Some fn \<Rightarrow> call fn (addr - r_base r) sz data is_write (r_owner r) s)
              else Some (data, s) }"

text \<open>The parts of \<open>struct kvm_run\<close> the two exits use; \<open>io_data\<close> is the buffer at
  \<open>data_offset\<close>.\<close>

record kvm_run_io =
  io_out :: bool
  io_size :: u8
  io_port :: u16
  io_count :: u32
  io_data :: bytes

record kvm_run_mmio =
  mmio_phys_addr :: u64
  mmio_data :: bytes
  mmio_len :: u32
  mmio_is_write :: bool

primrec handle_pio_loop ::
    "(io_fn \<Rightarrow> 's handler) \<Rightarrow> ('s \<Rightarrow> iobus) \<Rightarrow> kvm_run_io \<Rightarrow> nat \<Rightarrow> nat \<Rightarrow> bytes \<Rightarrow> 's \<Rightarrow> (bytes \<times> 's) option" where
  "handle_pio_loop call view run 0 off buf s = Some (buf, s)"
| "handle_pio_loop call view run (Suc n) off buf s =
     do { chunk \<leftarrow> obj_read buf off (unat (io_size run));
          (chunk', s') \<leftarrow> bus_handle_io call view PioBus (ucast (io_port run)) (io_size run) chunk (io_out run) s;
          buf' \<leftarrow> obj_write buf off chunk';
          handle_pio_loop call view run n (off + unat (io_size run)) buf' s' }"

definition iobus_handle_pio ::
    "(io_fn \<Rightarrow> 's handler) \<Rightarrow> ('s \<Rightarrow> iobus) \<Rightarrow> kvm_run_io \<Rightarrow> 's \<Rightarrow> (kvm_run_io \<times> 's) option" where
  "iobus_handle_pio call view run s =
     do { (buf, s') \<leftarrow> handle_pio_loop call view run (unat (io_count run)) 0 (io_data run) s;
          Some (run\<lparr>io_data := buf\<rparr>, s') }"

definition iobus_handle_mmio ::
    "(io_fn \<Rightarrow> 's handler) \<Rightarrow> ('s \<Rightarrow> iobus) \<Rightarrow> kvm_run_mmio \<Rightarrow> 's \<Rightarrow> (kvm_run_mmio \<times> 's) option" where
  "iobus_handle_mmio call view run s =
     do { (buf, s') \<leftarrow> bus_handle_io call view MmioBus (mmio_phys_addr run) (ucast (mmio_len run))
                         (mmio_data run) (mmio_is_write run) s;
          Some (run\<lparr>mmio_data := buf\<rparr>, s') }"

section \<open>Chains of regions\<close>

primrec chain :: "(region_id \<Rightarrow> region) \<Rightarrow> region_id option \<Rightarrow> region_id list \<Rightarrow> bool" where
  "chain rs p [] \<longleftrightarrow> p = None"
| "chain rs p (r # xs) \<longleftrightarrow> p = Some r \<and> chain rs (r_next (rs r)) xs"

lemma chain_None [simp]: "chain rs None xs \<longleftrightarrow> xs = []"
  by (cases xs) auto

lemma chain_Some: "chain rs (Some r) xs \<longleftrightarrow> (\<exists>ys. xs = r # ys \<and> chain rs (r_next (rs r)) ys)"
  by (cases xs) auto

lemma chain_unique: "chain rs p xs \<Longrightarrow> chain rs p ys \<Longrightarrow> xs = ys"
  by (induction xs arbitrary: p ys) (auto simp: chain_Some)

lemma chain_append_tail: "chain rs p (xs @ r # ys) \<Longrightarrow> chain rs (Some r) (r # ys)"
  by (induction xs arbitrary: p) auto

lemma chain_head_notin: "chain rs (r_next (rs r)) xs \<Longrightarrow> r \<notin> set xs"
proof
  assume c: "chain rs (r_next (rs r)) xs" and "r \<in> set xs"
  then obtain us vs where xs: "xs = us @ r # vs" by (auto simp: in_set_conv_decomp)
  then have "chain rs (r_next (rs r)) vs" using chain_append_tail c by fastforce
  then have "vs = xs" using chain_unique c by blast
  with xs show False by simp
qed

lemma chain_distinct: "chain rs p xs \<Longrightarrow> distinct xs"
  by (induction xs arbitrary: p) (auto dest: chain_head_notin)

lemma chain_cong:
  "(\<And>r. r \<in> set xs \<Longrightarrow> r_next (rs' r) = r_next (rs r)) \<Longrightarrow> chain rs' p xs = chain rs p xs"
  by (induction xs arbitrary: p) auto

text \<open>Removing one element by redirecting the link that points to it.\<close>

lemma chain_unlink:
  "chain rs p (xs @ q # r # ys) \<Longrightarrow>
     chain (rs(q := (rs q)\<lparr>r_next := r_next (rs r)\<rparr>)) p (xs @ q # ys)"
proof (induction xs arbitrary: p)
  case Nil
  then have "chain rs (r_next (rs r)) ys" "q \<notin> set ys"
    using chain_head_notin [of rs q "r # ys"] by auto
  then have "chain (rs(q := (rs q)\<lparr>r_next := r_next (rs r)\<rparr>)) (r_next (rs r)) ys"
    by (subst chain_cong) auto
  then show ?case using Nil by (simp add: fun_upd_def)
next
  case (Cons x xs)
  then have "x \<noteq> q" using chain_distinct by fastforce
  with Cons show ?case by simp
qed

lemma find_from_chain: "chain rs p xs \<Longrightarrow> find_from rs p addr = Some (List.find (\<lambda>r. region_hit (rs r) addr) xs)"
  by (induction xs arbitrary: p) (subst find_from.simps, simp)+

lemma find_link_next:
  "chain (regions h) (Some q) (q # xs) \<Longrightarrow> r \<in> set xs \<Longrightarrow>
     \<exists>us p vs. q # xs = us @ p # r # vs \<and> find_link h (NextLoc q) r = Some (NextLoc p)"
proof (induction xs arbitrary: q)
  case (Cons x xs)
  have nx: "r_next (regions h q) = Some x" using Cons.prems by simp
  show ?case
  proof (cases "x = r")
    case True
    then have "find_link h (NextLoc q) r = Some (NextLoc q)"
      using nx by (subst find_link.simps) simp
    with True show ?thesis by (intro exI [of _ "[]"]) auto
  next
    case False
    have c: "chain (regions h) (Some x) (x # xs)" using Cons.prems(1) nx by simp
    have "r \<in> set xs" using Cons.prems(2) False by simp
    from Cons.IH [OF c this] obtain us p vs where
      "x # xs = us @ p # r # vs" "find_link h (NextLoc x) r = Some (NextLoc p)" by blast
    moreover have "find_link h (NextLoc q) r = find_link h (NextLoc x) r"
      using nx False by (subst find_link.simps) simp
    ultimately show ?thesis by (intro exI [of _ "q # us"]) auto
  qed
qed simp

lemma find_link_absent:
  "chain (regions h) (deref h p) xs \<Longrightarrow> r \<notin> set xs \<Longrightarrow> \<exists>l. find_link h p r = Some l \<and> deref h l = None"
proof (induction xs arbitrary: p)
  case Nil
  then show ?case by (subst find_link.simps) simp
next
  case (Cons x xs)
  then have "chain (regions h) (deref h (NextLoc x)) xs" "r \<notin> set xs" by auto
  from Cons.IH [OF this] show ?case
    using Cons.prems by (subst find_link.simps) auto
qed

section \<open>The interface of a bus\<close>

text \<open>
  What the device models rely on: a lookup returns the most recently registered region that
  contains the address; registering an unregistered region puts it in front on its bus and
  nowhere else; deregistering removes it everywhere.
\<close>

locale region_bus =
  fixes find :: "'h \<Rightarrow> 'b \<Rightarrow> u64 \<Rightarrow> 'r option option"
    and reg :: "'b \<Rightarrow> 'r \<Rightarrow> 'h \<Rightarrow> 'h"
    and dereg :: "'r \<Rightarrow> 'h \<Rightarrow> 'h option"
    and hit :: "'h \<Rightarrow> 'r \<Rightarrow> u64 \<Rightarrow> bool"
    and repr :: "'h \<Rightarrow> ('b \<Rightarrow> 'r list) \<Rightarrow> bool"
  assumes find_first: "repr h l \<Longrightarrow> find h b a = Some (List.find (\<lambda>r. hit h r a) (l b))"
    and repr_reg: "repr h l \<Longrightarrow> (\<And>c. r \<notin> set (l c)) \<Longrightarrow> repr (reg b r h) (l(b := r # l b))"
    and repr_dereg: "repr h l \<Longrightarrow> \<exists>h'. dereg r h = Some h' \<and> repr h' (\<lambda>c. removeAll r (l c))"
    and hit_reg: "hit (reg b r h) r' a = hit h r' a"
    and hit_dereg: "dereg r h = Some h' \<Longrightarrow> hit h' r' a = hit h r' a"
    and repr_disjoint: "repr h l \<Longrightarrow> b \<noteq> c \<Longrightarrow> set (l b) \<inter> set (l c) = {}"
begin

lemma find_terminates: "repr h l \<Longrightarrow> \<exists>res. find h b a = Some res"
  by (simp add: find_first)

lemma find_registered:
  "repr h l \<Longrightarrow> (\<And>c. r \<notin> set (l c)) \<Longrightarrow>
     find (reg b r h) c a = (if c = b \<and> hit h r a then Some (Some r) else find h c a)"
  using find_first [OF repr_reg, of h l r b c a] by (auto simp: find_first hit_reg)

lemma find_deregistered:
  assumes "repr h l" "dereg r h = Some h'"
  shows "find h' c a = Some (List.find (\<lambda>q. hit h q a) (removeAll r (l c)))"
  using repr_dereg [OF assms(1), of r] assms(2) find_first [of h'] by (auto simp: hit_dereg)

lemma find_sound: "repr h l \<Longrightarrow> find h b a = Some (Some r) \<Longrightarrow> r \<in> set (l b) \<and> hit h r a"
  by (auto simp: find_first find_Some_iff)

lemma reg_dereg:
  assumes "repr h l" "\<And>c. r \<notin> set (l c)" "dereg r (reg b r h) = Some h'"
  shows "repr h' l" "find h' c a = find h c a"
proof -
  have "repr h' (\<lambda>c. removeAll r ((l(b := r # l b)) c))"
    using repr_dereg [OF repr_reg [OF assms(1,2)], of r b] assms(3) by auto
  moreover have "(\<lambda>c. removeAll r ((l(b := r # l b)) c)) = l"
    using assms(2) by (auto simp: fun_eq_iff)
  ultimately show "repr h' l" by simp
  then show "find h' c a = find h c a"
    using assms(1) hit_dereg [OF assms(3)] by (simp add: find_first hit_reg)
qed

end

text \<open>The store represents the lists \<open>l\<close>: every bus is a finite chain, and every registered
  region knows its bus.\<close>

definition bus_repr :: "iobus \<Rightarrow> (bus_id \<Rightarrow> region_id list) \<Rightarrow> bool" where
  "bus_repr h l \<longleftrightarrow>
     (\<forall>b. chain (regions h) (bus_head (buses h b)) (l b)) \<and>
     (\<forall>b. \<forall>r \<in> set (l b). r_bus (regions h r) = Some b)"

definition bus_hit :: "iobus \<Rightarrow> region_id \<Rightarrow> u64 \<Rightarrow> bool" where
  "bus_hit h r a = region_hit (regions h r) a"

lemmas store_defs = upd_region_def upd_bus_def

lemma bus_repr_chain: "bus_repr h l \<Longrightarrow> chain (regions h) (bus_head (buses h b)) (l b)"
  by (simp add: bus_repr_def)

lemma bus_repr_bus: "bus_repr h l \<Longrightarrow> r \<in> set (l b) \<Longrightarrow> r_bus (regions h r) = Some b"
  by (auto simp: bus_repr_def)

lemma bus_repr_register:
  assumes "bus_repr h l" "\<And>c. r \<notin> set (l c)"
  shows "bus_repr (iobus_register_region b r h) (l(b := r # l b))"
proof -
  let ?h = "iobus_register_region b r h"
  have "chain (regions ?h) p (l c) = chain (regions h) p (l c)" for p c
    using assms(2) by (intro chain_cong) (auto simp: iobus_register_region_def store_defs Let_def)
  then show ?thesis
    using assms by (auto simp: bus_repr_def iobus_register_region_def store_defs Let_def)
qed

lemma bus_repr_unlink:
  assumes "bus_repr h l" and r: "r_bus (regions h r) = Some b" "r \<in> set (l b)"
  shows "\<exists>h'. iobus_deregister_region r h = Some h' \<and> bus_repr h' (l(b := removeAll r (l b)))"
proof -
  note ch = bus_repr_chain [OF assms(1), of b]
  have d: "distinct (l b)" using ch by (rule chain_distinct)
  have other: "r_bus (regions h x) = Some c" if "x \<in> set (l c)" for x c
    using bus_repr_bus [OF assms(1) that] .
  obtain q xs where q: "l b = q # xs" using r(2) by (cases "l b") auto
  show ?thesis
  proof (cases "q = r")
    case True
    have hd: "bus_head (buses h b) = Some r" using ch q True by simp
    then have "find_link h (HeadLoc b) r = Some (HeadLoc b)" by (subst find_link.simps) simp
    moreover have "removeAll r (l b) = xs" using d q True by (simp add: removeAll_id)
    moreover have "chain (regions h) (r_next (regions h r)) xs" using ch q True by simp
    moreover have "iobus_deregister_region r h = Some (upd_bus b (bus_head_update (\<lambda>_. r_next (regions h r))) h)"
      using calculation(1) hd r(1) by (simp add: iobus_deregister_region_def)
    ultimately show ?thesis
      using assms(1) q True by (auto simp: upd_bus_def bus_repr_def)
  next
    case False
    have hd: "bus_head (buses h b) = Some q" using ch q by simp
    have "chain (regions h) (Some q) (q # xs)" using ch q by simp
    moreover have "r \<in> set xs" using r(2) q False by simp
    ultimately obtain us p vs where
      s: "q # xs = us @ p # r # vs" "find_link h (NextLoc q) r = Some (NextLoc p)"
      using find_link_next by blast
    have fl: "find_link h (HeadLoc b) r = Some (NextLoc p)"
      using hd False s(2) by (subst find_link.simps) simp
    have nx: "r_next (regions h p) = Some r"
      using chain_append_tail [of "regions h" _ us p "r # vs"] ch q s(1) by simp
    let ?rs = "(regions h)(p := (regions h p)\<lparr>r_next := r_next (regions h r)\<rparr>)"
    have rm: "removeAll r (l b) = us @ p # vs" using d q s(1) by (auto simp: removeAll_id)
    have cb: "chain ?rs (bus_head (buses h b)) (us @ p # vs)"
      using ch q s(1) by (intro chain_unlink) simp
    have "chain ?rs (bus_head (buses h c)) (l c)" if "c \<noteq> b" for c
    proof -
      have "p \<in> set (l b)" using q s(1) by auto
      then have "p \<notin> set (l c)" using other that by (metis option.inject)
      then show ?thesis using bus_repr_chain [OF assms(1), of c] by (subst chain_cong) auto
    qed
    moreover have "iobus_deregister_region r h = Some (h\<lparr>regions := ?rs\<rparr>)"
      using fl nx r(1) by (simp add: iobus_deregister_region_def upd_region_def)
    moreover have "r_bus (?rs x) = r_bus (regions h x)" for x by simp
    ultimately show ?thesis
      using cb rm other q s(1) by (auto simp: bus_repr_def)
  qed
qed

lemma removeAll_other:
  assumes "bus_repr h l" "r_bus (regions h r) = Some b"
  shows "(\<lambda>c. removeAll r (l c)) = l(b := removeAll r (l b))"
proof
  fix c
  have "c \<noteq> b \<Longrightarrow> r \<notin> set (l c)" using assms bus_repr_bus by fastforce
  then show "removeAll r (l c) = (l(b := removeAll r (l b))) c" by (simp add: removeAll_id)
qed

lemma bus_repr_deregister:
  assumes "bus_repr h l"
  shows "\<exists>h'. iobus_deregister_region r h = Some h' \<and> bus_repr h' (\<lambda>c. removeAll r (l c))"
proof (cases "r_bus (regions h r)")
  case None
  then have "r \<notin> set (l c)" for c using assms bus_repr_bus by fastforce
  then show ?thesis using None assms by (simp add: iobus_deregister_region_def removeAll_id)
next
  case (Some b)
  note rm = removeAll_other [OF assms Some]
  show ?thesis
  proof (cases "r \<in> set (l b)")
    case True
    then show ?thesis using bus_repr_unlink [OF assms Some True] rm by simp
  next
    case False
    then obtain p where "find_link h (HeadLoc b) r = Some p" "deref h p = None"
      using find_link_absent [of h "HeadLoc b" "l b" r] bus_repr_chain [OF assms] by auto
    moreover have "l(b := removeAll r (l b)) = l" using False by (simp add: removeAll_id)
    ultimately show ?thesis using Some rm assms by (simp add: iobus_deregister_region_def)
  qed
qed

lemma deregister_fields:
  assumes "iobus_deregister_region r h = Some h'"
  shows "r_base (regions h' x) = r_base (regions h x)" "r_len (regions h' x) = r_len (regions h x)"
    "r_handle_io (regions h' x) = r_handle_io (regions h x)" "r_owner (regions h' x) = r_owner (regions h x)"
    "r_bus (regions h' x) = r_bus (regions h x)" "region_count (buses h' b) = region_count (buses h b)"
proof -
  have *: "h' = h \<or> (\<exists>l v. h' = assign l v h)"
    using assms by (auto simp: iobus_deregister_region_def split: option.splits Option.bind_splits)
  have "r_base (regions (assign l v h) x) = r_base (regions h x) \<and>
      r_len (regions (assign l v h) x) = r_len (regions h x) \<and>
      r_handle_io (regions (assign l v h) x) = r_handle_io (regions h x) \<and>
      r_owner (regions (assign l v h) x) = r_owner (regions h x) \<and>
      r_bus (regions (assign l v h) x) = r_bus (regions h x) \<and>
      region_count (buses (assign l v h) b) = region_count (buses h b)" for l v
    by (cases l) (auto simp: store_defs)
  with * show "r_base (regions h' x) = r_base (regions h x)" "r_len (regions h' x) = r_len (regions h x)"
    "r_handle_io (regions h' x) = r_handle_io (regions h x)" "r_owner (regions h' x) = r_owner (regions h x)"
    "r_bus (regions h' x) = r_bus (regions h x)" "region_count (buses h' b) = region_count (buses h b)"
    by auto
qed

lemma register_fields:
  "r_base (regions (iobus_register_region b r h) x) = r_base (regions h x)"
  "r_len (regions (iobus_register_region b r h) x) = r_len (regions h x)"
  "r_handle_io (regions (iobus_register_region b r h) x) = r_handle_io (regions h x)"
  "r_owner (regions (iobus_register_region b r h) x) = r_owner (regions h x)"
  by (auto simp: iobus_register_region_def store_defs Let_def)

interpretation ib: region_bus iobus_find_region iobus_register_region iobus_deregister_region bus_hit bus_repr
proof unfold_locales
  fix h h' :: iobus and l :: "bus_id \<Rightarrow> region_id list" and b c :: bus_id and r r' :: region_id and a :: u64
  show "bus_repr h l \<Longrightarrow> iobus_find_region h b a = Some (List.find (\<lambda>r. bus_hit h r a) (l b))"
    using find_from_chain [OF bus_repr_chain, of h l b a] by (simp add: iobus_find_region_def bus_hit_def)
  show "bus_repr h l \<Longrightarrow> (\<And>c. r \<notin> set (l c)) \<Longrightarrow> bus_repr (iobus_register_region b r h) (l(b := r # l b))"
    by (rule bus_repr_register)
  show "bus_repr h l \<Longrightarrow> \<exists>h'. iobus_deregister_region r h = Some h' \<and> bus_repr h' (\<lambda>c. removeAll r (l c))"
    by (rule bus_repr_deregister)
  show "bus_hit (iobus_register_region b r h) r' a = bus_hit h r' a"
    by (simp add: bus_hit_def region_hit_def register_fields)
  show "iobus_deregister_region r h = Some h' \<Longrightarrow> bus_hit h' r' a = bus_hit h r' a"
    by (simp add: bus_hit_def region_hit_def deregister_fields)
  show "set (l b) \<inter> set (l c) = {}" if "bus_repr h l" "b \<noteq> c"
    using bus_repr_bus [OF that(1), of _ b] bus_repr_bus [OF that(1), of _ c] that(2) by (metis disjoint_iff option.inject)
qed

section \<open>A second registration\<close>

lemma chain_next_in:
  "chain rs p (us @ r # vs) \<Longrightarrow> q \<in> set us \<Longrightarrow> \<exists>x \<in> set (us @ [r]). r_next (rs q) = Some x"
proof (induction us arbitrary: p)
  case (Cons u us)
  show ?case
  proof (cases "q = u")
    case True
    then show ?thesis using Cons.prems(1) by (cases us) auto
  next
    case False
    then show ?thesis using Cons.IH [of "r_next (rs u)"] Cons.prems by auto
  qed
qed simp

text \<open>From a set of regions closed under \<open>next\<close> that the address misses, the loop of
  \<open>iobus_find_region\<close> never ends.\<close>

lemma find_from_cycle:
  assumes "\<And>q. q \<in> C \<Longrightarrow> \<not> region_hit (rs q) a \<and> (\<exists>x\<in>C. r_next (rs q) = Some x)" "q \<in> C"
  shows "find_from rs (Some q) a = None"
proof -
  let ?P = "\<lambda>rs' p a' res. rs' = rs \<longrightarrow> a' = a \<longrightarrow> (\<forall>q. p = Some q \<longrightarrow> q \<notin> C)"
  have *: "?P rs p a res" if "find_from rs p a = Some res" for p res
  proof (rule find_from.raw_induct [OF _ that, of ?P], intro impI allI)
    fix f rs' p' a' res' q
    assume IH: "\<And>rs' p' a' res'. f rs' p' a' = Some res' \<Longrightarrow> ?P rs' p' a' res'"
      and body: "(case p' of None \<Rightarrow> Some None
        | Some r \<Rightarrow> if region_hit (rs' r) a' then Some (Some r) else f rs' (r_next (rs' r)) a') = Some res'"
      and eqs: "rs' = rs" "a' = a" "p' = Some q"
    show "q \<notin> C"
    proof
      assume "q \<in> C"
      then obtain x where "x \<in> C" "r_next (rs q) = Some x" "\<not> region_hit (rs q) a" using assms(1) by blast
      with body eqs IH [of rs "Some x" a res'] show False by simp
    qed
  qed
  have "find_from rs (Some q) a \<noteq> Some res" for res using * [of "Some q" res] assms(2) by auto
  then show ?thesis by auto
qed

lemma double_register_diverges:
  assumes "bus_repr h l" "r \<in> set (l b)" "\<And>q. q \<in> set (l b) \<Longrightarrow> \<not> region_hit (regions h q) a"
  shows "iobus_find_region (iobus_register_region b r h) b a = None"
proof -
  let ?h = "iobus_register_region b r h"
  obtain us vs where l: "l b = us @ r # vs" using assms(2) by (auto simp: in_set_conv_decomp)
  have ch: "chain (regions h) (bus_head (buses h b)) (us @ r # vs)"
    using bus_repr_chain [OF assms(1), of b] l by simp
  then have d: "r \<notin> set us" using chain_distinct by fastforce
  have nx: "r_next (regions ?h q) = (if q = r then bus_head (buses h b) else r_next (regions h q))" for q
    by (simp add: iobus_register_region_def store_defs Let_def)
  have hd: "bus_head (buses ?h b) = Some r"
    by (simp add: iobus_register_region_def store_defs Let_def)
  have "find_from (regions ?h) (Some r) a = None"
  proof (rule find_from_cycle [where C = "set (us @ [r])"])
    fix q assume q: "q \<in> set (us @ [r])"
    have "\<not> region_hit (regions ?h q) a"
      using assms(3) [of q] q l by (auto simp: region_hit_def register_fields)
    moreover have "\<exists>x\<in>set (us @ [r]). r_next (regions ?h q) = Some x"
    proof (cases "q = r")
      case True
      then show ?thesis using ch nx by (cases us) auto
    next
      case False
      then show ?thesis using chain_next_in [OF ch, of q] q nx by auto
    qed
    ultimately show "\<not> region_hit (regions ?h q) a \<and> (\<exists>x\<in>set (us @ [r]). r_next (regions ?h q) = Some x)" ..
  qed simp
  then show ?thesis by (simp add: iobus_find_region_def hd)
qed

section \<open>Properties\<close>

lemma bus_repr_0: "bus_repr iobus_0 (\<lambda>_. [])"
  by (simp add: bus_repr_def iobus_0_def empty_bus_def)

text \<open>Property C16. Registering a region that is on no bus puts it in front of its bus and of no
  other: a later lookup on that bus returns it for every address of the region, whatever was
  registered before, and every other lookup is unchanged.\<close>

theorem iobus_register_lookup:
  assumes "bus_repr h l" "\<And>c. r \<notin> set (l c)"
  shows "iobus_find_region (iobus_register_region b r h) c a =
     (if c = b \<and> region_hit (regions h r) a then Some (Some r) else iobus_find_region h c a) \<and>
   bus_repr (iobus_register_region b r h) (l(b := r # l b))"
  using ib.find_registered [OF assms] ib.repr_reg [OF assms] by (simp add: bus_hit_def)

definition sample_bus :: iobus where
  "sample_bus = region_init SerialRegion IO_SERIAL_START IO_SERIAL_SIZE NoOwner Serial_handle_io iobus_0"

lemma sample_bus_repr: "bus_repr sample_bus (\<lambda>_. [])"
  by (simp add: sample_bus_def region_init_def upd_region_def bus_repr_def iobus_0_def empty_bus_def)

theorem iobus_register_lookup_witness:
  "iobus_find_region (iobus_register_region PioBus SerialRegion sample_bus) PioBus 0x3fd = Some (Some SerialRegion)"
  using iobus_register_lookup [OF sample_bus_repr, of SerialRegion PioBus PioBus "0x3fd"]
  by (simp add: region_hit_def sample_bus_def region_init_def upd_region_def const_simps)

text \<open>Property C17. Deregistering a region always returns, takes the region off its bus and keeps the
  order of the others; after a registration it restores every earlier lookup. It does not
  count down: \<open>region_count\<close> stays one higher than before the pair.\<close>

theorem iobus_deregister_lookup:
  assumes "bus_repr h l"
  shows "(\<exists>h'. iobus_deregister_region r h = Some h' \<and> bus_repr h' (\<lambda>c. removeAll r (l c)) \<and>
      (\<forall>c a. iobus_find_region h' c a = Some (List.find (\<lambda>q. region_hit (regions h q) a) (removeAll r (l c))))) \<and>
    ((\<forall>c. r \<notin> set (l c)) \<longrightarrow>
      (\<exists>h'. iobus_deregister_region r (iobus_register_region b r h) = Some h' \<and> bus_repr h' l \<and>
        (\<forall>c a. iobus_find_region h' c a = iobus_find_region h c a) \<and>
        region_count (buses h' b) = region_count (buses h b) + 1))"
proof (intro conjI impI)
  obtain h' where "iobus_deregister_region r h = Some h'" "bus_repr h' (\<lambda>c. removeAll r (l c))"
    using ib.repr_dereg [OF assms] by blast
  then show "\<exists>h'. iobus_deregister_region r h = Some h' \<and> bus_repr h' (\<lambda>c. removeAll r (l c)) \<and>
      (\<forall>c a. iobus_find_region h' c a = Some (List.find (\<lambda>q. region_hit (regions h q) a) (removeAll r (l c))))"
    using ib.find_deregistered [OF assms] by (auto simp: bus_hit_def)
next
  assume "\<forall>c. r \<notin> set (l c)"
  then have n: "r \<notin> set (l c)" for c by blast
  obtain h' where h': "iobus_deregister_region r (iobus_register_region b r h) = Some h'"
    using ib.repr_dereg [OF ib.repr_reg [OF assms n]] by blast
  have "region_count (buses h' b) = region_count (buses h b) + 1"
    unfolding deregister_fields(6) [OF h'] by (simp add: iobus_register_region_def store_defs Let_def)
  then show "\<exists>h'. iobus_deregister_region r (iobus_register_region b r h) = Some h' \<and> bus_repr h' l \<and>
        (\<forall>c a. iobus_find_region h' c a = iobus_find_region h c a) \<and>
        region_count (buses h' b) = region_count (buses h b) + 1"
    using h' ib.reg_dereg [OF assms n h'] by blast
qed

theorem iobus_deregister_lookup_witness:
  "\<exists>h'. iobus_deregister_region SerialRegion (iobus_register_region PioBus SerialRegion sample_bus) = Some h' \<and>
     iobus_find_region h' PioBus 0x3fd = Some None \<and> region_count (buses h' PioBus) = 1"
proof -
  have "iobus_find_region sample_bus PioBus 0x3fd = Some None"
    using ib.find_first [OF sample_bus_repr] by simp
  moreover have "region_count (buses sample_bus PioBus) = 0"
    by (simp add: sample_bus_def region_init_def upd_region_def iobus_0_def empty_bus_def)
  ultimately show ?thesis
    using conjunct2 [OF iobus_deregister_lookup [OF sample_bus_repr, of SerialRegion PioBus]] by auto
qed

text \<open>Property C18. What a device handler may rely on: \<open>bus_handle_io\<close> either leaves buffer and
  state alone, or calls the handler of a registered region that contains the address, with
  the offset of the address in that region and an access that ends inside it. This holds for
  non-empty accesses and regions below the top of the address space.\<close>

theorem bus_handle_io_bounds:
  assumes "bus_repr (view s) l" "0 < sz" "unat addr + unat sz \<le> 2 ^ 64"
    and "\<forall>rid \<in> set (l b). unat (r_base (regions (view s) rid)) + unat (r_len (regions (view s) rid)) < 2 ^ 64 \<and>
      0 < r_len (regions (view s) rid) \<and> r_handle_io (regions (view s) rid) \<noteq> None"
  shows "(bus_handle_io call view b addr sz data w s = Some (data, s) \<and>
      (\<forall>rid. List.find (\<lambda>r. bus_hit (view s) r addr) (l b) = Some rid \<longrightarrow>
         unat (r_base (regions (view s) rid)) + unat (r_len (regions (view s) rid)) < unat addr + unat sz)) \<or>
    (\<exists>rid fn off. rid \<in> set (l b) \<and> List.find (\<lambda>r. bus_hit (view s) r addr) (l b) = Some rid \<and> r_handle_io (regions (view s) rid) = Some fn \<and>
       unat addr = unat (r_base (regions (view s) rid)) + unat off \<and>
       unat off + unat sz \<le> unat (r_len (regions (view s) rid)) \<and>
       bus_handle_io call view b addr sz data w s = call fn off sz data w (r_owner (regions (view s) rid)) s)"
proof (cases "List.find (\<lambda>r. bus_hit (view s) r addr) (l b)")
  case None
  then show ?thesis using ib.find_first [OF assms(1), of b addr] by (simp add: bus_handle_io_def)
next
  case (Some rid)
  let ?r = "regions (view s) rid"
  have f: "iobus_find_region (view s) b addr = Some (Some rid)"
    using ib.find_first [OF assms(1), of b addr] Some by simp
  then have rid: "rid \<in> set (l b)" "region_hit ?r addr"
    using ib.find_sound [OF assms(1) f] by (auto simp: bus_hit_def)
  note reg = bspec [OF assms(4) rid(1)]
  then obtain fn where fn: "r_handle_io ?r = Some fn" by blast
  have sz: "0 < unat sz" using assms(2) by (simp add: word_less_nat_alt)
  have len: "0 < unat (r_len ?r)" using reg by (simp add: word_less_nat_alt)
  have e: "unat (r_base ?r + r_len ?r - 1) = unat (r_base ?r) + unat (r_len ?r) - 1"
  proof -
    have "unat (r_base ?r + r_len ?r) = unat (r_base ?r) + unat (r_len ?r)"
      using reg by (simp add: unat_word_ariths)
    then show ?thesis using len by (subst unat_sub) (auto simp: word_le_nat_alt)
  qed
  have a: "unat (addr + ucast sz - 1) = unat addr + unat sz - 1"
    using sz assms(3) unat_add_sub_one [of "ucast sz" addr] by simp
  show ?thesis
  proof (cases "fits_region ?r addr sz")
    case False
    then have "unat (r_base ?r) + unat (r_len ?r) < unat addr + unat sz"
      using a e sz len by (simp add: fits_region_def word_le_nat_alt del: add_diff_eq)
    then show ?thesis using f False Some by (simp add: bus_handle_io_def Let_def)
  next
    case True
    have b: "unat (r_base ?r) \<le> unat addr" "unat addr \<le> unat (r_base ?r + r_len ?r - 1)"
      using rid(2) by (auto simp: region_hit_def Let_def word_le_nat_alt)
    then have off: "unat (addr - r_base ?r) = unat addr - unat (r_base ?r)"
      by (subst unat_sub) (auto simp: word_le_nat_alt)
    have "unat addr + unat sz - 1 \<le> unat (r_base ?r) + unat (r_len ?r) - 1"
      using True a e by (simp add: fits_region_def word_le_nat_alt)
    then have "unat (addr - r_base ?r) + unat sz \<le> unat (r_len ?r)"
      using off b sz len by linarith
    moreover have "bus_handle_io call view b addr sz data w s = call fn (addr - r_base ?r) sz data w (r_owner ?r) s"
      using f fn True by (simp add: bus_handle_io_def Let_def)
    moreover have "unat addr = unat (r_base ?r) + unat (addr - r_base ?r)" using off b(1) by simp
    ultimately show ?thesis
      using rid(1) fn Some by (intro disjI2 exI [of _ rid] exI [of _ fn] exI [of _ "addr - r_base ?r"] conjI)
  qed
qed

theorem bus_handle_io_bounds_witness:
  "let h = iobus_register_region PioBus SerialRegion sample_bus; call = (\<lambda>fn off sz d w own s. Some ([ucast off], s)) in
   bus_handle_io call (\<lambda>s. s) PioBus 0x3fd 1 [7] True h = Some ([5], h)"
proof -
  let ?h = "iobus_register_region PioBus SerialRegion sample_bus"
    and ?call = "\<lambda>(fn :: io_fn) (off :: u64) (sz :: u8) (d :: bytes) (w :: bool) (own :: owner) (s :: iobus). Some ([ucast off :: u8], s)"
  have r: "bus_repr ?h ((\<lambda>_. [])(PioBus := [SerialRegion]))"
    using bus_repr_register [OF sample_bus_repr, of SerialRegion PioBus] by simp
  have f: "r_base (regions ?h SerialRegion) = 0x3f8" "r_len (regions ?h SerialRegion) = 8"
    "r_handle_io (regions ?h SerialRegion) = Some Serial_handle_io"
    by (simp_all add: register_fields sample_bus_def region_init_def upd_region_def const_simps)
  then have hit: "bus_hit ?h SerialRegion 0x3fd" by (simp add: bus_hit_def region_hit_def Let_def)
  obtain off :: u64 where off: "unat (0x3fd :: u64) = 0x3f8 + unat off" "bus_handle_io ?call (\<lambda>s. s) PioBus 0x3fd 1 [7] True ?h = Some ([ucast off], ?h)"
    using bus_handle_io_bounds [of "\<lambda>s. s" ?h _ 1 "0x3fd" PioBus ?call "[7]" True, OF r] f hit by auto
  then have "off = 5" by (simp add: word_unat_eq_iff)
  then show ?thesis using off(2) by simp
qed

section \<open>Invariants through the dispatcher\<close>

text \<open>What a client of the buses relies on: a property that every handler keeps is kept by every
  access that goes through a bus.\<close>

locale handler_inv =
  fixes call :: "io_fn \<Rightarrow> 's handler" and view :: "'s \<Rightarrow> iobus" and P :: "'s \<Rightarrow> bool"
  assumes call_keeps: "P s \<Longrightarrow> call fn off sz data w own s = Some (data', s') \<Longrightarrow> P s'"
begin

lemma bus_handle_io_keeps:
  "P s \<Longrightarrow> bus_handle_io call view b addr sz data w s = Some (data', s') \<Longrightarrow> P s'"
  by (auto simp: bus_handle_io_def Let_def intro: call_keeps split: Option.bind_splits option.splits if_splits)

lemma pio_loop_keeps: "P s \<Longrightarrow> handle_pio_loop call view run n off buf s = Some (buf', s') \<Longrightarrow> P s'"
proof (induction n arbitrary: off buf s)
  case (Suc n)
  then obtain chunk chunk' t buf'' where
    "bus_handle_io call view PioBus (ucast (io_port run)) (io_size run) chunk (io_out run) s = Some (chunk', t)"
    "handle_pio_loop call view run n (off + unat (io_size run)) buf'' t = Some (buf', s')"
    by (auto split: Option.bind_splits)
  then show ?case using Suc.IH bus_handle_io_keeps Suc.prems(1) by blast
qed simp

lemma handle_pio_keeps: "P s \<Longrightarrow> iobus_handle_pio call view run s = Some (run', s') \<Longrightarrow> P s'"
  by (auto simp: iobus_handle_pio_def intro: pio_loop_keeps split: Option.bind_splits)

lemma handle_mmio_keeps: "P s \<Longrightarrow> iobus_handle_mmio call view mrun s = Some (mrun', s') \<Longrightarrow> P s'"
  by (auto simp: iobus_handle_mmio_def intro: bus_handle_io_keeps split: Option.bind_splits)

end

end
