(* ===== verification/Uapi.thy ===== *)
theory Uapi
  imports Global
begin

text \<open>
  Constants and structure offsets of the Linux user-space interface headers that the sources
  include (\<open>linux/pci_regs.h\<close>, \<open>linux/virtio_pci.h\<close>, \<open>linux/virtio_config.h\<close>,
  \<open>linux/virtio_ring.h\<close>, \<open>linux/virtio_blk.h\<close>). They are a fixed binary interface,
  given by the PCI and virtio specifications, and not part of the repository.
\<close>

section \<open>PCI configuration space\<close>

definition PCI_CFG_SPACE_SIZE :: nat where "PCI_CFG_SPACE_SIZE = 256"
definition PCI_VENDOR_ID :: nat where "PCI_VENDOR_ID = 0x00"
definition PCI_DEVICE_ID :: nat where "PCI_DEVICE_ID = 0x02"
definition PCI_COMMAND :: nat where "PCI_COMMAND = 0x04"
definition PCI_STATUS :: nat where "PCI_STATUS = 0x06"
definition PCI_CLASS_REVISION :: nat where "PCI_CLASS_REVISION = 0x08"
definition PCI_HEADER_TYPE :: nat where "PCI_HEADER_TYPE = 0x0e"
definition PCI_BASE_ADDRESS_0 :: nat where "PCI_BASE_ADDRESS_0 = 0x10"
definition PCI_BASE_ADDRESS_5 :: nat where "PCI_BASE_ADDRESS_5 = 0x24"
definition PCI_CAPABILITY_LIST :: nat where "PCI_CAPABILITY_LIST = 0x34"
definition PCI_INTERRUPT_LINE :: nat where "PCI_INTERRUPT_LINE = 0x3c"
definition PCI_INTERRUPT_PIN :: nat where "PCI_INTERRUPT_PIN = 0x3d"
definition PCI_STD_NUM_BARS :: nat where "PCI_STD_NUM_BARS = 6"

definition PCI_COMMAND_IO :: u16 where "PCI_COMMAND_IO = 0x1"
definition PCI_COMMAND_MEMORY :: u16 where "PCI_COMMAND_MEMORY = 0x2"
definition PCI_STATUS_INTERRUPT :: u16 where "PCI_STATUS_INTERRUPT = 0x08"
definition PCI_STATUS_CAP_LIST :: u16 where "PCI_STATUS_CAP_LIST = 0x10"
definition PCI_HEADER_TYPE_NORMAL :: u8 where "PCI_HEADER_TYPE_NORMAL = 0"
definition PCI_CAP_ID_VNDR :: u8 where "PCI_CAP_ID_VNDR = 0x09"

lemmas pci_consts [const_simps] =
  PCI_CFG_SPACE_SIZE_def PCI_VENDOR_ID_def PCI_DEVICE_ID_def PCI_COMMAND_def PCI_STATUS_def
  PCI_CLASS_REVISION_def PCI_HEADER_TYPE_def PCI_BASE_ADDRESS_0_def PCI_BASE_ADDRESS_5_def
  PCI_CAPABILITY_LIST_def PCI_INTERRUPT_LINE_def PCI_INTERRUPT_PIN_def PCI_STD_NUM_BARS_def
  PCI_COMMAND_IO_def PCI_COMMAND_MEMORY_def PCI_STATUS_INTERRUPT_def PCI_STATUS_CAP_LIST_def
  PCI_HEADER_TYPE_NORMAL_def PCI_CAP_ID_VNDR_def

section \<open>Virtio over PCI\<close>

definition VIRTIO_PCI_CAP_COMMON_CFG :: nat where "VIRTIO_PCI_CAP_COMMON_CFG = 1"
definition VIRTIO_PCI_CAP_NOTIFY_CFG :: nat where "VIRTIO_PCI_CAP_NOTIFY_CFG = 2"
definition VIRTIO_PCI_CAP_ISR_CFG :: nat where "VIRTIO_PCI_CAP_ISR_CFG = 3"
definition VIRTIO_PCI_CAP_DEVICE_CFG :: nat where "VIRTIO_PCI_CAP_DEVICE_CFG = 4"
definition VIRTIO_PCI_CAP_PCI_CFG :: nat where "VIRTIO_PCI_CAP_PCI_CFG = 5"

text \<open>Offsets in \<open>struct virtio_pci_common_cfg\<close>, which has 56 bytes.\<close>

definition VIRTIO_PCI_COMMON_DFSELECT :: nat where "VIRTIO_PCI_COMMON_DFSELECT = 0"
definition VIRTIO_PCI_COMMON_DF :: nat where "VIRTIO_PCI_COMMON_DF = 4"
definition VIRTIO_PCI_COMMON_GFSELECT :: nat where "VIRTIO_PCI_COMMON_GFSELECT = 8"
definition VIRTIO_PCI_COMMON_GF :: nat where "VIRTIO_PCI_COMMON_GF = 12"
definition VIRTIO_PCI_COMMON_NUMQ :: nat where "VIRTIO_PCI_COMMON_NUMQ = 18"
definition VIRTIO_PCI_COMMON_Q_SELECT :: nat where "VIRTIO_PCI_COMMON_Q_SELECT = 22"
definition VIRTIO_PCI_COMMON_Q_SIZE :: nat where "VIRTIO_PCI_COMMON_Q_SIZE = 24"
definition VIRTIO_PCI_COMMON_Q_ENABLE :: nat where "VIRTIO_PCI_COMMON_Q_ENABLE = 28"
definition VIRTIO_PCI_COMMON_Q_USEDHI :: nat where "VIRTIO_PCI_COMMON_Q_USEDHI = 52"
definition COMMON_CFG_SIZE :: nat where "COMMON_CFG_SIZE = 56"

definition VIRTIO_F_VERSION_1 :: nat where "VIRTIO_F_VERSION_1 = 32"
definition VIRTIO_F_RING_PACKED :: nat where "VIRTIO_F_RING_PACKED = 34"

lemmas virtio_pci_consts [const_simps] =
  VIRTIO_PCI_CAP_COMMON_CFG_def VIRTIO_PCI_CAP_NOTIFY_CFG_def VIRTIO_PCI_CAP_ISR_CFG_def
  VIRTIO_PCI_CAP_DEVICE_CFG_def VIRTIO_PCI_CAP_PCI_CFG_def
  VIRTIO_PCI_COMMON_DFSELECT_def VIRTIO_PCI_COMMON_DF_def VIRTIO_PCI_COMMON_GFSELECT_def
  VIRTIO_PCI_COMMON_GF_def VIRTIO_PCI_COMMON_NUMQ_def VIRTIO_PCI_COMMON_Q_SELECT_def
  VIRTIO_PCI_COMMON_Q_SIZE_def VIRTIO_PCI_COMMON_Q_ENABLE_def VIRTIO_PCI_COMMON_Q_USEDHI_def
  COMMON_CFG_SIZE_def VIRTIO_F_VERSION_1_def VIRTIO_F_RING_PACKED_def

section \<open>Terminal modes\<close>

definition ICANON :: u32 where "ICANON = 0x2"
definition ECHO :: u32 where "ECHO = 0x8"

lemmas termios_consts [const_simps] = ICANON_def ECHO_def

section \<open>Packed virtqueues and block requests\<close>

definition VRING_DESC_F_NEXT :: u16 where "VRING_DESC_F_NEXT = 1"
definition VRING_PACKED_DESC_F_AVAIL :: nat where "VRING_PACKED_DESC_F_AVAIL = 7"
definition VRING_PACKED_DESC_F_USED :: nat where "VRING_PACKED_DESC_F_USED = 15"
definition VRING_PACKED_EVENT_FLAG_ENABLE :: u16 where "VRING_PACKED_EVENT_FLAG_ENABLE = 0"

definition VIRTIO_BLK_T_IN :: u32 where "VIRTIO_BLK_T_IN = 0"
definition VIRTIO_BLK_T_OUT :: u32 where "VIRTIO_BLK_T_OUT = 1"
definition VIRTIO_BLK_S_OK :: u8 where "VIRTIO_BLK_S_OK = 0"
definition VIRTIO_BLK_S_IOERR :: u8 where "VIRTIO_BLK_S_IOERR = 1"
definition VIRTIO_BLK_S_UNSUPP :: u8 where "VIRTIO_BLK_S_UNSUPP = 2"

lemmas vring_consts [const_simps] =
  VRING_DESC_F_NEXT_def VRING_PACKED_DESC_F_AVAIL_def VRING_PACKED_DESC_F_USED_def
  VRING_PACKED_EVENT_FLAG_ENABLE_def VIRTIO_BLK_T_IN_def VIRTIO_BLK_T_OUT_def VIRTIO_BLK_S_OK_def
  VIRTIO_BLK_S_IOERR_def VIRTIO_BLK_S_UNSUPP_def

end
