(* ===== verification/Pci.thy ===== *)
theory Pci
  imports Iobus Uapi
begin

text \<open>
  \<open>src/pci.c\<close> and \<open>src/pci.h\<close>: the configuration mechanism at ports CF8/CFC, the
  configuration space of a device, and the registration of its BARs on the I/O buses. A device
  is known by a number; its configuration region and its six BAR regions are objects of the bus
  store of \<open>Iobus\<close>.
\<close>

section \<open>State\<close>

record pci_dev =
  cfg_space :: bytes
  bar_size :: "u32 list"
  bar_active :: "bool list"
  bar_is_io_space :: "bool list"

record pci_state =
  io :: iobus
  pci_addr :: u32
  pci_devs :: "nat \<Rightarrow> pci_dev"

definition zero_dev :: pci_dev where
  "zero_dev = \<lparr>cfg_space = replicate 256 0, bar_size = replicate 6 0, bar_active = replicate 6 False,
     bar_is_io_space = replicate 6 False\<rparr>"

text \<open>\<open>union pci_config_address\<close>: the register number occupies bits 2 to 7, function 8 to 10,
  device 11 to 15, bus 16 to 23, and the enable bit is bit 31.\<close>

definition pci_config_address :: "8 word \<Rightarrow> 5 word \<Rightarrow> 3 word \<Rightarrow> 6 word \<Rightarrow> bool \<Rightarrow> u32" where
  "pci_config_address bus_num dev_num func_num reg_num enable_bit =
     push_bit 2 (ucast reg_num) OR push_bit 8 (ucast func_num) OR push_bit 11 (ucast dev_num) OR
     push_bit 16 (ucast bus_num) OR (if enable_bit then 0x80000000 else 0)"

definition upd_dev :: "nat \<Rightarrow> (pci_dev \<Rightarrow> pci_dev) \<Rightarrow> pci_state \<Rightarrow> pci_state" where
  "upd_dev d f s = s\<lparr>pci_devs := (pci_devs s)(d := f (pci_devs s d))\<rparr>"

text \<open>\<open>PCI_HDR_READ\<close> and \<open>PCI_HDR_WRITE\<close>; \<open>hdr\<close> points to \<open>cfg_space\<close> from
  \<open>pci_dev_init\<close> on.\<close>

definition PCI_HDR_READ :: "pci_dev \<Rightarrow> nat \<Rightarrow> nat \<Rightarrow> 'a::len word option" where
  "PCI_HDR_READ dev offset width = map_option of_le (obj_read (cfg_space dev) offset (width div 8))"

definition PCI_HDR_WRITE :: "nat \<Rightarrow> 'a::len word \<Rightarrow> nat \<Rightarrow> pci_dev \<Rightarrow> pci_dev option" where
  "PCI_HDR_WRITE offset v width dev =
     do { c \<leftarrow> obj_write (cfg_space dev) offset (le_bytes (width div 8) v); Some (dev\<lparr>cfg_space := c\<rparr>) }"

definition PCI_BAR_OFFSET :: "nat \<Rightarrow> nat" where
  "PCI_BAR_OFFSET bar = PCI_BASE_ADDRESS_0 + bar * 4"

text \<open>\<open>memcpy\<close> from the start of a buffer, and to the start of a buffer.\<close>

definition buf_take :: "bytes \<Rightarrow> u8 \<Rightarrow> bytes option" where
  "buf_take data sz = obj_read data 0 (unat sz)"

definition buf_put :: "bytes \<Rightarrow> bytes \<Rightarrow> bytes option" where
  "buf_put data bs = obj_write data 0 bs"

section \<open>The bus\<close>

definition pcibus_addr_io :: "pci_state handler" where
  "pcibus_addr_io offset sz data is_write own s =
     (if is_write
      then do { bs \<leftarrow> buf_take data sz;
                a \<leftarrow> obj_write (le_bytes 4 (pci_addr s)) (unat offset) bs;
                Some (data, s\<lparr>pci_addr := of_le a AND NOT 3\<rparr>) }
      else do { bs \<leftarrow> obj_read (le_bytes 4 (pci_addr s)) (unat offset) (unat sz);
                data' \<leftarrow> buf_put data bs;
                Some (data', s\<lparr>pci_addr := pci_addr s AND NOT 3\<rparr>) })"

text \<open>The lookup, the bounds check and the call are those of \<open>bus_handle_io\<close>, on the PCI bus.\<close>

definition pcibus_data_io :: "(io_fn \<Rightarrow> 's handler) \<Rightarrow> ('s \<Rightarrow> pci_state) \<Rightarrow> 's handler" where
  "pcibus_data_io call view offset sz data is_write own s =
     (let addr = ucast (pci_addr (view s)) OR offset
      in bus_handle_io call (\<lambda>s. io (view s)) PciBus addr sz data is_write s)"

definition pcibus_init :: "pci_state \<Rightarrow> pci_state" where
  "pcibus_init s =
     (let h1 = region_init PciAddrRegion IO_PCI_CONFIG_ADDR_START IO_PCI_CONFIG_ADDR_SIZE NoOwner Pcibus_addr_io (io s);
          h2 = iobus_register_region PioBus PciAddrRegion h1;
          h3 = region_init PciDataRegion IO_PCI_CONFIG_DATA_START IO_PCI_CONFIG_DATA_SIZE NoOwner Pcibus_data_io h2;
          h4 = iobus_register_region PioBus PciDataRegion h3;
          h5 = upd_bus PciBus (\<lambda>b. b\<lparr>region_count := 0, bus_head := None\<rparr>) h4
      in s\<lparr>io := h5\<rparr>)"

definition pcibus_register_dev :: "nat \<Rightarrow> io_fn \<Rightarrow> pci_state \<Rightarrow> pci_state" where
  "pcibus_register_dev d handle_io s =
     (let num = (ucast (region_count (buses (io s) PciBus)) :: u32);
          addr = pci_config_address 0 (ucast num) 0 0 True;
          h1 = region_init (ConfigRegion d) (ucast addr) (of_nat PCI_CFG_SPACE_SIZE) (PciDev d) handle_io (io s)
      in s\<lparr>io := iobus_register_region PciBus (ConfigRegion d) h1\<rparr>)"

section \<open>Devices\<close>

definition bar_mask :: "pci_dev \<Rightarrow> nat \<Rightarrow> u32" where
  "bar_mask dev i = NOT (bar_size dev ! i - 1)"

definition bar_based :: "pci_state \<Rightarrow> nat \<Rightarrow> nat \<Rightarrow> bool" where
  "bar_based s d i \<longleftrightarrow> r_base (regions (io s) (BarRegion d i)) AND ucast (bar_mask (pci_devs s d) i) \<noteq> 0"

definition set_active :: "nat \<Rightarrow> nat \<Rightarrow> bool \<Rightarrow> pci_state \<Rightarrow> pci_state" where
  "set_active d i b = upd_dev d (\<lambda>dev. dev\<lparr>bar_active := (bar_active dev)[i := b]\<rparr>)"

definition bar_command :: "nat \<Rightarrow> bool \<Rightarrow> bool \<Rightarrow> nat \<Rightarrow> pci_state \<Rightarrow> pci_state option" where
  "bar_command d enable_io enable_mem i s =
     (let dev = pci_devs s d;
          b = (if bar_is_io_space dev ! i then PioBus else MmioBus);
          enable = (if bar_is_io_space dev ! i then enable_io else enable_mem)
      in if enable
         then let s1 = (if \<not> bar_active dev ! i \<and> bar_based s d i
                        then s\<lparr>io := iobus_register_region b (BarRegion d i) (io s)\<rparr> else s)
              in Some (set_active d i True s1)
         else do { s1 \<leftarrow> (if bar_active dev ! i \<and> bar_based s d i
                         then do { h \<leftarrow> iobus_deregister_region (BarRegion d i) (io s); Some (s\<lparr>io := h\<rparr>) }
                         else Some s);
                   Some (set_active d i False s1) })"

primrec bar_commands :: "nat \<Rightarrow> bool \<Rightarrow> bool \<Rightarrow> nat list \<Rightarrow> pci_state \<Rightarrow> pci_state option" where
  "bar_commands d enable_io enable_mem [] s = Some s"
| "bar_commands d enable_io enable_mem (i # is) s =
     do { s' \<leftarrow> bar_command d enable_io enable_mem i s; bar_commands d enable_io enable_mem is s' }"

definition pci_bar_command :: "nat \<Rightarrow> pci_state \<Rightarrow> pci_state option" where
  "pci_bar_command d s =
     do { cmd \<leftarrow> PCI_HDR_READ (pci_devs s d) PCI_COMMAND 16;
          bar_commands d (cmd AND PCI_COMMAND_IO \<noteq> 0) (cmd AND PCI_COMMAND_MEMORY \<noteq> 0)
            [0..<PCI_STD_NUM_BARS] s }"

definition pci_bar_config :: "nat \<Rightarrow> u8 \<Rightarrow> pci_state \<Rightarrow> pci_state option" where
  "pci_bar_config d bar s =
     (let dev = pci_devs s d; i = unat bar in
      do { old_bar \<leftarrow> PCI_HDR_READ dev (PCI_BAR_OFFSET i) 32;
           let new_bar = ((old_bar AND bar_mask dev i) OR (if bar_is_io_space dev ! i then 1 else 0) :: u32)
           in do { dev' \<leftarrow> PCI_HDR_WRITE (PCI_BAR_OFFSET i) new_bar 32 dev;
                   Some (upd_dev d (\<lambda>_. dev')
                     (s\<lparr>io := upd_region (BarRegion d i) (r_base_update (\<lambda>_. ucast new_bar)) (io s)\<rparr>)) } })"

definition pci_config_write :: "nat \<Rightarrow> bytes \<Rightarrow> u64 \<Rightarrow> u8 \<Rightarrow> pci_state \<Rightarrow> pci_state option" where
  "pci_config_write d data offset sz s =
     do { bs \<leftarrow> buf_take data sz;
          c \<leftarrow> obj_write (cfg_space (pci_devs s d)) (unat offset) bs;
          let s1 = upd_dev d (\<lambda>dev. dev\<lparr>cfg_space := c\<rparr>) s
          in if unat offset = PCI_COMMAND then pci_bar_command d s1
             else if unat offset \<ge> PCI_BASE_ADDRESS_0 \<and> unat offset \<le> PCI_BASE_ADDRESS_5
             then pci_bar_config d (ucast (drop_bit 2 (offset - of_nat PCI_BASE_ADDRESS_0))) s1
             else Some s1 }"

definition pci_config_read :: "nat \<Rightarrow> bytes \<Rightarrow> u64 \<Rightarrow> u8 \<Rightarrow> pci_state \<Rightarrow> bytes option" where
  "pci_config_read d data offset sz s =
     do { bs \<leftarrow> obj_read (cfg_space (pci_devs s d)) (unat offset) (unat sz); buf_put data bs }"

definition pci_config_handle_io :: "pci_state handler" where
  "pci_config_handle_io offset sz data is_write own s =
     (case own of
        NoOwner \<Rightarrow> None
      | PciDev d \<Rightarrow>
          if is_write then do { s' \<leftarrow> pci_config_write d data offset sz s; Some (data, s') }
          else do { data' \<leftarrow> pci_config_read d data offset sz s; Some (data', s) })"

definition pci_init_bar :: "nat \<Rightarrow> u8 \<Rightarrow> u32 \<Rightarrow> bool \<Rightarrow> io_fn \<Rightarrow> pci_state \<Rightarrow> pci_state option" where
  "pci_init_bar d bar bar_sz is_io_space handle_io s =
     (let i = unat bar in
      if i < PCI_STD_NUM_BARS
      then do { dev \<leftarrow> PCI_HDR_WRITE (PCI_BAR_OFFSET i) (if is_io_space then 1 else 0 :: u32) 32 (pci_devs s d);
                let dev' = dev\<lparr>bar_size := (bar_size dev)[i := bar_sz],
                               bar_is_io_space := (bar_is_io_space dev)[i := is_io_space]\<rparr>
                in Some (upd_dev d (\<lambda>_. dev')
                     (s\<lparr>io := region_init (BarRegion d i) 0 (ucast bar_sz) (PciDev d) handle_io (io s)\<rparr>)) }
      else None)"

text \<open>\<open>memset\<close> clears the device with the regions embedded in it.\<close>

definition clear_regions :: "nat \<Rightarrow> iobus \<Rightarrow> iobus" where
  "clear_regions d h =
     h\<lparr>regions := (\<lambda>r. if r = ConfigRegion d \<or> (\<exists>i\<in>{..<6}. r = BarRegion d i) then zero_io_region else regions h r)\<rparr>"

definition pci_dev_init :: "nat \<Rightarrow> pci_state \<Rightarrow> pci_state" where
  "pci_dev_init d s =
     pcibus_register_dev d Pci_config_handle_io
       (upd_dev d (\<lambda>_. zero_dev) (s\<lparr>io := clear_regions d (io s)\<rparr>))"

section \<open>Accesses to one configuration space\<close>

definition dev_wf :: "pci_dev \<Rightarrow> bool" where
  "dev_wf dev \<longleftrightarrow> length (cfg_space dev) = PCI_CFG_SPACE_SIZE \<and> length (bar_size dev) = PCI_STD_NUM_BARS \<and>
     length (bar_active dev) = PCI_STD_NUM_BARS \<and> length (bar_is_io_space dev) = PCI_STD_NUM_BARS"

lemma upd_dev_simps [simp]:
  "io (upd_dev d f s) = io s" "pci_addr (upd_dev d f s) = pci_addr s"
  "pci_devs (upd_dev d f s) = (pci_devs s)(d := f (pci_devs s d))"
  by (simp_all add: upd_dev_def)

lemma dev_wf_cfg [simp]: "length c = PCI_CFG_SPACE_SIZE \<Longrightarrow> dev_wf dev \<Longrightarrow> dev_wf (dev\<lparr>cfg_space := c\<rparr>)"
  by (simp add: dev_wf_def)

lemma dev_wf_active [simp]: "dev_wf (dev\<lparr>bar_active := (bar_active dev)[i := b]\<rparr>) \<longleftrightarrow> dev_wf dev"
  by (simp add: dev_wf_def)

lemma hdr_write_ok:
  assumes "dev_wf dev" "a + n \<le> PCI_CFG_SPACE_SIZE" "length bs = n"
  obtains c where "obj_write (cfg_space dev) a bs = Some c" "dev_wf (dev\<lparr>cfg_space := c\<rparr>)"
    "obj_read c a n = Some bs"
    "\<And>b k. b + k \<le> PCI_CFG_SPACE_SIZE \<Longrightarrow> apart (a, n) (b, k) \<Longrightarrow> obj_read c b k = obj_read (cfg_space dev) b k"
proof -
  have ok: "obj_ok (cfg_space dev) a (length bs)"
    using assms by (simp add: obj_ok_def dev_wf_def)
  then obtain c where c: "obj_write (cfg_space dev) a bs = Some c"
    using obj_store.wr_total by blast
  have len: "length c = PCI_CFG_SPACE_SIZE" using length_obj_write [OF c] assms(1) by (simp add: dev_wf_def)
  show ?thesis
  proof (rule that [OF c])
    show "dev_wf (dev\<lparr>cfg_space := c\<rparr>)" using len assms(1) by simp
    show "obj_read c a n = Some bs" using obj_store.rd_wr_same [OF ok c] assms(3) by simp
    show "obj_read c b k = obj_read (cfg_space dev) b k"
      if "b + k \<le> PCI_CFG_SPACE_SIZE" "apart (a, n) (b, k)" for b k
      using obj_store.rd_wr_other [OF ok c] that assms by (simp add: obj_ok_def dev_wf_def)
  qed
qed

lemma hdr_read_ok: "dev_wf dev \<Longrightarrow> a + w div 8 \<le> PCI_CFG_SPACE_SIZE \<Longrightarrow> \<exists>v. PCI_HDR_READ dev a w = Some v"
  by (simp add: PCI_HDR_READ_def obj_read_def dev_wf_def)

section \<open>BARs and the bus\<close>

definition bar_bus :: "pci_dev \<Rightarrow> nat \<Rightarrow> bus_id" where
  "bar_bus dev i = (if bar_is_io_space dev ! i then PioBus else MmioBus)"

text \<open>The regions of the device are on the buses exactly as its \<open>bar_active\<close> flags and the
  bases say.\<close>

definition bars_synced :: "nat \<Rightarrow> pci_state \<Rightarrow> (bus_id \<Rightarrow> region_id list) \<Rightarrow> bool" where
  "bars_synced d s l \<longleftrightarrow> dev_wf (pci_devs s d) \<and> bus_repr (io s) l \<and>
     (\<forall>i<PCI_STD_NUM_BARS. \<forall>b. BarRegion d i \<in> set (l b) \<longleftrightarrow>
        b = bar_bus (pci_devs s d) i \<and> bar_active (pci_devs s d) ! i \<and> bar_based s d i)"

definition bar_enable :: "pci_dev \<Rightarrow> bool \<Rightarrow> bool \<Rightarrow> nat \<Rightarrow> bool" where
  "bar_enable dev enable_io enable_mem i = (if bar_is_io_space dev ! i then enable_io else enable_mem)"

lemmas bars_synced_simps = bars_synced_def set_active_def bar_based_def bar_mask_def bar_bus_def

text \<open>The lists after one round of the loop of \<open>pci_bar_command\<close>.\<close>

definition bar_lists :: "bool \<Rightarrow> region_id \<Rightarrow> bus_id \<Rightarrow> (bus_id \<Rightarrow> region_id list) \<Rightarrow> bus_id \<Rightarrow> region_id list" where
  "bar_lists on r b l = (if on then if r \<in> set (l b) then l else l(b := r # l b) else (\<lambda>c. removeAll r (l c)))"

lemma set_bar_lists_other: "x \<noteq> r \<Longrightarrow> x \<in> set (bar_lists on r b l c) \<longleftrightarrow> x \<in> set (l c)"
  by (simp add: bar_lists_def)

lemma set_bar_lists_same:
  assumes "\<And>c. r \<in> set (l c) \<Longrightarrow> c = b"
  shows "r \<in> set (bar_lists on r b l c) \<longleftrightarrow> on \<and> c = b"
proof (cases "r \<in> set (l b)")
  case True
  then show ?thesis using assms [of c] by (cases "c = b") (auto simp: bar_lists_def)
next
  case False
  then show ?thesis using assms [of c] by (cases "c = b") (auto simp: bar_lists_def)
qed

text \<open>A round keeps every base and size, so it keeps \<open>bar_based\<close>.\<close>

lemma bar_command_round:
  fixes eio emem :: bool
  assumes sync: "bars_synced d s l" and i: "i < PCI_STD_NUM_BARS"
  defines "dev \<equiv> pci_devs s d"
  defines "on \<equiv> bar_enable dev eio emem i"
  shows "\<exists>h. bar_command d eio emem i s =
           Some (s\<lparr>io := h, pci_devs := (pci_devs s)(d := dev\<lparr>bar_active := (bar_active dev)[i := on]\<rparr>)\<rparr>) \<and>
         bus_repr h (bar_lists (on \<and> bar_based s d i) (BarRegion d i) (bar_bus dev i) l) \<and>
         (\<forall>r. r_base (regions h r) = r_base (regions (io s) r))"
proof -
  let ?r = "BarRegion d i" and ?b = "bar_bus dev i"
  have mem: "?r \<in> set (l c) \<longleftrightarrow> c = ?b \<and> bar_active dev ! i \<and> bar_based s d i" for c
    using sync i by (simp add: bars_synced_def dev_def)
  have rep: "bus_repr (io s) l" using sync by (simp add: bars_synced_def)
  show ?thesis
  proof (cases "on")
    case True
    show ?thesis
    proof (cases "\<not> bar_active dev ! i \<and> bar_based s d i")
      case reg: True
      then have "bus_repr (iobus_register_region ?b ?r (io s)) (l(?b := ?r # l ?b))"
        using bus_repr_register [OF rep] mem by simp
      with reg True show ?thesis
        using mem
        by (auto simp: bar_command_def Let_def dev_def on_def bar_enable_def set_active_def upd_dev_def
            bar_lists_def bar_bus_def register_fields intro!: exI [of _ "iobus_register_region ?b ?r (io s)"])
    next
      case False
      have "bar_lists (bar_based s d i) ?r ?b l = l"
        using mem False by (auto simp: bar_lists_def fun_eq_iff)
      with False True show ?thesis
        using rep
        by (auto simp: bar_command_def Let_def dev_def on_def bar_enable_def set_active_def upd_dev_def
            intro!: exI [of _ "io s"])
    qed
  next
    case off: False
    show ?thesis
    proof (cases "bar_active dev ! i \<and> bar_based s d i")
      case True
      obtain h where h: "iobus_deregister_region ?r (io s) = Some h" "bus_repr h (\<lambda>c. removeAll ?r (l c))"
        using bus_repr_deregister [OF rep] by blast
      with True off show ?thesis
        by (auto simp: bar_command_def Let_def dev_def on_def bar_enable_def set_active_def upd_dev_def
            bar_lists_def deregister_fields [OF h(1)] intro!: exI [of _ h])
    next
      case False
      have "(\<lambda>c. removeAll ?r (l c)) = l" using mem False by (auto simp: fun_eq_iff)
      with False off show ?thesis
        using rep
        by (auto simp: bar_command_def Let_def dev_def on_def bar_enable_def set_active_def upd_dev_def
            bar_lists_def intro!: exI [of _ "io s"])
    qed
  qed
qed

text \<open>What the loop of \<open>pci_bar_command\<close> leaves alone.\<close>

definition cmd_frame :: "nat \<Rightarrow> pci_state \<Rightarrow> pci_state \<Rightarrow> bool" where
  "cmd_frame d s s' \<longleftrightarrow> pci_addr s' = pci_addr s \<and>
     (\<exists>act. pci_devs s' = (pci_devs s)(d := (pci_devs s d)\<lparr>bar_active := act\<rparr>)) \<and>
     (\<forall>r. r_base (regions (io s') r) = r_base (regions (io s) r))"

lemma cmd_frame_refl: "cmd_frame d s s"
proof -
  have "pci_devs s = (pci_devs s)(d := (pci_devs s d)\<lparr>bar_active := bar_active (pci_devs s d)\<rparr>)" by simp
  then show ?thesis unfolding cmd_frame_def by blast
qed

lemma cmd_frame_trans: "cmd_frame d s t \<Longrightarrow> cmd_frame d t u \<Longrightarrow> cmd_frame d s u"
  by (auto simp: cmd_frame_def)

lemma cmd_frame_dev:
  assumes "cmd_frame d s s'"
  shows "cfg_space (pci_devs s' d) = cfg_space (pci_devs s d)" "bar_size (pci_devs s' d) = bar_size (pci_devs s d)"
    "bar_is_io_space (pci_devs s' d) = bar_is_io_space (pci_devs s d)" "bar_based s' d i = bar_based s d i"
    "bar_bus (pci_devs s' d) i = bar_bus (pci_devs s d) i"
    "bar_enable (pci_devs s' d) eio emem i = bar_enable (pci_devs s d) eio emem i"
  using assms by (auto simp: cmd_frame_def bar_based_def bar_mask_def bar_bus_def bar_enable_def)

lemma bar_command_sync:
  assumes sync: "bars_synced d s l" and i: "i < PCI_STD_NUM_BARS"
  shows "\<exists>s' l'. bar_command d eio emem i s = Some s' \<and> bars_synced d s' l' \<and> cmd_frame d s s' \<and>
    bar_active (pci_devs s' d) = (bar_active (pci_devs s d))[i := bar_enable (pci_devs s d) eio emem i] \<and>
    (\<forall>r b. (\<forall>j. r \<noteq> BarRegion d j) \<longrightarrow> r \<in> set (l' b) \<longleftrightarrow> r \<in> set (l b))"
proof -
  define dev where "dev = pci_devs s d"
  define on where "on = bar_enable dev eio emem i"
  define l' where "l' = bar_lists (on \<and> bar_based s d i) (BarRegion d i) (bar_bus dev i) l"
  obtain h where h: "bar_command d eio emem i s =
        Some (s\<lparr>io := h, pci_devs := (pci_devs s)(d := dev\<lparr>bar_active := (bar_active dev)[i := on]\<rparr>)\<rparr>)"
      "bus_repr h l'" "\<And>r. r_base (regions h r) = r_base (regions (io s) r)"
    using bar_command_round [OF assms, of eio emem] unfolding dev_def on_def l'_def by blast
  define s' where "s' = s\<lparr>io := h, pci_devs := (pci_devs s)(d := dev\<lparr>bar_active := (bar_active dev)[i := on]\<rparr>)\<rparr>"
  have frame: "cmd_frame d s s'" using h(3) by (auto simp: cmd_frame_def s'_def dev_def)
  have wf: "dev_wf dev" and old: "BarRegion d j \<in> set (l b) \<longleftrightarrow> b = bar_bus dev j \<and> bar_active dev ! j \<and> bar_based s d j"
    if "j < PCI_STD_NUM_BARS" for j b
    using sync that by (simp_all add: bars_synced_def dev_def)
  have "BarRegion d j \<in> set (l' b) \<longleftrightarrow>
      b = bar_bus (pci_devs s' d) j \<and> bar_active (pci_devs s' d) ! j \<and> bar_based s' d j"
    if j: "j < PCI_STD_NUM_BARS" for j b
  proof (cases "j = i")
    case True
    have "BarRegion d i \<in> set (l' b) \<longleftrightarrow> (on \<and> bar_based s d i) \<and> b = bar_bus dev i"
      unfolding l'_def by (rule set_bar_lists_same) (simp add: old i)
    moreover have "bar_active (pci_devs s' d) ! i = on"
      using wf [OF i] i by (simp add: s'_def dev_wf_def)
    ultimately show ?thesis using True by (auto simp: cmd_frame_dev [OF frame] dev_def)
  next
    case False
    then show ?thesis
      using old [OF j] by (simp add: l'_def set_bar_lists_other cmd_frame_dev [OF frame] dev_def) (simp add: s'_def dev_def)
  qed
  moreover have "dev_wf (pci_devs s' d)" using wf [OF i] by (simp add: s'_def)
  ultimately have "bars_synced d s' l'" using h(2) by (simp add: bars_synced_def s'_def)
  moreover have "\<forall>r b. (\<forall>j. r \<noteq> BarRegion d j) \<longrightarrow> r \<in> set (l' b) \<longleftrightarrow> r \<in> set (l b)"
    by (simp add: l'_def set_bar_lists_other)
  moreover have "bar_active (pci_devs s' d) = (bar_active (pci_devs s d))[i := bar_enable (pci_devs s d) eio emem i]"
    by (simp add: s'_def dev_def on_def)
  ultimately show ?thesis using h(1) frame unfolding s'_def [symmetric] by blast
qed

lemma bar_commands_sync:
  "bars_synced d s l \<Longrightarrow> set is \<subseteq> {..<PCI_STD_NUM_BARS} \<Longrightarrow>
   \<exists>s' l'. bar_commands d eio emem is s = Some s' \<and> bars_synced d s' l' \<and> cmd_frame d s s' \<and>
     (\<forall>i<PCI_STD_NUM_BARS. bar_active (pci_devs s' d) ! i =
        (if i \<in> set is then bar_enable (pci_devs s d) eio emem i else bar_active (pci_devs s d) ! i)) \<and>
     (\<forall>r b. (\<forall>j. r \<noteq> BarRegion d j) \<longrightarrow> r \<in> set (l' b) \<longleftrightarrow> r \<in> set (l b))"
proof (induction "is" arbitrary: s l)
  case Nil
  then show ?case by (auto intro!: exI [of _ l] cmd_frame_refl)
next
  case (Cons i "is")
  have i: "i < PCI_STD_NUM_BARS" using Cons.prems(2) by simp
  from bar_command_sync [OF Cons.prems(1) i] obtain t k where
    t: "bar_command d eio emem i s = Some t" "bars_synced d t k" "cmd_frame d s t"
      "bar_active (pci_devs t d) = (bar_active (pci_devs s d))[i := bar_enable (pci_devs s d) eio emem i]"
      "\<forall>r b. (\<forall>j. r \<noteq> BarRegion d j) \<longrightarrow> r \<in> set (k b) \<longleftrightarrow> r \<in> set (l b)" by blast
  have "set is \<subseteq> {..<PCI_STD_NUM_BARS}" using Cons.prems(2) by simp
  from Cons.IH [OF t(2) this] obtain s' l' where
    s': "bar_commands d eio emem is t = Some s'" "bars_synced d s' l'" "cmd_frame d t s'"
      "\<forall>i<PCI_STD_NUM_BARS. bar_active (pci_devs s' d) ! i =
        (if i \<in> set is then bar_enable (pci_devs t d) eio emem i else bar_active (pci_devs t d) ! i)"
      "\<forall>r b. (\<forall>j. r \<noteq> BarRegion d j) \<longrightarrow> r \<in> set (l' b) \<longleftrightarrow> r \<in> set (k b)" by blast
  have len: "length (bar_active (pci_devs s d)) = PCI_STD_NUM_BARS"
    using Cons.prems(1) by (simp add: bars_synced_def dev_wf_def)
  have "\<forall>j<PCI_STD_NUM_BARS. bar_active (pci_devs s' d) ! j =
        (if j \<in> set (i # is) then bar_enable (pci_devs s d) eio emem j else bar_active (pci_devs s d) ! j)"
    using s'(4) t(4) len by (auto simp: cmd_frame_dev(6) [OF t(3)] nth_list_update)
  moreover have "\<forall>r b. (\<forall>j. r \<noteq> BarRegion d j) \<longrightarrow> r \<in> set (l' b) \<longleftrightarrow> r \<in> set (l b)"
    using s'(5) t(5) by blast
  moreover have "bar_commands d eio emem (i # is) s = Some s'" using t(1) s'(1) by simp
  ultimately show ?case
    using s'(2) cmd_frame_trans [OF t(3) s'(3)] by blast
qed

section \<open>Effects of configuration writes\<close>

lemma bar_cases: "i < PCI_STD_NUM_BARS \<Longrightarrow> i = 0 \<or> i = 1 \<or> i = 2 \<or> i = 3 \<or> i = 4 \<or> i = 5"
  by (simp add: const_simps) linarith

lemma bar_offset_bounds:
  "i < PCI_STD_NUM_BARS \<Longrightarrow> PCI_BASE_ADDRESS_0 \<le> PCI_BAR_OFFSET i \<and> PCI_BAR_OFFSET i \<le> PCI_BASE_ADDRESS_5 \<and>
     PCI_BAR_OFFSET i + 4 \<le> PCI_CFG_SPACE_SIZE \<and> PCI_BAR_OFFSET i \<noteq> PCI_COMMAND \<and>
     unat (of_nat (PCI_BAR_OFFSET i) :: u64) = PCI_BAR_OFFSET i"
  by (drule bar_cases, elim disjE) (simp_all add: PCI_BAR_OFFSET_def const_simps)

lemma bar_index:
  "i < PCI_STD_NUM_BARS \<Longrightarrow>
     unat (ucast (drop_bit 2 ((of_nat (PCI_BAR_OFFSET i) :: u64) - of_nat PCI_BASE_ADDRESS_0)) :: u8) = i"
  by (drule bar_cases, elim disjE) (simp_all add: PCI_BAR_OFFSET_def const_simps)

text \<open>A BAR write leaves the device with the masked value in the header and moves the region,
  and touches no bus.\<close>

lemma config_write_bar:
  assumes "dev_wf (pci_devs s d)" "i < PCI_STD_NUM_BARS"
  defines "new v \<equiv> (v AND bar_mask (pci_devs s d) i) OR (if bar_is_io_space (pci_devs s d) ! i then 1 else 0)"
  shows "\<exists>c. pci_config_write d (le_bytes 4 v) (of_nat (PCI_BAR_OFFSET i)) 4 s =
      Some (s\<lparr>io := upd_region (BarRegion d i) (r_base_update (\<lambda>_. ucast (new v))) (io s),
              pci_devs := (pci_devs s)(d := (pci_devs s d)\<lparr>cfg_space := c\<rparr>)\<rparr>) \<and>
    length c = PCI_CFG_SPACE_SIZE \<and> obj_read c (PCI_BAR_OFFSET i) 4 = Some (le_bytes 4 (new v)) \<and>
    (\<forall>b k. b + k \<le> PCI_CFG_SPACE_SIZE \<longrightarrow> apart (PCI_BAR_OFFSET i, 4) (b, k) \<longrightarrow>
       obj_read c b k = obj_read (cfg_space (pci_devs s d)) b k)"
proof -
  let ?a = "PCI_BAR_OFFSET i" and ?dev = "pci_devs s d"
  note off = bar_offset_bounds [OF assms(2)]
  obtain c1 where c1: "obj_write (cfg_space ?dev) ?a (le_bytes 4 v) = Some c1" "dev_wf (?dev\<lparr>cfg_space := c1\<rparr>)"
      "obj_read c1 ?a 4 = Some (le_bytes 4 v)"
      "\<And>b k. b + k \<le> PCI_CFG_SPACE_SIZE \<Longrightarrow> apart (?a, 4) (b, k) \<Longrightarrow> obj_read c1 b k = obj_read (cfg_space ?dev) b k"
    using hdr_write_ok [OF assms(1), of ?a 4 "le_bytes 4 v"] off by auto
  obtain c2 where c2: "obj_write (cfg_space (?dev\<lparr>cfg_space := c1\<rparr>)) ?a (le_bytes 4 (new v)) = Some c2"
      "dev_wf (?dev\<lparr>cfg_space := c1, cfg_space := c2\<rparr>)" "obj_read c2 ?a 4 = Some (le_bytes 4 (new v))"
      "\<And>b k. b + k \<le> PCI_CFG_SPACE_SIZE \<Longrightarrow> apart (?a, 4) (b, k) \<Longrightarrow>
         obj_read c2 b k = obj_read (cfg_space (?dev\<lparr>cfg_space := c1\<rparr>)) b k"
    using hdr_write_ok [OF c1(2), of ?a 4 "le_bytes 4 (new v)"] off by auto
  have take: "buf_take (le_bytes 4 v) 4 = Some (le_bytes 4 v)" by (simp add: buf_take_def obj_read_def)
  have "pci_config_write d (le_bytes 4 v) (of_nat ?a) 4 s =
      Some (s\<lparr>io := upd_region (BarRegion d i) (r_base_update (\<lambda>_. ucast (new v))) (io s),
              pci_devs := (pci_devs s)(d := ?dev\<lparr>cfg_space := c2\<rparr>)\<rparr>)"
    using take c1(1,3) c2(1) off
    by (simp add: pci_config_write_def pci_bar_config_def bar_index [OF assms(2)] PCI_HDR_READ_def
        PCI_HDR_WRITE_def Let_def upd_dev_def bar_mask_def new_def)
  then show ?thesis
    using c1(4) c2(2-4) by (auto simp: dev_wf_def)
qed

lemma config_write_command:
  assumes "dev_wf (pci_devs s d)"
  shows "\<exists>c. pci_config_write d (le_bytes 2 cmd) (of_nat PCI_COMMAND) 2 s =
      bar_commands d (cmd AND PCI_COMMAND_IO \<noteq> 0) (cmd AND PCI_COMMAND_MEMORY \<noteq> 0) [0..<PCI_STD_NUM_BARS]
        (upd_dev d (\<lambda>dev. dev\<lparr>cfg_space := c\<rparr>) s) \<and>
    length c = PCI_CFG_SPACE_SIZE \<and>
    (\<forall>b k. b + k \<le> PCI_CFG_SPACE_SIZE \<longrightarrow> apart (PCI_COMMAND, 2) (b, k) \<longrightarrow> obj_read c b k = obj_read (cfg_space (pci_devs s d)) b k)"
proof -
  let ?dev = "pci_devs s d"
  have off: "PCI_COMMAND + 2 \<le> PCI_CFG_SPACE_SIZE" "unat (of_nat PCI_COMMAND :: u64) = PCI_COMMAND"
    by (simp_all add: const_simps)
  obtain c where c: "obj_write (cfg_space ?dev) PCI_COMMAND (le_bytes 2 cmd) = Some c"
      "dev_wf (?dev\<lparr>cfg_space := c\<rparr>)" "obj_read c PCI_COMMAND 2 = Some (le_bytes 2 cmd)"
      "\<And>b k. b + k \<le> PCI_CFG_SPACE_SIZE \<Longrightarrow> apart (PCI_COMMAND, 2) (b, k) \<Longrightarrow> obj_read c b k = obj_read (cfg_space ?dev) b k"
    by (rule hdr_write_ok [OF assms(1) off(1), of "le_bytes 2 cmd"]) auto
  have take: "buf_take (le_bytes 2 cmd) 2 = Some (le_bytes 2 cmd)" by (simp add: buf_take_def obj_read_def)
  have "pci_config_write d (le_bytes 2 cmd) (of_nat PCI_COMMAND) 2 s =
      bar_commands d (cmd AND PCI_COMMAND_IO \<noteq> 0) (cmd AND PCI_COMMAND_MEMORY \<noteq> 0) [0..<PCI_STD_NUM_BARS]
        (upd_dev d (\<lambda>dev. dev\<lparr>cfg_space := c\<rparr>) s)"
    using take c(1,3) off by (simp add: pci_config_write_def pci_bar_command_def PCI_HDR_READ_def Let_def)
  then show ?thesis using c(2,4) by (auto simp: dev_wf_def)
qed

lemma bus_repr_base:
  "bus_repr (upd_region r (r_base_update f) h) l \<longleftrightarrow> bus_repr h l"
proof -
  have "chain (regions (upd_region r (r_base_update f) h)) p xs = chain (regions h) p xs" for p xs
    by (rule chain_cong) (simp add: upd_region_def)
  moreover have "r_bus (regions (upd_region r (r_base_update f) h) x) = r_bus (regions h x)"
    "buses (upd_region r (r_base_update f) h) = buses h" for x
    by (simp_all add: upd_region_def)
  ultimately show ?thesis by (simp add: bus_repr_def)
qed

text \<open>The synchronisation survives a change of the header bytes, and of the base of an inactive
  BAR.\<close>

lemma bars_synced_cfg:
  "bars_synced d s l \<Longrightarrow> length c = PCI_CFG_SPACE_SIZE \<Longrightarrow>
     bars_synced d (upd_dev d (\<lambda>dev. dev\<lparr>cfg_space := c\<rparr>) s) l"
  by (simp add: bars_synced_def bar_based_def bar_mask_def bar_bus_def)

lemma bars_synced_base:
  assumes "bars_synced d s l" "i < PCI_STD_NUM_BARS" "\<not> bar_active (pci_devs s d) ! i"
  shows "bars_synced d (s\<lparr>io := upd_region (BarRegion d i) (r_base_update f) (io s)\<rparr>) l"
proof -
  let ?s = "s\<lparr>io := upd_region (BarRegion d i) (r_base_update f) (io s)\<rparr>"
  have "bar_active (pci_devs s d) ! j \<and> bar_based ?s d j \<longleftrightarrow> bar_active (pci_devs s d) ! j \<and> bar_based s d j" for j
    using assms(3) by (cases "j = i") (simp_all add: bar_based_def upd_region_def)
  then show ?thesis
    using assms(1) by (simp add: bars_synced_def bus_repr_base)
qed

lemma bar_of_offset:
  fixes offset :: u64
  assumes "PCI_BASE_ADDRESS_0 \<le> unat offset" "unat offset \<le> PCI_BASE_ADDRESS_5"
  shows "unat (ucast (drop_bit 2 (offset - of_nat PCI_BASE_ADDRESS_0)) :: u8) = (unat offset - PCI_BASE_ADDRESS_0) div 4"
    "(unat offset - PCI_BASE_ADDRESS_0) div 4 < PCI_STD_NUM_BARS"
proof -
  have "unat (offset - of_nat PCI_BASE_ADDRESS_0) = unat offset - PCI_BASE_ADDRESS_0"
    using assms(1) by (subst unat_sub) (auto simp: word_le_nat_alt const_simps)
  then have "unat (drop_bit 2 (offset - of_nat PCI_BASE_ADDRESS_0)) = (unat offset - PCI_BASE_ADDRESS_0) div 4"
    by (simp add: unat_drop_bit_eq drop_bit_nat_def)
  moreover show "(unat offset - PCI_BASE_ADDRESS_0) div 4 < PCI_STD_NUM_BARS"
    using assms by (simp add: const_simps)
  ultimately show "unat (ucast (drop_bit 2 (offset - of_nat PCI_BASE_ADDRESS_0)) :: u8) = (unat offset - PCI_BASE_ADDRESS_0) div 4"
    by (simp add: unsigned_ucast_eq take_bit_nat_eq_self const_simps)
qed

text \<open>A write that the PCI rules allow: it does not move a BAR while the device decodes it.\<close>

definition bar_write_allowed :: "nat \<Rightarrow> u64 \<Rightarrow> pci_state \<Rightarrow> bool" where
  "bar_write_allowed d offset s \<longleftrightarrow>
     (PCI_BASE_ADDRESS_0 \<le> unat offset \<and> unat offset \<le> PCI_BASE_ADDRESS_5 \<longrightarrow>
      \<not> bar_active (pci_devs s d) ! ((unat offset - PCI_BASE_ADDRESS_0) div 4))"

lemma pci_bar_config_sync:
  assumes sync: "bars_synced d s l" and i: "unat bar < PCI_STD_NUM_BARS" "\<not> bar_active (pci_devs s d) ! unat bar"
  shows "\<exists>s'. pci_bar_config d bar s = Some s' \<and> bars_synced d s' l"
proof -
  let ?i = "unat bar" and ?dev = "pci_devs s d"
  have wf: "dev_wf ?dev" using sync by (simp add: bars_synced_def)
  note off = bar_offset_bounds [OF i(1)]
  obtain old :: u32 where old: "PCI_HDR_READ ?dev (PCI_BAR_OFFSET ?i) 32 = Some old"
    using hdr_read_ok [OF wf, of "PCI_BAR_OFFSET ?i" 32] off by auto
  define new :: u32 where "new = (old AND bar_mask ?dev ?i) OR (if bar_is_io_space ?dev ! ?i then 1 else 0)"
  obtain c where c: "obj_write (cfg_space ?dev) (PCI_BAR_OFFSET ?i) (le_bytes 4 new) = Some c"
      "dev_wf (?dev\<lparr>cfg_space := c\<rparr>)"
    by (rule hdr_write_ok [OF wf, of "PCI_BAR_OFFSET ?i" 4 "le_bytes 4 new"]) (use off in auto)
  let ?s = "s\<lparr>io := upd_region (BarRegion d ?i) (r_base_update (\<lambda>_. ucast new)) (io s)\<rparr>"
  have "pci_bar_config d bar s = Some (upd_dev d (\<lambda>dev. dev\<lparr>cfg_space := c\<rparr>) ?s)"
    using old c(1) by (simp add: pci_bar_config_def PCI_HDR_WRITE_def Let_def new_def [symmetric] upd_dev_def)
  moreover have "bars_synced d (upd_dev d (\<lambda>dev. dev\<lparr>cfg_space := c\<rparr>) ?s) l"
    using bars_synced_cfg [OF bars_synced_base [OF sync i]] c(2) by (simp add: dev_wf_def)
  ultimately show ?thesis by blast
qed

lemma pci_bar_command_sync:
  assumes sync: "bars_synced d s l"
  shows "\<exists>cmd s' l'. PCI_HDR_READ (pci_devs s d) PCI_COMMAND 16 = Some (cmd :: u16) \<and>
     pci_bar_command d s = Some s' \<and> bars_synced d s' l' \<and> cmd_frame d s s' \<and>
     (\<forall>i<PCI_STD_NUM_BARS. bar_active (pci_devs s' d) ! i =
        bar_enable (pci_devs s d) (cmd AND PCI_COMMAND_IO \<noteq> 0) (cmd AND PCI_COMMAND_MEMORY \<noteq> 0) i) \<and>
     (\<forall>r b. (\<forall>j. r \<noteq> BarRegion d j) \<longrightarrow> r \<in> set (l' b) \<longleftrightarrow> r \<in> set (l b))"
proof -
  have wf: "dev_wf (pci_devs s d)" using sync by (simp add: bars_synced_def)
  obtain cmd :: u16 where cmd: "PCI_HDR_READ (pci_devs s d) PCI_COMMAND 16 = Some cmd"
    using hdr_read_ok [OF wf, of PCI_COMMAND 16] by (auto simp: const_simps)
  have "set [0..<PCI_STD_NUM_BARS] \<subseteq> {..<PCI_STD_NUM_BARS}" by auto
  from bar_commands_sync [OF sync this, of "cmd AND PCI_COMMAND_IO \<noteq> 0" "cmd AND PCI_COMMAND_MEMORY \<noteq> 0"]
  obtain s' l' where s': "bar_commands d (cmd AND PCI_COMMAND_IO \<noteq> 0) (cmd AND PCI_COMMAND_MEMORY \<noteq> 0)
        [0..<PCI_STD_NUM_BARS] s = Some s'" "bars_synced d s' l'" "cmd_frame d s s'"
      "\<forall>i<PCI_STD_NUM_BARS. bar_active (pci_devs s' d) ! i =
        bar_enable (pci_devs s d) (cmd AND PCI_COMMAND_IO \<noteq> 0) (cmd AND PCI_COMMAND_MEMORY \<noteq> 0) i"
      "\<forall>r b. (\<forall>j. r \<noteq> BarRegion d j) \<longrightarrow> r \<in> set (l' b) \<longleftrightarrow> r \<in> set (l b)" by auto
  have "pci_bar_command d s = Some s'" using cmd s'(1) by (simp add: pci_bar_command_def)
  with cmd s' show ?thesis by blast
qed

lemma pci_config_write_sync:
  assumes sync: "bars_synced d s l" and bounds: "unat offset + unat sz \<le> PCI_CFG_SPACE_SIZE" "unat sz \<le> length data"
    and allowed: "bar_write_allowed d offset s"
  shows "\<exists>s' l'. pci_config_write d data offset sz s = Some s' \<and> bars_synced d s' l'"
proof -
  let ?dev = "pci_devs s d"
  have wf: "dev_wf ?dev" using sync by (simp add: bars_synced_def)
  define bs where "bs = take (unat sz) data"
  have bs: "buf_take data sz = Some bs" "length bs = unat sz"
    using bounds(2) by (simp_all add: buf_take_def obj_read_def bs_def)
  obtain c where c: "obj_write (cfg_space ?dev) (unat offset) bs = Some c" "dev_wf (?dev\<lparr>cfg_space := c\<rparr>)"
    by (rule hdr_write_ok [OF wf bounds(1) bs(2)])
  define s1 where "s1 = upd_dev d (\<lambda>dev. dev\<lparr>cfg_space := c\<rparr>) s"
  have sync1: "bars_synced d s1 l"
    unfolding s1_def by (rule bars_synced_cfg [OF sync]) (use c(2) in \<open>simp add: dev_wf_def\<close>)
  consider "unat offset = PCI_COMMAND"
    | "unat offset \<noteq> PCI_COMMAND" "PCI_BASE_ADDRESS_0 \<le> unat offset" "unat offset \<le> PCI_BASE_ADDRESS_5"
    | "unat offset \<noteq> PCI_COMMAND" "\<not> (PCI_BASE_ADDRESS_0 \<le> unat offset \<and> unat offset \<le> PCI_BASE_ADDRESS_5)" by blast
  then show ?thesis
  proof cases
    case 1
    then have "pci_config_write d data offset sz s = pci_bar_command d s1"
      using bs(1) c(1) by (simp add: pci_config_write_def s1_def)
    then show ?thesis using pci_bar_command_sync [OF sync1] by auto
  next
    case 2
    then have "pci_config_write d data offset sz s =
        pci_bar_config d (ucast (drop_bit 2 (offset - of_nat PCI_BASE_ADDRESS_0))) s1"
      using bs(1) c(1) by (simp add: pci_config_write_def s1_def)
    moreover have "\<not> bar_active (pci_devs s1 d) ! ((unat offset - PCI_BASE_ADDRESS_0) div 4)"
      using allowed 2 by (simp add: bar_write_allowed_def s1_def)
    ultimately show ?thesis
      using pci_bar_config_sync [OF sync1, of "ucast (drop_bit 2 (offset - of_nat PCI_BASE_ADDRESS_0))"]
        bar_of_offset [OF 2(2,3)] by auto
  next
    case 3
    then have "pci_config_write d data offset sz s = Some s1"
      using bs(1) c(1) by (auto simp: pci_config_write_def s1_def)
    then show ?thesis using sync1 by blast
  qed
qed

section \<open>Initialisation\<close>

lemma bus_repr_cong:
  assumes "bus_repr h l" "buses h' = buses h" "\<And>b r. r \<in> set (l b) \<Longrightarrow> regions h' r = regions h r"
  shows "bus_repr h' l"
proof -
  have "chain (regions h') (bus_head (buses h b)) (l b)" for b
    using bus_repr_chain [OF assms(1), of b] assms(3) by (subst chain_cong [of _ _ "regions h"]) auto
  then show ?thesis using assms by (auto simp: bus_repr_def)
qed

lemma bus_repr_region_init:
  "bus_repr h l \<Longrightarrow> (\<And>b. r \<notin> set (l b)) \<Longrightarrow> bus_repr (region_init r x n own fn h) l"
  by (rule bus_repr_cong [of h]) (auto simp: region_init_def upd_region_def)

lemma region_init_fields:
  "regions (region_init r x n own fn h) q =
     (if q = r then \<lparr>r_bus = None, r_base = x, r_len = n, r_owner = own, r_handle_io = Some fn, r_next = None\<rparr>
      else regions h q)"
  "buses (region_init r x n own fn h) = buses h"
  by (simp_all add: region_init_def upd_region_def)

lemma pcibus_init_repr:
  assumes "bus_repr (io s) l" "\<And>b. PciAddrRegion \<notin> set (l b)" "\<And>b. PciDataRegion \<notin> set (l b)"
  shows "bus_repr (io (pcibus_init s)) (l(PioBus := PciDataRegion # PciAddrRegion # l PioBus, PciBus := []))"
proof -
  define h1 where "h1 = region_init PciAddrRegion IO_PCI_CONFIG_ADDR_START IO_PCI_CONFIG_ADDR_SIZE NoOwner Pcibus_addr_io (io s)"
  define h2 where "h2 = iobus_register_region PioBus PciAddrRegion h1"
  define h3 where "h3 = region_init PciDataRegion IO_PCI_CONFIG_DATA_START IO_PCI_CONFIG_DATA_SIZE NoOwner Pcibus_data_io h2"
  define h4 where "h4 = iobus_register_region PioBus PciDataRegion h3"
  have "bus_repr h2 (l(PioBus := PciAddrRegion # l PioBus))"
    unfolding h2_def h1_def by (intro bus_repr_register bus_repr_region_init assms)
  then have "bus_repr h3 (l(PioBus := PciAddrRegion # l PioBus))"
    unfolding h3_def by (rule bus_repr_region_init) (simp add: assms(3))
  then have "bus_repr h4 ((l(PioBus := PciAddrRegion # l PioBus))
      (PioBus := PciDataRegion # (l(PioBus := PciAddrRegion # l PioBus)) PioBus))"
    unfolding h4_def by (rule bus_repr_register) (simp add: assms(3))
  then have r4: "bus_repr h4 (l(PioBus := PciDataRegion # PciAddrRegion # l PioBus))" by simp
  have "io (pcibus_init s) = upd_bus PciBus (\<lambda>b. b\<lparr>region_count := 0, bus_head := None\<rparr>) h4"
    by (simp add: pcibus_init_def Let_def h1_def h2_def h3_def h4_def)
  then show ?thesis
    using r4 by (auto simp: bus_repr_def upd_bus_def)
qed

lemma pci_dev_init_synced:
  assumes "bus_repr (io s) l" and own: "\<And>b. ConfigRegion d \<notin> set (l b)" "\<And>b i. BarRegion d i \<notin> set (l b)"
  shows "bars_synced d (pci_dev_init d s) (l(PciBus := ConfigRegion d # l PciBus))"
proof -
  let ?t = "upd_dev d (\<lambda>_. zero_dev) (s\<lparr>io := clear_regions d (io s)\<rparr>)"
  have "bus_repr (clear_regions d (io s)) l"
    by (rule bus_repr_cong [OF assms(1)]) (use own in \<open>auto simp: clear_regions_def\<close>)
  then have "bus_repr (io (pci_dev_init d s)) (l(PciBus := ConfigRegion d # l PciBus))"
    unfolding pci_dev_init_def pcibus_register_dev_def Let_def
    by (simp add: bus_repr_register bus_repr_region_init own)
  moreover have "pci_devs (pci_dev_init d s) d = zero_dev"
    by (simp add: pci_dev_init_def pcibus_register_dev_def Let_def)
  moreover have "dev_wf zero_dev" "\<And>i. i < PCI_STD_NUM_BARS \<Longrightarrow> \<not> bar_active zero_dev ! i"
    by (simp_all add: zero_dev_def dev_wf_def const_simps)
  ultimately show ?thesis using own by (auto simp: bars_synced_def)
qed

lemma pci_init_bar_synced:
  assumes sync: "bars_synced d s l" and i: "unat bar < PCI_STD_NUM_BARS" "\<not> bar_active (pci_devs s d) ! unat bar"
  shows "\<exists>s'. pci_init_bar d bar n space fn s = Some s' \<and> bars_synced d s' l \<and>
    bar_size (pci_devs s' d) = (bar_size (pci_devs s d))[unat bar := n] \<and>
    bar_is_io_space (pci_devs s' d) = (bar_is_io_space (pci_devs s d))[unat bar := space] \<and>
    bar_active (pci_devs s' d) = bar_active (pci_devs s d) \<and>
    io s' = region_init (BarRegion d (unat bar)) 0 (ucast n) (PciDev d) fn (io s)"
proof -
  let ?dev = "pci_devs s d" and ?i = "unat bar" and ?v = "if space then 1 else 0 :: u32"
  have wf: "dev_wf ?dev" using sync by (simp add: bars_synced_def)
  note off = bar_offset_bounds [OF i(1)]
  obtain c where c: "obj_write (cfg_space ?dev) (PCI_BAR_OFFSET ?i) (le_bytes 4 ?v) = Some c"
      "dev_wf (?dev\<lparr>cfg_space := c\<rparr>)"
    by (rule hdr_write_ok [OF wf, of "PCI_BAR_OFFSET ?i" 4 "le_bytes 4 ?v"]) (use off in auto)
  define dev' where "dev' = ?dev\<lparr>cfg_space := c, bar_size := (bar_size ?dev)[?i := n],
     bar_is_io_space := (bar_is_io_space ?dev)[?i := space]\<rparr>"
  define s' where "s' = upd_dev d (\<lambda>_. dev') (s\<lparr>io := region_init (BarRegion d ?i) 0 (ucast n) (PciDev d) fn (io s)\<rparr>)"
  have "pci_init_bar d bar n space fn s = Some s'"
    using c(1) i(1) by (simp add: pci_init_bar_def PCI_HDR_WRITE_def Let_def s'_def dev'_def)
  moreover have no: "BarRegion d ?i \<notin> set (l b)" for b using sync i by (simp add: bars_synced_def)
  have "bus_repr (io s') l"
    using sync no by (simp add: s'_def bars_synced_def bus_repr_region_init)
  moreover have "bar_active ?dev ! j \<and> b = bar_bus dev' j \<and> bar_based s' d j \<longleftrightarrow>
      bar_active ?dev ! j \<and> b = bar_bus ?dev j \<and> bar_based s d j" for j b
  proof (cases "j = ?i")
    case True
    then show ?thesis using i(2) by simp
  next
    case False
    then show ?thesis
      by (simp add: bar_bus_def bar_based_def bar_mask_def s'_def dev'_def region_init_fields)
  qed
  then have "bars_synced d s' l"
    using sync calculation(2) c(2) by (auto simp: bars_synced_def s'_def dev'_def dev_wf_def)
  ultimately show ?thesis by (auto simp: s'_def dev'_def)
qed

section \<open>Properties\<close>

lemma bar_probe:
  assumes "4 \<le> k" "k < 32"
  shows "NOT ((0xFFFFFFFF AND NOT ((2 :: u32) ^ k - 1)) AND NOT 15) + 1 = 2 ^ k"
    "NOT (((0xFFFFFFFF AND NOT ((2 :: u32) ^ k - 1)) OR 1) AND NOT 15) + 1 = 2 ^ k"
proof -
  have "k \<in> set [4..<32]" using assms by (simp only: set_upt atLeastLessThan_iff)
  moreover have "list_all (\<lambda>k. NOT ((0xFFFFFFFF AND NOT ((2 :: u32) ^ k - 1)) AND NOT 15) + 1 = 2 ^ k \<and>
      NOT (((0xFFFFFFFF AND NOT ((2 :: u32) ^ k - 1)) OR 1) AND NOT 15) + 1 = 2 ^ k) [4..<32]"
    by code_simp
  ultimately show "NOT ((0xFFFFFFFF AND NOT ((2 :: u32) ^ k - 1)) AND NOT 15) + 1 = 2 ^ k"
    "NOT (((0xFFFFFFFF AND NOT ((2 :: u32) ^ k - 1)) OR 1) AND NOT 15) + 1 = 2 ^ k"
    unfolding list_all_iff by blast+
qed

text \<open>A device with one memory BAR, as the virtio devices have it.\<close>

definition pci_state_0 :: pci_state where
  "pci_state_0 = \<lparr>io = iobus_0, pci_addr = 0, pci_devs = (\<lambda>_. zero_dev)\<rparr>"

definition sample_pci :: pci_state where
  "sample_pci = the (pci_init_bar 0 0 0x100 False Virtio_pci_iospace_handle_io (pci_dev_init 0 (pcibus_init pci_state_0)))"

definition sample_lists :: "bus_id \<Rightarrow> region_id list" where
  "sample_lists = (\<lambda>_. [])(PioBus := [PciDataRegion, PciAddrRegion], PciBus := [ConfigRegion 0])"

lemma sample_pci:
  "bars_synced 0 sample_pci sample_lists"
  "bar_size (pci_devs sample_pci 0) = [0x100, 0, 0, 0, 0, 0]"
  "bar_is_io_space (pci_devs sample_pci 0) = replicate 6 False"
  "bar_active (pci_devs sample_pci 0) = replicate 6 False"
proof -
  let ?t = "pci_dev_init 0 (pcibus_init pci_state_0)"
  have "bus_repr (io pci_state_0) (\<lambda>_. [])" using bus_repr_0 by (simp add: pci_state_0_def)
  from pcibus_init_repr [OF this]
  have "bus_repr (io (pcibus_init pci_state_0)) ((\<lambda>_. [])(PioBus := [PciDataRegion, PciAddrRegion], PciBus := []))"
    by simp
  from pci_dev_init_synced [OF this, of 0]
  have sync: "bars_synced 0 ?t sample_lists" by (simp add: sample_lists_def)
  have dev: "pci_devs ?t 0 = zero_dev" by (simp add: pci_dev_init_def pcibus_register_dev_def Let_def)
  obtain s' where s': "pci_init_bar 0 0 0x100 False Virtio_pci_iospace_handle_io ?t = Some s'"
      "bars_synced 0 s' sample_lists" "bar_size (pci_devs s' 0) = (bar_size zero_dev)[0 := 0x100]"
      "bar_is_io_space (pci_devs s' 0) = (bar_is_io_space zero_dev)[0 := False]"
      "bar_active (pci_devs s' 0) = bar_active zero_dev"
    using pci_init_bar_synced [OF sync, of 0 "0x100" False Virtio_pci_iospace_handle_io]
    by (auto simp: dev const_simps zero_dev_def)
  then have "sample_pci = s'" by (simp add: sample_pci_def)
  with s' show "bars_synced 0 sample_pci sample_lists"
    "bar_size (pci_devs sample_pci 0) = [0x100, 0, 0, 0, 0, 0]"
    "bar_is_io_space (pci_devs sample_pci 0) = replicate 6 False"
    "bar_active (pci_devs sample_pci 0) = replicate 6 False"
    by (simp_all add: zero_dev_def replicate_eqI numeral_eq_Suc)
qed

text \<open>Property C21. Writing a BAR: the register reads back the written address with the bits below
  the size cleared and the space bit set, the region moves to that value and keeps the rest of its fields, every other
  configuration byte, the state of the BARs and every other region, device and bus is untouched; writing all ones therefore tells
  the guest the size.\<close>

theorem pci_bar_sizing:
  fixes v :: u32
  assumes "dev_wf (pci_devs s d)" "i < PCI_STD_NUM_BARS" "length buf = 4"
  defines "dev \<equiv> pci_devs s d"
  defines "new \<equiv> (v AND NOT (bar_size dev ! i - 1)) OR (if bar_is_io_space dev ! i then 1 else 0)"
  shows "\<exists>s'. pci_config_write d (le_bytes 4 v) (of_nat (PCI_BAR_OFFSET i)) 4 s = Some s' \<and>
    pci_config_read d buf (of_nat (PCI_BAR_OFFSET i)) 4 s' = Some (le_bytes 4 new) \<and>
    regions (io s') (BarRegion d i) = (regions (io s) (BarRegion d i))\<lparr>r_base := ucast new\<rparr> \<and>
    pci_devs s' d = dev\<lparr>cfg_space := cfg_space (pci_devs s' d)\<rparr> \<and> pci_addr s' = pci_addr s \<and>
    (\<forall>r. r \<noteq> BarRegion d i \<longrightarrow> regions (io s') r = regions (io s) r) \<and> buses (io s') = buses (io s) \<and>
    (\<forall>d'. d' \<noteq> d \<longrightarrow> pci_devs s' d' = pci_devs s d') \<and> dev_wf (pci_devs s' d) \<and>
    (\<forall>b k. b + k \<le> PCI_CFG_SPACE_SIZE \<longrightarrow> apart (PCI_BAR_OFFSET i, 4) (b, k) \<longrightarrow>
       obj_read (cfg_space (pci_devs s' d)) b k = obj_read (cfg_space dev) b k) \<and>
    (\<forall>k. v = 0xFFFFFFFF \<longrightarrow> 4 \<le> k \<longrightarrow> k < 32 \<longrightarrow> bar_size dev ! i = 2 ^ k \<longrightarrow> NOT (new AND NOT 15) + 1 = 2 ^ k)"
proof -
  note off = bar_offset_bounds [OF assms(2)]
  obtain c where c: "pci_config_write d (le_bytes 4 v) (of_nat (PCI_BAR_OFFSET i)) 4 s =
      Some (s\<lparr>io := upd_region (BarRegion d i) (r_base_update (\<lambda>_. ucast new)) (io s),
              pci_devs := (pci_devs s)(d := dev\<lparr>cfg_space := c\<rparr>)\<rparr>)"
    "length c = PCI_CFG_SPACE_SIZE" "obj_read c (PCI_BAR_OFFSET i) 4 = Some (le_bytes 4 new)"
    "\<forall>b k. b + k \<le> PCI_CFG_SPACE_SIZE \<longrightarrow> apart (PCI_BAR_OFFSET i, 4) (b, k) \<longrightarrow>
       obj_read c b k = obj_read (cfg_space dev) b k"
    using config_write_bar [OF assms(1,2), of v] unfolding dev_def new_def bar_mask_def by blast
  have "buf_put buf (le_bytes 4 new) = Some (le_bytes 4 new)"
    using assms(3) by (simp add: buf_put_def obj_write_def)
  moreover define s' where "s' = s\<lparr>io := upd_region (BarRegion d i) (r_base_update (\<lambda>_. ucast new)) (io s),
    pci_devs := (pci_devs s)(d := dev\<lparr>cfg_space := c\<rparr>)\<rparr>"
  ultimately have "pci_config_read d buf (of_nat (PCI_BAR_OFFSET i)) 4 s' = Some (le_bytes 4 new)"
    using c(3) off by (simp add: pci_config_read_def)
  moreover have "NOT (new AND NOT 15) + 1 = 2 ^ k"
    if "v = 0xFFFFFFFF" "4 \<le> k" "k < 32" "bar_size dev ! i = 2 ^ k" for k
    using bar_probe [OF that(2,3)] unfolding new_def that(1,4)
    by (cases "bar_is_io_space dev ! i") (simp_all only: if_True if_False or.right_neutral)
  moreover have "dev_wf (dev\<lparr>cfg_space := c\<rparr>)" using assms(1) c(2) by (simp add: dev_def)
  ultimately show ?thesis
    using c(1,4) unfolding s'_def [symmetric] by (intro exI [of _ s'] conjI) (auto simp: s'_def upd_region_def)
qed

theorem pci_bar_sizing_witness:
  "\<exists>s'. pci_config_write 0 (le_bytes 4 (0xFFFFFFFF :: u32)) 0x10 4 sample_pci = Some s' \<and>
     pci_config_read 0 [0, 0, 0, 0] 0x10 4 s' = Some [0, 0xFF, 0xFF, 0xFF] \<and>
     NOT (0xFFFFFF00 AND NOT 15) + 1 = (0x100 :: u32)"
proof -
  have "dev_wf (pci_devs sample_pci 0)" using sample_pci(1) by (simp add: bars_synced_def)
  from pci_bar_sizing [OF this, of 0 "[0, 0, 0, 0]" "0xFFFFFFFF"] show ?thesis
    by (auto simp: const_simps PCI_BAR_OFFSET_def sample_pci layout_simps)
qed

text \<open>The command register: \<open>pci_bar_command\<close> returns, makes exactly the BARs of the
  enabled spaces active, and afterwards a BAR is on its bus exactly when it is active and has
  an address; no other region enters or leaves a bus, and headers, addresses and other devices
  are unchanged.\<close>

theorem pci_bar_command_decodes:
  assumes "bars_synced d s l"
  shows "\<exists>cmd s' l'. PCI_HDR_READ (pci_devs s d) PCI_COMMAND 16 = Some (cmd :: u16) \<and>
     pci_bar_command d s = Some s' \<and> bars_synced d s' l' \<and> cmd_frame d s s' \<and>
     (\<forall>i<PCI_STD_NUM_BARS. bar_active (pci_devs s' d) ! i =
        (if bar_is_io_space (pci_devs s d) ! i then bit cmd 0 else bit cmd 1)) \<and>
     (\<forall>r b. (\<forall>j. r \<noteq> BarRegion d j) \<longrightarrow> r \<in> set (l' b) \<longleftrightarrow> r \<in> set (l b))"
proof -
  have bits: "cmd AND PCI_COMMAND_IO \<noteq> 0 \<longleftrightarrow> bit cmd 0" "cmd AND PCI_COMMAND_MEMORY \<noteq> 0 \<longleftrightarrow> bit cmd 1" for cmd
    using and_exp_eq_0_iff_not_bit [of cmd 0] and_exp_eq_0_iff_not_bit [of cmd 1] by (simp_all add: const_simps)
  show ?thesis using pci_bar_command_sync [OF assms] unfolding bar_enable_def bits .
qed

theorem pci_bar_command_decodes_witness:
  "\<exists>s' l'. pci_bar_command 0 sample_pci = Some s' \<and> bars_synced 0 s' l' \<and>
     ConfigRegion 0 \<in> set (l' PciBus)"
proof -
  have "ConfigRegion 0 \<in> set (sample_lists PciBus)" by (simp add: sample_lists_def)
  then show ?thesis using pci_bar_command_decodes [OF sample_pci(1)] by blast
qed

text \<open>Guests that follow the rule not to move a BAR while it is decoded.\<close>

inductive config_run :: "nat \<Rightarrow> pci_state \<Rightarrow> pci_state \<Rightarrow> bool" for d where
  config_start: "config_run d s s"
| config_step: "config_run d s t \<Longrightarrow> bar_write_allowed d offset t \<Longrightarrow> unat offset + unat sz \<le> PCI_CFG_SPACE_SIZE \<Longrightarrow>
    unat sz \<le> length data \<Longrightarrow> pci_config_write d data offset sz t = Some u \<Longrightarrow> config_run d s u"

lemma config_run_synced: "config_run d s t \<Longrightarrow> bars_synced d s l \<Longrightarrow> \<exists>l'. bars_synced d t l'"
proof (induction rule: config_run.induct)
  case (config_step s t offset sz data u)
  then obtain l1 where "bars_synced d t l1" by blast
  from pci_config_write_sync [OF this config_step.hyps(3,4,2)] show ?case using config_step.hyps(5) by auto
qed blast

text \<open>Property C22. Through any sequence of allowed configuration writes the buses stay in step with
  the device: the registered BARs are those that are active and have an address, every lookup
  on every bus returns, and every further allowed write succeeds.\<close>

theorem pci_config_run_safe:
  assumes "bars_synced d s l" "config_run d s t"
  shows "(\<exists>l'. bars_synced d t l') \<and> (\<forall>b a. iobus_find_region (io t) b a \<noteq> None) \<and>
    (\<forall>data offset sz. bar_write_allowed d offset t \<longrightarrow> unat offset + unat sz \<le> PCI_CFG_SPACE_SIZE \<longrightarrow>
       unat sz \<le> length data \<longrightarrow> pci_config_write d data offset sz t \<noteq> None)"
proof -
  obtain l' where l': "bars_synced d t l'" using config_run_synced [OF assms(2,1)] by blast
  then have "iobus_find_region (io t) b a \<noteq> None" for b a
    using ib.find_terminates [of "io t" l' b a] by (auto simp: bars_synced_def)
  then show ?thesis using l' pci_config_write_sync [OF l'] by fastforce
qed

theorem pci_config_run_safe_witness:
  "\<exists>t. pci_config_write 0 [2, 0] 4 2 sample_pci = Some t \<and> iobus_find_region (io t) MmioBus 0x1000 \<noteq> None"
proof -
  have a: "bar_write_allowed 0 4 sample_pci" by (simp add: bar_write_allowed_def const_simps)
  have n: "unat (4 :: u64) + unat (2 :: u8) \<le> PCI_CFG_SPACE_SIZE" "unat (2 :: u8) \<le> length [2, 0 :: u8]"
    by (simp_all add: const_simps)
  have "pci_config_write 0 [2, 0] 4 2 sample_pci \<noteq> None"
    using pci_config_run_safe [OF sample_pci(1) config_run.config_start] a n by blast
  then obtain t where t: "pci_config_write 0 [2, 0] 4 2 sample_pci = Some t" by blast
  have "config_run 0 sample_pci t" by (rule config_step [OF config_start a n t])
  from pci_config_run_safe [OF sample_pci(1) this] t show ?thesis by blast
qed

lemma bar_commands_unbased:
  "(\<And>i. i \<in> set is \<Longrightarrow> \<not> bar_based s d i) \<Longrightarrow>
     \<exists>act. bar_commands d eio emem is s = Some (upd_dev d (bar_active_update (\<lambda>_. act)) s) \<and>
       length act = length (bar_active (pci_devs s d)) \<and>
       (\<forall>i < length act. act ! i = (if i \<in> set is then bar_enable (pci_devs s d) eio emem i else bar_active (pci_devs s d) ! i))"
proof (induction "is" arbitrary: s)
  case Nil
  show ?case by (intro exI [of _ "bar_active (pci_devs s d)"]) (simp add: upd_dev_def)
next
  case (Cons i "is")
  let ?on = "bar_enable (pci_devs s d) eio emem i"
  let ?t = "set_active d i ?on s"
  have t: "bar_command d eio emem i s = Some ?t"
    using Cons.prems [of i] by (simp add: bar_command_def Let_def bar_enable_def)
  have "bar_based ?t d j = bar_based s d j" for j
    by (simp add: bar_based_def bar_mask_def set_active_def)
  with Cons.IH [of ?t] Cons.prems obtain act where act:
      "bar_commands d eio emem is ?t = Some (upd_dev d (bar_active_update (\<lambda>_. act)) ?t)"
      "length act = length (bar_active (pci_devs ?t d))"
      "\<forall>i < length act. act ! i = (if i \<in> set is then bar_enable (pci_devs ?t d) eio emem i else bar_active (pci_devs ?t d) ! i)"
    by auto
  have "upd_dev d (bar_active_update (\<lambda>_. act)) ?t = upd_dev d (bar_active_update (\<lambda>_. act)) s"
    by (simp add: upd_dev_def set_active_def)
  then show ?case
    using t act by (intro exI [of _ act]) (auto simp: set_active_def bar_enable_def nth_list_update)
qed

lemma unsized_unbased: "bar_size (pci_devs s d) ! i = 0 \<Longrightarrow> \<not> bar_based s d i"
  by (simp add: bar_based_def bar_mask_def)

text \<open>Enabling an unbased or disabled device around one memory BAR.\<close>

lemma single_bar_command:
  assumes wf: "dev_wf (pci_devs s d)" and one: "\<forall>i. 0 < i \<and> i < PCI_STD_NUM_BARS \<longrightarrow> bar_size (pci_devs s d) ! i = 0"
    and mem: "\<not> bar_is_io_space (pci_devs s d) ! 0"
  shows "\<not> bar_based s d 0 \<Longrightarrow> \<exists>s' c act. pci_config_write d (le_bytes 2 (cmd :: u16)) (of_nat PCI_COMMAND) 2 s = Some s' \<and>
      s' = upd_dev d (\<lambda>dev. dev\<lparr>cfg_space := c, bar_active := act\<rparr>) s \<and> dev_wf (pci_devs s' d) \<and>
      act ! 0 = (cmd AND PCI_COMMAND_MEMORY \<noteq> 0)"
    "bar_based s d 0 \<Longrightarrow> \<not> bar_active (pci_devs s d) ! 0 \<Longrightarrow> cmd AND PCI_COMMAND_MEMORY \<noteq> 0 \<Longrightarrow>
      \<exists>s'. pci_config_write d (le_bytes 2 (cmd :: u16)) (of_nat PCI_COMMAND) 2 s = Some s' \<and>
      io s' = iobus_register_region MmioBus (BarRegion d 0) (io s) \<and>
      (\<exists>c act. pci_devs s' = (pci_devs s)(d := (pci_devs s d)\<lparr>cfg_space := c, bar_active := act\<rparr>) \<and>
        (\<forall>b k. b + k \<le> PCI_CFG_SPACE_SIZE \<longrightarrow> apart (PCI_COMMAND, 2) (b, k) \<longrightarrow>
           obj_read c b k = obj_read (cfg_space (pci_devs s d)) b k))"
proof -
  let ?eio = "cmd AND PCI_COMMAND_IO \<noteq> 0" and ?emem = "cmd AND PCI_COMMAND_MEMORY \<noteq> 0"
  obtain c where c: "pci_config_write d (le_bytes 2 cmd) (of_nat PCI_COMMAND) 2 s =
      bar_commands d ?eio ?emem [0..<PCI_STD_NUM_BARS] (upd_dev d (\<lambda>dev. dev\<lparr>cfg_space := c\<rparr>) s)"
      "length c = PCI_CFG_SPACE_SIZE"
      "\<forall>b k. b + k \<le> PCI_CFG_SPACE_SIZE \<longrightarrow> apart (PCI_COMMAND, 2) (b, k) \<longrightarrow> obj_read c b k = obj_read (cfg_space (pci_devs s d)) b k"
    using config_write_command [OF wf, of cmd] by blast
  define s1 where "s1 = upd_dev d (\<lambda>dev. dev\<lparr>cfg_space := c\<rparr>) s"
  have based: "bar_based s1 d i = bar_based s d i" for i
    by (simp add: s1_def bar_based_def bar_mask_def)
  have split: "[0..<PCI_STD_NUM_BARS] = 0 # [1..<PCI_STD_NUM_BARS]" by (simp add: upt_conv_Cons const_simps)
  show "\<exists>s' c act. pci_config_write d (le_bytes 2 cmd) (of_nat PCI_COMMAND) 2 s = Some s' \<and>
      s' = upd_dev d (\<lambda>dev. dev\<lparr>cfg_space := c, bar_active := act\<rparr>) s \<and> dev_wf (pci_devs s' d) \<and>
      act ! 0 = (cmd AND PCI_COMMAND_MEMORY \<noteq> 0)" if "\<not> bar_based s d 0"
  proof -
    have "\<not> bar_based s1 d i" if "i \<in> set [0..<PCI_STD_NUM_BARS]" for i
      using that \<open>\<not> bar_based s d 0\<close> one unsized_unbased [of s d i] by (cases "i = 0") (auto simp: based)
    from bar_commands_unbased [OF this, of _ ?eio ?emem] obtain act where act:
      "bar_commands d ?eio ?emem [0..<PCI_STD_NUM_BARS] s1 = Some (upd_dev d (bar_active_update (\<lambda>_. act)) s1)"
      "length act = length (bar_active (pci_devs s1 d))"
      "\<forall>i < length act. act ! i = (if i \<in> set [0..<PCI_STD_NUM_BARS] then bar_enable (pci_devs s1 d) ?eio ?emem i else bar_active (pci_devs s1 d) ! i)"
      by blast
    have "act ! 0 = ?emem" using act(2,3) wf mem by (simp add: s1_def dev_wf_def bar_enable_def const_simps)
    moreover have "upd_dev d (bar_active_update (\<lambda>_. act)) s1 = upd_dev d (\<lambda>dev. dev\<lparr>cfg_space := c, bar_active := act\<rparr>) s"
      by (simp add: s1_def upd_dev_def)
    moreover have "dev_wf (pci_devs (upd_dev d (bar_active_update (\<lambda>_. act)) s1) d)"
      using wf act(2) c(2) by (simp add: s1_def dev_wf_def)
    ultimately show ?thesis using c(1) act(1) unfolding s1_def [symmetric] by auto
  qed
  show "\<exists>s'. pci_config_write d (le_bytes 2 cmd) (of_nat PCI_COMMAND) 2 s = Some s' \<and>
      io s' = iobus_register_region MmioBus (BarRegion d 0) (io s) \<and>
      (\<exists>c act. pci_devs s' = (pci_devs s)(d := (pci_devs s d)\<lparr>cfg_space := c, bar_active := act\<rparr>) \<and>
        (\<forall>b k. b + k \<le> PCI_CFG_SPACE_SIZE \<longrightarrow> apart (PCI_COMMAND, 2) (b, k) \<longrightarrow>
           obj_read c b k = obj_read (cfg_space (pci_devs s d)) b k))"
    if "bar_based s d 0" "\<not> bar_active (pci_devs s d) ! 0" "cmd AND PCI_COMMAND_MEMORY \<noteq> 0"
  proof -
    define s2 where "s2 = set_active d 0 True (s1\<lparr>io := iobus_register_region MmioBus (BarRegion d 0) (io s1)\<rparr>)"
    have "bar_command d ?eio ?emem 0 s1 = Some s2"
      using that mem by (simp add: bar_command_def Let_def based s2_def) (simp add: s1_def)
    moreover have "\<not> bar_based s2 d i" if "i \<in> set [1..<PCI_STD_NUM_BARS]" for i
      using that one unsized_unbased [of s2 d i] by (simp add: s2_def s1_def set_active_def)
    from bar_commands_unbased [OF this, of _ ?eio ?emem] obtain act where
      "bar_commands d ?eio ?emem [1..<PCI_STD_NUM_BARS] s2 = Some (upd_dev d (bar_active_update (\<lambda>_. act)) s2)"
      by blast
    ultimately have "bar_commands d ?eio ?emem [0..<PCI_STD_NUM_BARS] s1 = Some (upd_dev d (bar_active_update (\<lambda>_. act)) s2)"
      by (simp add: split)
    moreover have "pci_devs (upd_dev d (bar_active_update (\<lambda>_. act)) s2) = (pci_devs s)(d := (pci_devs s d)\<lparr>cfg_space := c, bar_active := act\<rparr>)"
      by (simp add: s2_def s1_def set_active_def)
    moreover have "io (upd_dev d (bar_active_update (\<lambda>_. act)) s2) = iobus_register_region MmioBus (BarRegion d 0) (io s)"
      by (simp add: s2_def s1_def set_active_def)
    ultimately show ?thesis using c(1,3) unfolding s1_def [symmetric] by auto
  qed
qed

text \<open>Property C23. The rule is needed. A guest that clears an active memory BAR, switches memory
  decoding off, gives the BAR an address again and switches decoding on registers the region a
  second time, because \<open>pci_bar_command\<close> infers from the current base whether the region is
  on the bus: the bus becomes a cycle, and the next access to an address that no region of the
  bus contains never returns.\<close>

theorem pci_bar_reprogram_hangs:
  fixes v :: u32
  assumes sync: "bars_synced d s l" and one: "\<forall>i. 0 < i \<and> i < PCI_STD_NUM_BARS \<longrightarrow> bar_size (pci_devs s d) ! i = 0"
    and bar0: "\<not> bar_is_io_space (pci_devs s d) ! 0" "bar_active (pci_devs s d) ! 0" "bar_based s d 0"
    and v: "v AND bar_mask (pci_devs s d) 0 \<noteq> 0"
    and others: "\<forall>q \<in> set (l MmioBus). q \<noteq> BarRegion d 0 \<longrightarrow> \<not> region_hit (regions (io s) q) a"
    and out: "\<not> region_hit ((regions (io s) (BarRegion d 0))\<lparr>r_base := ucast (v AND bar_mask (pci_devs s d) 0)\<rparr>) a"
  shows "\<exists>s1 s2 s3 s4.
    pci_config_write d (le_bytes 4 (0 :: u32)) (of_nat (PCI_BAR_OFFSET 0)) 4 s = Some s1 \<and>
    pci_config_write d (le_bytes 2 (0 :: u16)) (of_nat PCI_COMMAND) 2 s1 = Some s2 \<and>
    pci_config_write d (le_bytes 4 v) (of_nat (PCI_BAR_OFFSET 0)) 4 s2 = Some s3 \<and>
    pci_config_write d (le_bytes 2 PCI_COMMAND_MEMORY) (of_nat PCI_COMMAND) 2 s3 = Some s4 \<and>
    iobus_find_region (io s4) MmioBus a = None"
proof -
  let ?r = "BarRegion d 0"
  have wf: "dev_wf (pci_devs s d)" and rep: "bus_repr (io s) l" using sync by (simp_all add: bars_synced_def)
  have z: "0 < PCI_STD_NUM_BARS" by (simp add: const_simps)
  obtain c1 s1 where s1: "pci_config_write d (le_bytes 4 (0 :: u32)) (of_nat (PCI_BAR_OFFSET 0)) 4 s = Some s1"
      "s1 = s\<lparr>io := upd_region ?r (r_base_update (\<lambda>_. 0)) (io s), pci_devs := (pci_devs s)(d := (pci_devs s d)\<lparr>cfg_space := c1\<rparr>)\<rparr>"
      "length c1 = PCI_CFG_SPACE_SIZE"
    using config_write_bar [OF wf z, of 0] bar0(1) by auto
  have 1: "dev_wf (pci_devs s1 d)" "\<forall>i. 0 < i \<and> i < PCI_STD_NUM_BARS \<longrightarrow> bar_size (pci_devs s1 d) ! i = 0"
      "\<not> bar_is_io_space (pci_devs s1 d) ! 0" "\<not> bar_based s1 d 0"
    using s1(2,3) wf one bar0(1) by (simp_all add: bar_based_def upd_region_def)
  obtain c2 act s2 where s2: "pci_config_write d (le_bytes 2 (0 :: u16)) (of_nat PCI_COMMAND) 2 s1 = Some s2"
      "s2 = upd_dev d (\<lambda>dev. dev\<lparr>cfg_space := c2, bar_active := act\<rparr>) s1" "dev_wf (pci_devs s2 d)" "\<not> act ! 0"
    using single_bar_command(1) [OF 1, of 0] by auto
  have mask: "bar_mask (pci_devs s2 d) 0 = bar_mask (pci_devs s d) 0" "\<not> bar_is_io_space (pci_devs s2 d) ! 0"
    using bar0(1) by (simp_all add: s2(2) s1(2) bar_mask_def)
  define new where "new = (ucast (v AND bar_mask (pci_devs s d) 0) :: u64)"
  obtain c3 s3 where s3: "pci_config_write d (le_bytes 4 v) (of_nat (PCI_BAR_OFFSET 0)) 4 s2 = Some s3"
      "s3 = s2\<lparr>io := upd_region ?r (r_base_update (\<lambda>_. new)) (io s2), pci_devs := (pci_devs s2)(d := (pci_devs s2 d)\<lparr>cfg_space := c3\<rparr>)\<rparr>"
      "length c3 = PCI_CFG_SPACE_SIZE"
    using config_write_bar [OF s2(3) z, of v] mask unfolding new_def by auto
  have "new AND ucast (bar_mask (pci_devs s d) 0) = new"
    by (simp add: new_def unsigned_and_eq and.assoc)
  moreover have "new \<noteq> 0" using v by (simp add: new_def ucast32_eq_0 del: unsigned_and_eq)
  ultimately have 3: "dev_wf (pci_devs s3 d)" "\<forall>i. 0 < i \<and> i < PCI_STD_NUM_BARS \<longrightarrow> bar_size (pci_devs s3 d) ! i = 0"
      "\<not> bar_is_io_space (pci_devs s3 d) ! 0" "bar_based s3 d 0" "\<not> bar_active (pci_devs s3 d) ! 0"
    using s2(3,4) s3(3) mask one s1(2) by (simp_all add: s3(2) bar_based_def upd_region_def s2(2) bar_mask_def dev_wf_def)
  have "PCI_COMMAND_MEMORY AND PCI_COMMAND_MEMORY \<noteq> 0" by (simp add: const_simps)
  from single_bar_command(2) [OF 3 this] obtain s4 where
    s4: "pci_config_write d (le_bytes 2 PCI_COMMAND_MEMORY) (of_nat PCI_COMMAND) 2 s3 = Some s4"
      "io s4 = iobus_register_region MmioBus ?r (io s3)" by blast
  have "bus_repr (io s3) l" using rep by (simp add: s3(2) s2(2) s1(2) bus_repr_base)
  moreover have "?r \<in> set (l MmioBus)" using sync bar0 z by (simp add: bars_synced_def bar_bus_def)
  moreover have "\<not> region_hit (regions (io s3) q) a" if "q \<in> set (l MmioBus)" for q
    using that others out by (cases "q = ?r") (auto simp: s3(2) s2(2) s1(2) upd_region_def new_def)
  ultimately have "iobus_find_region (io s4) MmioBus a = None"
    unfolding s4(2) by (rule double_register_diverges)
  with s1(1) s2(1) s3(1) s4(1) show ?thesis by blast
qed

lemma sample_pci_enabled:
  "\<exists>s l. bars_synced 0 s l \<and> l MmioBus = [BarRegion 0 0] \<and> r_len (regions (io s) (BarRegion 0 0)) = 0x100 \<and>
     bar_size (pci_devs s 0) = [0x100, 0, 0, 0, 0, 0] \<and> bar_active (pci_devs s 0) ! 0 \<and>
     \<not> bar_is_io_space (pci_devs s 0) ! 0 \<and> bar_based s 0 0"
proof -
  define s where "s = sample_pci\<lparr>io := iobus_register_region MmioBus (BarRegion 0 0)
      (region_init (BarRegion 0 0) 0xFE000000 0x100 (PciDev 0) Virtio_pci_iospace_handle_io (io sample_pci)),
    pci_devs := (pci_devs sample_pci)(0 := (pci_devs sample_pci 0)\<lparr>bar_active := (replicate 6 False)[0 := True]\<rparr>)\<rparr>"
  have rep: "bus_repr (io sample_pci) sample_lists" and wf: "dev_wf (pci_devs sample_pci 0)"
    using sample_pci(1) by (simp_all add: bars_synced_def)
  have no: "BarRegion 0 i \<notin> set (sample_lists b)" for b i by (simp add: sample_lists_def)
  have r: "bus_repr (io s) (sample_lists(MmioBus := BarRegion 0 0 # sample_lists MmioBus))"
    using bus_repr_register [OF bus_repr_region_init [OF rep no] no] by (simp add: s_def)
  have bas: "bar_based s 0 0"
    by (simp add: bar_based_def bar_mask_def s_def register_fields region_init_fields sample_pci(2))
  have "BarRegion 0 i \<in> set ((sample_lists(MmioBus := BarRegion 0 0 # sample_lists MmioBus)) b) \<longleftrightarrow>
      b = bar_bus (pci_devs s 0) i \<and> bar_active (pci_devs s 0) ! i \<and> bar_based s 0 i" if "i < PCI_STD_NUM_BARS" for i b
    using that bas no by (cases "i = 0") (auto simp: s_def bar_bus_def sample_pci(3) const_simps nth_list_update)
  then have "bars_synced 0 s (sample_lists(MmioBus := BarRegion 0 0 # sample_lists MmioBus))"
    using r wf by (simp add: bars_synced_def) (simp add: s_def dev_wf_def const_simps)
  moreover have "sample_lists MmioBus = []" by (simp add: sample_lists_def)
  ultimately show ?thesis
    using bas by (intro exI [of _ s] exI [of _ "sample_lists(MmioBus := BarRegion 0 0 # sample_lists MmioBus)"])
      (simp add: s_def register_fields region_init_fields sample_pci)
qed

theorem pci_bar_reprogram_hangs_witness:
  "\<exists>s s1 s2 s3 s4. bar_based s 0 0 \<and>
    pci_config_write 0 (le_bytes 4 (0 :: u32)) (of_nat (PCI_BAR_OFFSET 0)) 4 s = Some s1 \<and>
    pci_config_write 0 (le_bytes 2 (0 :: u16)) (of_nat PCI_COMMAND) 2 s1 = Some s2 \<and>
    pci_config_write 0 (le_bytes 4 (0xFD000000 :: u32)) (of_nat (PCI_BAR_OFFSET 0)) 4 s2 = Some s3 \<and>
    pci_config_write 0 (le_bytes 2 PCI_COMMAND_MEMORY) (of_nat PCI_COMMAND) 2 s3 = Some s4 \<and>
    iobus_find_region (io s4) MmioBus 0x1000 = None"
proof -
  obtain s l where s: "bars_synced 0 s l" "l MmioBus = [BarRegion 0 0]" "r_len (regions (io s) (BarRegion 0 0)) = 0x100"
    "bar_size (pci_devs s 0) = [0x100, 0, 0, 0, 0, 0]" "bar_active (pci_devs s 0) ! 0"
    "\<not> bar_is_io_space (pci_devs s 0) ! 0" "bar_based s 0 0"
    using sample_pci_enabled by blast
  have "\<forall>i. 0 < i \<and> i < PCI_STD_NUM_BARS \<longrightarrow> bar_size (pci_devs s 0) ! i = 0"
    by (auto simp: s(4) dest!: bar_cases)
  from pci_bar_reprogram_hangs [OF s(1) this s(6,5,7), of "0xFD000000" "0x1000"] s(2,3,4,7) show ?thesis
    by (auto simp: bar_mask_def region_hit_def)
qed

section \<open>Configuration addresses\<close>

lemma pci_config_address_sum:
  "pci_config_address 0 dev 0 reg True = 0x80000000 + ucast dev * 2048 + ucast reg * 4"
proof -
  have len: "\<not> bit reg n" if "6 \<le> n" for n using bit_imp_le_length [of reg n] that by auto
  have len': "\<not> bit dev n" if "5 \<le> n" for n using bit_imp_le_length [of dev n] that by auto
  have sh: "(push_bit 2 (ucast reg) :: u32) = ucast reg * 4" "(push_bit 11 (ucast dev) :: u32) = ucast dev * 2048"
    by (simp_all add: push_bit_eq_mult)
  have 1: "push_bit 2 (ucast reg :: u32) AND push_bit 11 (ucast dev) = 0"
    by (rule word_eqI64, simp, unfold upt_0_64) (simp add: bit_simps len)
  have 2: "(push_bit 2 (ucast reg :: u32) OR push_bit 11 (ucast dev)) AND 0x80000000 = 0"
    by (rule word_eqI64, simp, unfold upt_0_64) (simp add: bit_simps len len')
  have "pci_config_address 0 dev 0 reg True = (push_bit 2 (ucast reg) OR push_bit 11 (ucast dev)) OR 0x80000000"
    by (simp add: pci_config_address_def or.assoc)
  also have "\<dots> = push_bit 2 (ucast reg) + push_bit 11 (ucast dev) + 0x80000000"
    by (simp only: disjunctive_add_eq_or [OF 1] disjunctive_add_eq_or [OF 2])
  finally show ?thesis unfolding sh by simp
qed

lemma unat_pci_config_address:
  "unat (pci_config_address 0 dev 0 reg True) = 0x80000000 + unat dev * 2048 + unat reg * 4"
proof -
  have "unat dev < 32" "unat reg < 64" using unsigned_less [of dev] unsigned_less [of reg] by simp_all
  then show ?thesis
    unfolding pci_config_address_sum by (simp add: unat_word_ariths unsigned_ucast_eq take_bit_nat_eq_self)
qed

text \<open>The address \<open>pcibus_data_io\<close> looks up: the register selected at CF8, and the byte in it.\<close>

lemma unat_data_address:
  fixes offset :: u64
  assumes "unat offset < 4"
  shows "unat (ucast (pci_config_address 0 dev 0 reg True) OR offset) =
    0x80000000 + unat dev * 2048 + unat reg * 4 + unat offset"
proof -
  let ?a = "ucast (pci_config_address 0 dev 0 reg True) :: u64"
  have "take_bit 2 offset = offset" using assms by (simp add: word_unat_eq_iff unsigned_take_bit_eq take_bit_nat_eq_self)
  then have "bit offset n \<Longrightarrow> n < 2" for n by (metis bit_take_bit_iff)
  moreover have "\<not> bit ?a n" if "n < 2" for n
    using that by (auto simp: less_2_cases_iff pci_config_address_def bit_simps)
  ultimately have dis: "?a AND offset = 0" by (intro bit_eqI) (auto simp: bit_and_iff)
  have "unat dev < 32" "unat reg < 64" using unsigned_less [of dev] unsigned_less [of reg] by simp_all
  then show ?thesis
    unfolding disjunctive_add_eq_or [OF dis, symmetric] using assms
    by (simp add: unat_word_ariths unat_pci_config_address)
qed

definition pci_slots :: "nat list \<Rightarrow> pci_state \<Rightarrow> (bus_id \<Rightarrow> region_id list) \<Rightarrow> bool" where
  "pci_slots ds s l \<longleftrightarrow> bus_repr (io s) l \<and> l PciBus = rev (map ConfigRegion ds) \<and>
     region_count (buses (io s) PciBus) = of_nat (length ds) \<and>
     (\<forall>k<length ds. r_base (regions (io s) (ConfigRegion (ds ! k))) = ucast (pci_config_address 0 (of_nat k) 0 0 True) \<and>
        r_len (regions (io s) (ConfigRegion (ds ! k))) = of_nat PCI_CFG_SPACE_SIZE)"

lemma slot_number: "k < 2 ^ 32 \<Longrightarrow> (ucast (ucast (of_nat k :: u64) :: u32) :: 5 word) = of_nat k"
  by (simp add: word_unat_eq_iff unsigned_ucast_eq unsigned_of_nat take_bit_eq_mod mod_mod_cancel)

lemma pci_dev_init_slot:
  assumes "pci_slots ds s l" "length ds < 32" and own: "d \<notin> set ds" "\<And>b. ConfigRegion d \<notin> set (l b)" "\<And>b i. BarRegion d i \<notin> set (l b)"
  shows "pci_slots (ds @ [d]) (pci_dev_init d s) (l(PciBus := ConfigRegion d # l PciBus))"
proof -
  have rep: "bus_repr (io (pci_dev_init d s)) (l(PciBus := ConfigRegion d # l PciBus))"
    using pci_dev_init_synced [of s l d] own(2,3) assms(1) unfolding pci_slots_def bars_synced_def by blast
  have num: "(ucast (ucast (region_count (buses (io s) PciBus)) :: u32) :: 5 word) = of_nat (length ds)"
    using assms(1,2) slot_number [of "length ds"] by (simp add: pci_slots_def)
  have io: "io (pci_dev_init d s) = iobus_register_region PciBus (ConfigRegion d)
      (region_init (ConfigRegion d) (ucast (pci_config_address 0 (of_nat (length ds)) 0 0 True)) (of_nat PCI_CFG_SPACE_SIZE)
         (PciDev d) Pci_config_handle_io (clear_regions d (io s)))"
    unfolding num [symmetric] by (simp add: pci_dev_init_def pcibus_register_dev_def Let_def clear_regions_def)
  have "region_count (buses (io (pci_dev_init d s)) PciBus) = of_nat (length (ds @ [d]))"
    using assms(1) unfolding io
    by (simp add: iobus_register_region_def store_defs Let_def region_init_fields clear_regions_def pci_slots_def)
  moreover have "r_base (regions (io (pci_dev_init d s)) (ConfigRegion ((ds @ [d]) ! k))) = ucast (pci_config_address 0 (of_nat k) 0 0 True) \<and>
      r_len (regions (io (pci_dev_init d s)) (ConfigRegion ((ds @ [d]) ! k))) = of_nat PCI_CFG_SPACE_SIZE"
    if "k < length (ds @ [d])" for k
  proof (cases "k = length ds")
    case True
    then show ?thesis unfolding io by (simp add: register_fields region_init_fields)
  next
    case False
    then have k: "k < length ds" using that by simp
    then have "ds ! k \<noteq> d" using own(1) by auto
    with k show ?thesis
      using assms(1) unfolding io by (simp add: register_fields region_init_fields clear_regions_def pci_slots_def nth_append)
  qed
  ultimately show ?thesis
    using rep assms(1) by (simp add: pci_slots_def)
qed

lemma pci_devs_slots:
  "pci_slots es s l \<Longrightarrow> length (es @ ds) \<le> 32 \<Longrightarrow> distinct (es @ ds) \<Longrightarrow>
   (\<And>d b. d \<in> set ds \<Longrightarrow> ConfigRegion d \<notin> set (l b) \<and> (\<forall>i. BarRegion d i \<notin> set (l b))) \<Longrightarrow>
   \<exists>l'. pci_slots (es @ ds) (fold pci_dev_init ds s) l'"
proof (induction ds arbitrary: es s l)
  case (Cons d ds)
  have "pci_slots (es @ [d]) (pci_dev_init d s) (l(PciBus := ConfigRegion d # l PciBus))"
    by (rule pci_dev_init_slot [OF Cons.prems(1)]) (use Cons.prems(2-) in auto)
  moreover have "ConfigRegion e \<notin> set ((l(PciBus := ConfigRegion d # l PciBus)) b) \<and>
      (\<forall>i. BarRegion e i \<notin> set ((l(PciBus := ConfigRegion d # l PciBus)) b))" if "e \<in> set ds" for e b
    using that Cons.prems(3,4) by auto
  ultimately have "\<exists>l'. pci_slots ((es @ [d]) @ ds) (fold pci_dev_init ds (pci_dev_init d s)) l'"
    using Cons.prems(2,3) by (intro Cons.IH) auto
  then show ?case by simp
qed auto

lemma slot_hit:
  assumes "pci_slots ds s l" "length ds \<le> 32" "k < length ds" "n < 32" "unat offset < 4"
  shows "region_hit (regions (io s) (ConfigRegion (ds ! k))) (ucast (pci_config_address 0 (of_nat n) 0 reg True) OR offset) \<longleftrightarrow> k = n"
proof -
  let ?r = "regions (io s) (ConfigRegion (ds ! k))"
  have k: "k < 32" using assms by simp
  have b: "unat (r_base ?r) = 0x80000000 + k * 2048"
    using assms(1,3) k by (simp add: pci_slots_def unat_pci_config_address unsigned_of_nat take_bit_nat_eq_self)
  moreover have "r_len ?r = 256" using assms(1,3) by (simp add: pci_slots_def const_simps)
  ultimately have "unat (r_base ?r + r_len ?r - 1) = 0x80000000 + k * 2048 + 255"
    using k by (subst unat_add_sub_one) auto
  moreover have "unat (ucast (pci_config_address 0 (of_nat n) 0 reg True) OR offset) = 0x80000000 + n * 2048 + unat reg * 4 + unat offset"
    using assms(4,5) by (simp add: unat_data_address unsigned_of_nat take_bit_nat_eq_self)
  moreover have "unat reg < 64" using unsigned_less [of reg] by simp
  ultimately show ?thesis
    using b assms(5) by (auto simp: region_hit_def Let_def word_le_nat_alt)
qed

lemma find_rev_map:
  "(\<And>k. k < length ds \<Longrightarrow> P (f (ds ! k)) \<longleftrightarrow> k = n) \<Longrightarrow>
     List.find P (rev (map f ds)) = (if n < length ds then Some (f (ds ! n)) else None)"
proof (induction ds rule: rev_induct)
  case (snoc d ds)
  have IH: "List.find P (rev (map f ds)) = (if n < length ds then Some (f (ds ! n)) else None)"
  proof (rule snoc.IH)
    fix k assume "k < length ds"
    then show "P (f (ds ! k)) \<longleftrightarrow> k = n" using snoc.prems [of k] by (simp add: nth_append)
  qed
  have "P (f d) \<longleftrightarrow> length ds = n" using snoc.prems [of "length ds"] by simp
  with IH show ?case by (auto simp: nth_append)
qed simp

text \<open>Configuration mechanism: when up to 32 devices have been initialised after
  \<open>pcibus_init\<close>, the address register value for device \<open>n\<close> and register \<open>reg\<close> together with
  a byte offset selects the configuration region of exactly the \<open>n\<close>-th device, at the offset of
  that byte, and no region when there are not that many devices.\<close>

theorem pci_config_decode:
  fixes reg :: "6 word"
  assumes "bus_repr (io s) l" "l PciBus = []" "region_count (buses (io s) PciBus) = 0"
    and "distinct ds" "length ds \<le> 32" "n < 32" "unat offset < 4"
    and "\<And>d b. d \<in> set ds \<Longrightarrow> ConfigRegion d \<notin> set (l b) \<and> (\<forall>i. BarRegion d i \<notin> set (l b))"
  defines "addr \<equiv> ucast (pci_config_address 0 (of_nat n) 0 reg True) OR offset"
  defines "s' \<equiv> fold pci_dev_init ds s"
  shows "iobus_find_region (io s') PciBus addr = Some (if n < length ds then Some (ConfigRegion (ds ! n)) else None) \<and>
    (n < length ds \<longrightarrow> unat (addr - r_base (regions (io s') (ConfigRegion (ds ! n)))) = 4 * unat reg + unat offset)"
proof -
  have "pci_slots [] s l" using assms(1-3) by (simp add: pci_slots_def)
  then obtain l' where sl: "pci_slots ds s' l'"
    using pci_devs_slots [of "[]" s l ds] assms(4,5,8) by (auto simp: s'_def)
  have hit: "region_hit (regions (io s') (ConfigRegion (ds ! k))) addr \<longleftrightarrow> k = n" if "k < length ds" for k
    unfolding addr_def using slot_hit [OF sl assms(5) that assms(6,7)] .
  have "iobus_find_region (io s') PciBus addr = Some (List.find (\<lambda>r. bus_hit (io s') r addr) (rev (map ConfigRegion ds)))"
    using ib.find_first [of "io s'" l' PciBus addr] sl by (simp add: pci_slots_def)
  then have "iobus_find_region (io s') PciBus addr = Some (if n < length ds then Some (ConfigRegion (ds ! n)) else None)"
    using find_rev_map [of ds "\<lambda>r. bus_hit (io s') r addr" ConfigRegion n] hit by (simp add: bus_hit_def)
  moreover have "unat (addr - r_base (regions (io s') (ConfigRegion (ds ! n)))) = 4 * unat reg + unat offset" if "n < length ds"
  proof -
    have "unat (r_base (regions (io s') (ConfigRegion (ds ! n)))) = 0x80000000 + n * 2048"
      using sl that assms(6) by (simp add: pci_slots_def unat_pci_config_address unsigned_of_nat take_bit_nat_eq_self)
    moreover have "unat addr = 0x80000000 + n * 2048 + unat reg * 4 + unat offset"
      using assms(6,7) unfolding addr_def by (simp add: unat_data_address unsigned_of_nat take_bit_nat_eq_self)
    ultimately show ?thesis by (subst unat_sub) (auto simp: word_le_nat_alt)
  qed
  ultimately show ?thesis by blast
qed

theorem pci_config_decode_witness:
  "iobus_find_region (io (fold pci_dev_init [7, 9] (pcibus_init pci_state_0))) PciBus
     (ucast (pci_config_address 0 1 0 4 True) OR 2) = Some (Some (ConfigRegion 9))"
proof -
  have rep: "bus_repr (io (pcibus_init pci_state_0)) ((\<lambda>_. [])(PioBus := [PciDataRegion, PciAddrRegion], PciBus := []))"
    using pcibus_init_repr [of pci_state_0 "\<lambda>_. []"] bus_repr_0 by (simp add: pci_state_0_def)
  have "region_count (buses (io (pcibus_init pci_state_0)) PciBus) = 0"
    by (simp add: pcibus_init_def Let_def upd_bus_def)
  from pci_config_decode [OF rep _ this, of "[7, 9]" 1 2 4] show ?thesis by simp
qed

end
