(* ===== verification/Virtqueue.thy ===== *)
theory Virtqueue
  imports Memory Uapi
begin

text \<open>
  \<open>src/virtqueue.c\<close> and \<open>src/virtqueue.h\<close>: the device side of a packed virtqueue. The ring
  lies in guest memory and is reached through host pointers; \<open>struct virtq_info\<close> is kept as its
  32 bytes, because the transport copies raw bytes into it. The device walks the ring with an
  index and a wrap bit; the lemmas show that this is a counter of descriptors taken so far,
  and how the two flag bits of a descriptor pass it between driver and device.
\<close>

section \<open>State\<close>

record virtq =
  desc_ring :: u64
  device_event :: u64
  guest_event :: u64
  info :: bytes
  next_avail_idx :: u16
  used_wrap_count :: bool

definition VIRTQ_INFO_SIZE :: nat where "VIRTQ_INFO_SIZE = 32"

definition zero_virtq :: virtq where
  "zero_virtq = \<lparr>desc_ring = 0, device_event = 0, guest_event = 0, info = replicate VIRTQ_INFO_SIZE 0,
     next_avail_idx = 0, used_wrap_count = False\<rparr>"

text \<open>Fields of a byte object.\<close>

definition field :: "bytes \<Rightarrow> nat \<Rightarrow> nat \<Rightarrow> 'a::len word" where
  "field obj off n = of_le (take n (drop off obj))"

definition info_size :: "virtq \<Rightarrow> u16" where "info_size vq = field (info vq) 0 2"
definition info_enable :: "virtq \<Rightarrow> u16" where "info_enable vq = field (info vq) 4 2"
definition info_notify_off :: "virtq \<Rightarrow> u16" where "info_notify_off vq = field (info vq) 6 2"
definition info_desc_addr :: "virtq \<Rightarrow> u64" where "info_desc_addr vq = field (info vq) 8 8"
definition info_driver_addr :: "virtq \<Rightarrow> u64" where "info_driver_addr vq = field (info vq) 16 8"
definition info_device_addr :: "virtq \<Rightarrow> u64" where "info_device_addr vq = field (info vq) 24 8"

text \<open>Accesses through a host pointer.\<close>

definition host_load :: "memory \<Rightarrow> u64 \<Rightarrow> nat \<Rightarrow> 'a::len word option" where
  "host_load st p n = map_option of_le (load_bytes (hmem st) (unat p) n)"

definition host_write :: "memory \<Rightarrow> u64 \<Rightarrow> bytes \<Rightarrow> memory option" where
  "host_write st p bs = do { m \<leftarrow> store_bytes (hmem st) (unat p) bs; Some (st\<lparr>hmem := m\<rparr>) }"

text \<open>\<open>struct vring_packed_desc\<close>: address, length, id and flags, 16 bytes.\<close>

definition desc_addr :: "memory \<Rightarrow> u64 \<Rightarrow> u64 option" where "desc_addr st desc = host_load st desc 8"
definition desc_len :: "memory \<Rightarrow> u64 \<Rightarrow> u32 option" where "desc_len st desc = host_load st (desc + 8) 4"
definition desc_flags :: "memory \<Rightarrow> u64 \<Rightarrow> u16 option" where "desc_flags st desc = host_load st (desc + 14) 2"

section \<open>Operations\<close>

definition virtq_notify :: "('s \<Rightarrow> 's option) \<Rightarrow> virtq \<Rightarrow> 's \<Rightarrow> 's option" where
  "virtq_notify handle_output vq s = (if info_enable vq = 0 then Some s else handle_output s)"

definition virtq_init :: "u16 \<Rightarrow> virtq \<Rightarrow> virtq option" where
  "virtq_init queue_size vq =
     do { i1 \<leftarrow> obj_write (info vq) 0 (le_bytes 2 queue_size);
          i2 \<leftarrow> obj_write i1 6 (le_bytes 2 (0 :: u16));
          i3 \<leftarrow> obj_write i2 4 (le_bytes 2 (0 :: u16));
          Some (vq\<lparr>info := i3, next_avail_idx := 0, used_wrap_count := True\<rparr>) }"

definition virtq_enable :: "memory \<Rightarrow> virtq \<Rightarrow> virtq option" where
  "virtq_enable st vq =
     (if info_enable vq \<noteq> 0 then Some vq
      else do { i \<leftarrow> obj_write (info vq) 4 (le_bytes 2 (1 :: u16));
                let vq1 = vq\<lparr>info := i\<rparr> in
                do { ring \<leftarrow> get_userspace_addr st (info_desc_addr vq1);
                     guest \<leftarrow> get_userspace_addr st (info_driver_addr vq1);
                     device \<leftarrow> get_userspace_addr st (info_device_addr vq1);
                     Some (vq1\<lparr>desc_ring := ring, guest_event := guest, device_event := device\<rparr>) } })"

definition virtq_check_next :: "memory \<Rightarrow> u64 \<Rightarrow> bool option" where
  "virtq_check_next st desc = do { flags \<leftarrow> desc_flags st desc; Some (flags AND VRING_DESC_F_NEXT \<noteq> 0) }"

definition virtq_advance :: "virtq \<Rightarrow> virtq" where
  "virtq_advance vq =
     (let i = next_avail_idx vq + 1 in
      if i \<ge> info_size vq
      then vq\<lparr>next_avail_idx := i - info_size vq, used_wrap_count := \<not> used_wrap_count vq\<rparr>
      else vq\<lparr>next_avail_idx := i\<rparr>)"

definition virtq_get_avail :: "memory \<Rightarrow> virtq \<Rightarrow> (u64 option \<times> virtq) option" where
  "virtq_get_avail st vq =
     (let desc = desc_ring vq + 16 * ucast (next_avail_idx vq) in
      do { flags \<leftarrow> desc_flags st desc;
           let avail = bit flags VRING_PACKED_DESC_F_AVAIL; used = bit flags VRING_PACKED_DESC_F_USED in
           if avail \<noteq> used_wrap_count vq \<or> used = used_wrap_count vq then Some (None, vq)
           else Some (Some desc, virtq_advance vq) })"

section \<open>The ring as a counter\<close>

text \<open>Position \<open>p\<close> of the endless sequence of descriptors is slot \<open>p mod n\<close> in round
  \<open>p div n\<close>; the wrap bit is set in even rounds.\<close>

definition wrap_of :: "nat \<Rightarrow> nat \<Rightarrow> bool" where
  "wrap_of n p = even (p div n)"

definition vq_at :: "virtq \<Rightarrow> nat \<Rightarrow> bool" where
  "vq_at vq p \<longleftrightarrow> 0 < info_size vq \<and> unat (next_avail_idx vq) = p mod unat (info_size vq) \<and>
     used_wrap_count vq = wrap_of (unat (info_size vq)) p"

text \<open>When a descriptor is available to the device in round \<open>p div n\<close>, and when it is marked used
  for the driver, as the virtio specification has it.\<close>

definition avail_flags :: "nat \<Rightarrow> nat \<Rightarrow> u16 \<Rightarrow> bool" where
  "avail_flags n p flags \<longleftrightarrow> bit flags 7 = wrap_of n p \<and> bit flags 15 \<noteq> wrap_of n p"

definition used_flags :: "nat \<Rightarrow> nat \<Rightarrow> u16 \<Rightarrow> bool" where
  "used_flags n p flags \<longleftrightarrow> bit flags 7 = wrap_of n p \<and> bit flags 15 = wrap_of n p"

definition desc_at :: "virtq \<Rightarrow> nat \<Rightarrow> u64" where
  "desc_at vq p = desc_ring vq + 16 * of_nat (p mod unat (info_size vq))"

lemma wrap_of_Suc:
  "0 < n \<Longrightarrow> wrap_of n (Suc p) = (if Suc (p mod n) = n then \<not> wrap_of n p else wrap_of n p)"
  by (simp add: wrap_of_def div_Suc mod_Suc)

lemma vq_at_desc: "vq_at vq p \<Longrightarrow> desc_ring vq + 16 * ucast (next_avail_idx vq) = desc_at vq p"
proof -
  assume "vq_at vq p"
  then have "(ucast (next_avail_idx vq) :: u64) = of_nat (p mod unat (info_size vq))"
    by (metis of_nat_unat unat_ucast16 vq_at_def)
  then show ?thesis by (simp add: desc_at_def)
qed

lemma vq_at_advance:
  assumes "vq_at vq p"
  shows "vq_at (virtq_advance vq) (Suc p)" "info_size (virtq_advance vq) = info_size vq"
    "desc_at (virtq_advance vq) q = desc_at vq q" "info (virtq_advance vq) = info vq"
proof -
  let ?n = "unat (info_size vq)"
  have n: "0 < ?n" and i: "unat (next_avail_idx vq) = p mod ?n"
    using assms by (auto simp: vq_at_def word_less_nat_alt)
  have "?n < 2 ^ 16" using unsigned_less [of "info_size vq"] by simp
  moreover have lt: "p mod ?n < ?n" using n by simp
  ultimately have i1: "unat (next_avail_idx vq + 1) = Suc (p mod ?n)"
    using i of_nat_unat_add [of "next_avail_idx vq" 1] by simp
  have size: "info_size (virtq_advance vq) = info_size vq"
    by (simp add: virtq_advance_def Let_def info_size_def)
  show "vq_at (virtq_advance vq) (Suc p)"
  proof (cases "Suc (p mod ?n) = ?n")
    case True
    then have "next_avail_idx vq + 1 = info_size vq" using i1 by (simp add: word_unat_eq_iff)
    then show ?thesis
      using assms True n unfolding vq_at_def size by (simp add: virtq_advance_def wrap_of_Suc mod_Suc)
  next
    case False
    then have "\<not> next_avail_idx vq + 1 \<ge> info_size vq" using i1 lt by (simp add: word_le_nat_alt)
    then show ?thesis
      using assms False n i1 unfolding vq_at_def size by (simp add: virtq_advance_def wrap_of_Suc mod_Suc)
  qed
  show "info_size (virtq_advance vq) = info_size vq" by (rule size)
  show "desc_at (virtq_advance vq) q = desc_at vq q"
    unfolding desc_at_def size by (simp add: virtq_advance_def Let_def)
  show "info (virtq_advance vq) = info vq" by (simp add: virtq_advance_def Let_def)
qed

text \<open>The ring lies in mapped memory.\<close>

definition ring_mapped :: "memory \<Rightarrow> virtq \<Rightarrow> bool" where
  "ring_mapped st vq \<longleftrightarrow> unat (desc_ring vq) + 16 * unat (info_size vq) < 2 ^ 64 \<and>
     mapped (hmem st) (unat (desc_ring vq)) (16 * unat (info_size vq))"

lemma unat_desc_at:
  assumes "ring_mapped st vq" "0 < info_size vq" "k < 16"
  shows "unat (desc_at vq p + of_nat k) = unat (desc_ring vq) + 16 * (p mod unat (info_size vq)) + k"
    "16 * (p mod unat (info_size vq)) + 16 \<le> 16 * unat (info_size vq)"
proof -
  let ?i = "p mod unat (info_size vq)"
  have i: "Suc ?i \<le> unat (info_size vq)" using assms(2) by (simp add: word_less_nat_alt Suc_leI)
  then show le: "16 * ?i + 16 \<le> 16 * unat (info_size vq)" by simp
  then have b: "unat (desc_ring vq) + (16 * ?i + k) < 2 ^ 64"
    using assms(1,3) by (auto simp: ring_mapped_def)
  have "desc_at vq p + of_nat k = desc_ring vq + of_nat (16 * ?i + k)" by (simp add: desc_at_def)
  then show "unat (desc_at vq p + of_nat k) = unat (desc_ring vq) + 16 * ?i + k"
    using of_nat_unat_add [of "desc_ring vq" "16 * ?i + k"] b by (simp only:) simp
qed

lemma desc_flags_ok:
  assumes "ring_mapped st vq" "0 < info_size vq"
  shows "\<exists>flags. desc_flags st (desc_at vq p) = Some flags"
proof -
  have "unat (desc_at vq p + 14) = unat (desc_ring vq) + 16 * (p mod unat (info_size vq)) + 14"
    using unat_desc_at(1) [OF assms, of 14 p] by simp
  then have "mapped (hmem st) (unat (desc_at vq p + 14)) 2"
    using assms(1) unat_desc_at(2) [OF assms, of 14 p]
    by (auto simp: ring_mapped_def intro: mapped_sub)
  then show ?thesis by (simp add: desc_flags_def host_load_def load_bytes_eq)
qed

lemma get_avail_step:
  assumes "vq_at vq p" "desc_flags st (desc_at vq p) = Some flags"
  shows "virtq_get_avail st vq = Some (if avail_flags (unat (info_size vq)) p flags
     then (Some (desc_at vq p), virtq_advance vq) else (None, vq))"
  using assms by (simp add: virtq_get_avail_def Let_def vq_at_desc avail_flags_def vq_at_def const_simps)

section \<open>Properties\<close>

text \<open>Property C24. Refinement of the ring to a counter: at position \<open>p\<close>, \<open>virtq_get_avail\<close>
  reads inside the ring, returns descriptor \<open>p\<close> and moves to \<open>p + 1\<close> exactly when its flags
  make it available in that round, and otherwise returns null and changes nothing.\<close>

theorem virtq_get_avail_refines:
  assumes "vq_at vq p" "ring_mapped st vq"
  shows "\<exists>flags. desc_flags st (desc_at vq p) = Some flags \<and>
    (if avail_flags (unat (info_size vq)) p flags
     then \<exists>vq'. virtq_get_avail st vq = Some (Some (desc_at vq p), vq') \<and> vq_at vq' (Suc p) \<and>
       info vq' = info vq \<and> (\<forall>q. desc_at vq' q = desc_at vq q)
     else virtq_get_avail st vq = Some (None, vq))"
proof -
  have "0 < info_size vq" using assms(1) by (simp add: vq_at_def)
  from desc_flags_ok [OF assms(2) this] obtain flags where "desc_flags st (desc_at vq p) = Some flags" by blast
  then show ?thesis
    using get_avail_step [OF assms(1)] vq_at_advance [OF assms(1)] by simp
qed

text \<open>The life of a descriptor: toggling the used bit of an available descriptor makes
  it used for the driver and unavailable to the device in every round; one that was taken and
  not marked stays unavailable in the next round; the driver's new flags for that round make
  it available again.\<close>

theorem virtq_descriptor_life:
  assumes "0 < n" "avail_flags n p flags"
  defines "used \<equiv> flags XOR 2 ^ VRING_PACKED_DESC_F_USED"
  shows "used_flags n p used \<and> (\<forall>q. \<not> avail_flags n q used) \<and> \<not> avail_flags n (p + n) flags \<and>
    avail_flags n (p + n) (used XOR 2 ^ VRING_PACKED_DESC_F_AVAIL) \<and>
    (\<forall>k. k \<noteq> VRING_PACKED_DESC_F_USED \<longrightarrow> bit used k = bit flags k)"
proof -
  have e: "bit (2 ^ m :: u16) k \<longleftrightarrow> k = m" if "m < 16" for m k using that by (auto simp: bit_exp_iff)
  have "bit used k = (if k = 15 then \<not> bit flags 15 else bit flags k)" for k
    using e [of VRING_PACKED_DESC_F_USED k] by (simp add: used_def bit_xor_iff VRING_PACKED_DESC_F_USED_def)
  moreover have "bit (used XOR 2 ^ VRING_PACKED_DESC_F_AVAIL) k = (if k = 7 then \<not> bit used 7 else bit used k)" for k
    using e [of VRING_PACKED_DESC_F_AVAIL k] by (simp add: bit_xor_iff VRING_PACKED_DESC_F_AVAIL_def)
  moreover have "wrap_of n (p + n) = (\<not> wrap_of n p)" using assms(1) by (simp add: wrap_of_def div_add_self2)
  ultimately show ?thesis
    using assms(2) by (auto simp: avail_flags_def used_flags_def const_simps)
qed

theorem virtq_descriptor_life_witness:
  "used_flags 128 5 (0x8081 :: u16) \<and> \<not> avail_flags 128 5 0x8081 \<and> avail_flags 128 133 0x8001"
proof -
  have "avail_flags 128 5 0x0081" by (simp add: avail_flags_def wrap_of_def)
  from virtq_descriptor_life [OF _ this] show ?thesis by (simp add: const_simps)
qed

definition sample_virtq :: virtq where
  "sample_virtq = \<lparr>desc_ring = 0x100000010000, device_event = 0x100000020000, guest_event = 0x100000030000,
     info = le_bytes 2 (4 :: u16) @ [0, 0, 1, 0, 0, 0] @ le_bytes 8 (0x10000 :: u64) @ le_bytes 8 (0x30000 :: u64) @
       le_bytes 8 (0x20000 :: u64), next_avail_idx = 3, used_wrap_count = True\<rparr>"

lemma sample_virtq_at: "vq_at sample_virtq 3" "info_size sample_virtq = 4"
  by (simp_all add: vq_at_def sample_virtq_def info_size_def field_def wrap_of_def layout_simps)

lemma sample_host_zero:
  "0x100000000000 \<le> a \<Longrightarrow> a + n \<le> 0x100020000000 \<Longrightarrow> load_bytes (hmem sample_memory) a n = Some (replicate n 0)"
  by (auto simp: load_bytes_eq mapped_def sample_memory_def map_zero_def const_simps intro!: nth_equalityI)

lemma sample_ring: "ring_mapped sample_memory sample_virtq"
proof -
  have "mapped (hmem sample_memory) 0x100000010000 64"
    by (simp add: sample_memory_def mapped_def map_zero_def const_simps)
  then show ?thesis by (simp add: ring_mapped_def sample_virtq_at(2)) (simp add: sample_virtq_def)
qed

definition sample_avail :: memory where
  "sample_avail = sample_memory\<lparr>hmem := upd_bytes (hmem sample_memory) 0x10000001003E [0x80, 0]\<rparr>"

lemma sample_avail: "ring_mapped sample_avail sample_virtq" "desc_flags sample_avail (desc_at sample_virtq 3) = Some 0x80"
proof -
  have m: "mapped (hmem sample_memory) 0x10000001003E (length [0x80 :: u8, 0])"
    by (simp add: sample_memory_def mapped_def map_zero_def const_simps)
  then show "ring_mapped sample_avail sample_virtq" using sample_ring by (auto simp: sample_avail_def ring_mapped_def mapped_def upd_bytes_def)
  have le: "of_le [0x80, 0] = (0x80 :: u16)" by code_simp
  have "load_bytes (hmem sample_avail) 0x10000001003E (length [0x80 :: u8, 0]) = Some [0x80, 0]"
    unfolding sample_avail_def using load_upd_bytes_same [of "hmem sample_memory" "0x10000001003E" "[0x80, 0]"] m by simp
  moreover have "length [0x80 :: u8, 0] = 2" by simp
  ultimately have "load_bytes (hmem sample_avail) 0x10000001003E 2 = Some [0x80, 0]" by (simp only:)
  then have "host_load sample_avail 0x10000001003E 2 = Some (0x80 :: u16)"
    by (simp add: host_load_def le del: load_bytes.simps)
  then show "desc_flags sample_avail (desc_at sample_virtq 3) = Some 0x80"
    by (simp add: desc_flags_def desc_at_def sample_virtq_at(2)) (simp add: sample_virtq_def)
qed

theorem virtq_get_avail_refines_witness:
  "virtq_get_avail sample_memory sample_virtq = Some (None, sample_virtq) \<and>
   (\<exists>vq'. virtq_get_avail sample_avail sample_virtq = Some (Some (desc_at sample_virtq 3), vq') \<and> vq_at vq' 4)"
proof
  have "desc_flags sample_memory (desc_at sample_virtq 3) = Some 0"
    by (simp add: desc_flags_def host_load_def desc_at_def sample_virtq_at(2))
      (simp add: sample_virtq_def sample_host_zero)
  then show "virtq_get_avail sample_memory sample_virtq = Some (None, sample_virtq)"
    using virtq_get_avail_refines [OF sample_virtq_at(1) sample_ring]
    by (simp add: avail_flags_def sample_virtq_at(2) wrap_of_def)
  have "avail_flags 4 3 0x80" by (simp add: avail_flags_def wrap_of_def)
  then show "\<exists>vq'. virtq_get_avail sample_avail sample_virtq = Some (Some (desc_at sample_virtq 3), vq') \<and> vq_at vq' 4"
    using virtq_get_avail_refines [OF sample_virtq_at(1) sample_avail(1)] sample_avail(2)
    by (auto simp: sample_virtq_at(2))
qed

end
