(* ===== verification/List_head.thy ===== *)
theory List_head
  imports Prelude
begin

text \<open>
  \<open>src/list.h\<close>: circular doubly linked lists through embedded \<open>struct list_head\<close> nodes. A
  node is its address, the heap gives its two links, and a write through a null pointer is
  undefined. The predicate \<open>dlist\<close> says which sequence of nodes a list head holds; the
  operations are shown to be the operations on sequences that the interface
  \<open>node_sequence\<close> states.
\<close>

type_synonym addr = nat

record list_heap =
  next_of :: "addr \<Rightarrow> addr"
  prev_of :: "addr \<Rightarrow> addr"

section \<open>Operations\<close>

definition set_next :: "addr \<Rightarrow> addr \<Rightarrow> list_heap \<Rightarrow> list_heap option" where
  "set_next p v h = (if p = 0 then None else Some (h\<lparr>next_of := (next_of h)(p := v)\<rparr>))"

definition set_prev :: "addr \<Rightarrow> addr \<Rightarrow> list_heap \<Rightarrow> list_heap option" where
  "set_prev p v h = (if p = 0 then None else Some (h\<lparr>prev_of := (prev_of h)(p := v)\<rparr>))"

definition INIT_LIST_HEAD :: "addr \<Rightarrow> list_heap \<Rightarrow> list_heap option" where
  "INIT_LIST_HEAD l h = do { h1 \<leftarrow> set_next l l h; set_prev l l h1 }"

definition list_add_between :: "addr \<Rightarrow> addr \<Rightarrow> addr \<Rightarrow> list_heap \<Rightarrow> list_heap option" where
  "list_add_between new prv nxt h =
     do { h1 \<leftarrow> set_prev nxt new h; h2 \<leftarrow> set_next new nxt h1; h3 \<leftarrow> set_prev new prv h2; set_next prv new h3 }"

definition list_del_between :: "addr \<Rightarrow> addr \<Rightarrow> list_heap \<Rightarrow> list_heap option" where
  "list_del_between prv nxt h = do { h1 \<leftarrow> set_prev nxt prv h; set_next prv nxt h1 }"

definition list_add_tail :: "addr \<Rightarrow> addr \<Rightarrow> list_heap \<Rightarrow> list_heap option" where
  "list_add_tail new head h = list_add_between new (prev_of h head) head h"

definition list_del :: "addr \<Rightarrow> list_heap \<Rightarrow> list_heap option" where
  "list_del entry h =
     do { h1 \<leftarrow> list_del_between (prev_of h entry) (next_of h entry) h;
          h2 \<leftarrow> set_next entry 0 h1; set_prev entry 0 h2 }"

definition list_empty :: "addr \<Rightarrow> list_heap \<Rightarrow> bool" where
  "list_empty head h \<longleftrightarrow> next_of h head = head"

definition list_del_entry :: "addr \<Rightarrow> list_heap \<Rightarrow> list_heap option" where
  "list_del_entry entry h = list_del_between (prev_of h entry) (next_of h entry) h"

definition list_del_init :: "addr \<Rightarrow> list_heap \<Rightarrow> list_heap option" where
  "list_del_init entry h = do { h1 \<leftarrow> list_del_entry entry h; INIT_LIST_HEAD entry h1 }"

text \<open>\<open>container_of\<close> subtracts the offset of the member from its address.\<close>

definition list_entry :: "addr \<Rightarrow> nat \<Rightarrow> addr" where
  "list_entry ptr member = ptr - member"

definition list_first_entry :: "addr \<Rightarrow> nat \<Rightarrow> list_heap \<Rightarrow> addr" where
  "list_first_entry head member h = list_entry (next_of h head) member"

definition list_next_entry :: "addr \<Rightarrow> nat \<Rightarrow> list_heap \<Rightarrow> addr" where
  "list_next_entry pos member h = list_entry (next_of h (pos + member)) member"

text \<open>The loop of \<open>list_for_each_entry\<close>, collecting the entries it visits; \<open>None\<close> is a loop
  that never ends or follows a null link.\<close>

partial_function (option) for_each_from :: "list_heap \<Rightarrow> addr \<Rightarrow> nat \<Rightarrow> addr \<Rightarrow> addr list option" where
  "for_each_from h head member pos =
     (if pos + member = head then Some []
      else if next_of h (pos + member) = 0 then None
      else do { rest \<leftarrow> for_each_from h head member (list_next_entry pos member h); Some (pos # rest) })"

definition list_for_each_entry :: "addr \<Rightarrow> nat \<Rightarrow> list_heap \<Rightarrow> addr list option" where
  "list_for_each_entry head member h = for_each_from h head member (list_first_entry head member h)"

text \<open>\<open>list_for_each_entry_safe\<close> fetches the next entry before the body runs; the body may change the
  links.\<close>

partial_function (option) for_each_safe_from ::
    "(addr \<Rightarrow> list_heap \<Rightarrow> list_heap option) \<Rightarrow> addr \<Rightarrow> nat \<Rightarrow> addr \<Rightarrow> addr \<Rightarrow> list_heap \<Rightarrow> (addr list \<times> list_heap) option" where
  "for_each_safe_from body head member pos n h =
     (if pos + member = head then Some ([], h)
      else do { h' \<leftarrow> body pos h;
                if next_of h' (n + member) = 0 then None
                else do { (rest, h'') \<leftarrow> for_each_safe_from body head member n (list_next_entry n member h') h';
                          Some (pos # rest, h'') } })"

definition list_for_each_entry_safe ::
    "(addr \<Rightarrow> list_heap \<Rightarrow> list_heap option) \<Rightarrow> addr \<Rightarrow> nat \<Rightarrow> list_heap \<Rightarrow> (addr list \<times> list_heap) option" where
  "list_for_each_entry_safe body head member h =
     (let pos = list_first_entry head member h
      in if next_of h (pos + member) = 0 then None
         else for_each_safe_from body head member pos (list_next_entry pos member h) h)"

section \<open>Sequences of nodes\<close>

primrec dpath :: "list_heap \<Rightarrow> addr \<Rightarrow> addr list \<Rightarrow> addr \<Rightarrow> bool" where
  "dpath h a [] b \<longleftrightarrow> next_of h a = b \<and> prev_of h b = a"
| "dpath h a (x # xs) b \<longleftrightarrow> next_of h a = x \<and> prev_of h x = a \<and> dpath h x xs b"

definition dlist :: "list_heap \<Rightarrow> addr \<Rightarrow> addr list \<Rightarrow> bool" where
  "dlist h head xs \<longleftrightarrow> distinct (head # xs) \<and> 0 \<notin> set (head # xs) \<and> dpath h head xs head"

lemma dpath_append: "dpath h a (xs @ y # ys) b \<longleftrightarrow> dpath h a xs y \<and> dpath h y ys b"
  by (induction xs arbitrary: a) auto

lemma dpath_cong:
  "(\<And>x. x = a \<or> x \<in> set xs \<Longrightarrow> next_of h' x = next_of h x) \<Longrightarrow>
   (\<And>x. x = b \<or> x \<in> set xs \<Longrightarrow> prev_of h' x = prev_of h x) \<Longrightarrow> dpath h' a xs b = dpath h a xs b"
  by (induction xs arbitrary: a) auto

lemma dpath_ends: "dpath h a xs b \<Longrightarrow> prev_of h b = last (a # xs) \<and> next_of h a = hd (xs @ [b])"
  by (induction xs arbitrary: a) auto

lemmas link_defs = set_next_def set_prev_def

text \<open>What the users of a list rely on. \<open>seqs h head xs\<close>: the list holds the sequence \<open>xs\<close>.\<close>

locale node_sequence =
  fixes seqs :: "'h \<Rightarrow> 'n \<Rightarrow> 'n list \<Rightarrow> bool"
    and init :: "'n \<Rightarrow> 'h \<Rightarrow> 'h option"
    and add_tail :: "'n \<Rightarrow> 'n \<Rightarrow> 'h \<Rightarrow> 'h option"
    and del :: "'n \<Rightarrow> 'h \<Rightarrow> 'h option"
    and is_empty :: "'n \<Rightarrow> 'h \<Rightarrow> bool"
    and valid :: "'n \<Rightarrow> bool"
  assumes seqs_init: "valid l \<Longrightarrow> \<exists>h'. init l h = Some h' \<and> seqs h' l []"
    and seqs_add_tail: "seqs h l xs \<Longrightarrow> valid n \<Longrightarrow> n \<notin> set (l # xs) \<Longrightarrow>
          \<exists>h'. add_tail n l h = Some h' \<and> seqs h' l (xs @ [n])"
    and seqs_del: "seqs h l (xs @ n # ys) \<Longrightarrow> \<exists>h'. del n h = Some h' \<and> seqs h' l (xs @ ys)"
    and seqs_empty: "seqs h l xs \<Longrightarrow> is_empty l h \<longleftrightarrow> xs = []"
    and seqs_unique: "seqs h l xs \<Longrightarrow> seqs h l ys \<Longrightarrow> xs = ys"
    and seqs_distinct: "seqs h l xs \<Longrightarrow> distinct (l # xs)"
begin

lemma add_then_del:
  assumes "seqs h l xs" "valid n" "n \<notin> set (l # xs)"
  shows "\<exists>h1 h2. add_tail n l h = Some h1 \<and> del n h1 = Some h2 \<and> seqs h2 l xs"
  using seqs_add_tail [OF assms] seqs_del [of _ l xs n "[]"] by auto

text \<open>A queue built by adding at the tail holds the nodes in the order of the calls.\<close>

lemma add_all_in_order:
  "seqs h l xs \<Longrightarrow> distinct (l # xs @ ns) \<Longrightarrow> (\<And>n. n \<in> set ns \<Longrightarrow> valid n) \<Longrightarrow>
     \<exists>h'. fold (\<lambda>n r. Option.bind r (add_tail n l)) ns (Some h) = Some h' \<and> seqs h' l (xs @ ns)"
proof (induction ns arbitrary: h xs)
  case (Cons n ns)
  then obtain h1 where h1: "add_tail n l h = Some h1" "seqs h1 l (xs @ [n])"
    using seqs_add_tail [of h l xs n] by auto
  with Cons.IH [OF h1(2)] Cons.prems show ?case by auto
qed simp

end

lemma dlist_init: "l \<noteq> 0 \<Longrightarrow> \<exists>h'. INIT_LIST_HEAD l h = Some h' \<and> dlist h' l []"
  by (simp add: INIT_LIST_HEAD_def link_defs dlist_def)

lemma dlist_add_tail:
  assumes "dlist h head xs" "n \<noteq> 0" "n \<notin> set (head # xs)"
  shows "\<exists>h'. list_add_tail n head h = Some h' \<and> dlist h' head (xs @ [n]) \<and>
    (\<forall>p. p \<notin> set (n # head # xs) \<longrightarrow> next_of h' p = next_of h p \<and> prev_of h' p = prev_of h p)"
proof -
  let ?l = "last (head # xs)"
  have ends: "prev_of h head = ?l" using assms(1) dpath_ends by (auto simp: dlist_def)
  have l: "?l \<in> set (head # xs)" by (rule last_in_set) simp
  have "0 \<notin> set (head # xs)" using assms(1) by (simp add: dlist_def)
  then have nz: "?l \<noteq> 0" "head \<noteq> 0" using l by (metis, auto)
  define h' where "h' = h\<lparr>next_of := (next_of h)(n := head, ?l := n), prev_of := (prev_of h)(head := n, n := ?l)\<rparr>"
  have eq: "list_add_tail n head h = Some h'"
    using assms(2) nz by (simp add: list_add_tail_def list_add_between_def link_defs ends h'_def)
  have "dpath h' head (xs @ [n]) head"
  proof (cases xs rule: rev_cases)
    case Nil
    then show ?thesis using assms(3) by (auto simp: h'_def)
  next
    case (snoc ys y)
    then have d: "y \<notin> set (head # ys)" "head \<notin> set (y # ys)" "n \<notin> set (y # head # ys)"
      using assms(1,3) by (auto simp: dlist_def)
    have "dpath h head ys y" using assms(1) snoc by (simp add: dlist_def dpath_append)
    then have "dpath h' head ys y"
      using d by (subst dpath_cong [of _ _ _ h]) (auto simp: h'_def snoc)
    then show ?thesis using d by (auto simp: snoc dpath_append h'_def)
  qed
  moreover have "distinct (head # xs @ [n])" "0 \<notin> set (head # xs @ [n])" using assms by (auto simp: dlist_def)
  ultimately show ?thesis using eq l by (auto simp: dlist_def h'_def)
qed

lemma dlist_unlink:
  assumes "dlist h head (xs @ n # ys)"
  shows "\<exists>h'. list_del_entry n h = Some h' \<and> dlist h' head (xs @ ys) \<and> next_of h' n = next_of h n \<and>
    prev_of h' n = prev_of h n \<and>
    (\<forall>p. p \<notin> set (head # xs @ n # ys) \<longrightarrow> next_of h' p = next_of h p \<and> prev_of h' p = prev_of h p)"
proof -
  let ?p = "last (head # xs)" and ?q = "hd (ys @ [head])"
  have d: "distinct (head # xs @ n # ys)" "0 \<notin> set (head # xs @ n # ys)"
    and path: "dpath h head xs n" "dpath h n ys head"
    using assms by (auto simp: dlist_def dpath_append)
  have ends: "prev_of h n = ?p" "next_of h n = ?q" using path dpath_ends by blast+
  have pq: "?p \<in> set (head # xs)" "?q \<in> set (head # ys)"
    by (rule last_in_set, simp) (cases ys; simp)
  then have nz: "?p \<noteq> 0" "?q \<noteq> 0" "?p \<noteq> n" "?q \<noteq> n" using d by auto
  define h' where "h' = h\<lparr>next_of := (next_of h)(?p := ?q), prev_of := (prev_of h)(?q := ?p)\<rparr>"
  have eq: "list_del_entry n h = Some h'"
    using nz by (simp add: list_del_entry_def list_del_between_def link_defs ends h'_def)
  have "dpath h' head (xs @ ys) head"
  proof (cases ys)
    case Nil
    show ?thesis
    proof (cases xs rule: rev_cases)
      case (snoc zs z)
      then have "dpath h head zs z" using path(1) by (simp add: dpath_append)
      then have "dpath h' head zs z"
        using d snoc Nil by (subst dpath_cong [of _ _ _ h]) (auto simp: h'_def)
      then show ?thesis using d snoc Nil by (auto simp: dpath_append h'_def)
    qed (simp add: Nil h'_def)
  next
    case (Cons y zs)
    have "dpath h y zs head" using path(2) Cons by simp
    moreover have "?p \<notin> set (y # zs)" using pq(1) d Cons by auto
    ultimately have 2: "dpath h' y zs head"
      using d Cons by (subst dpath_cong [of _ _ _ h]) (auto simp: h'_def)
    show ?thesis
    proof (cases xs rule: rev_cases)
      case Nil
      then show ?thesis using 2 Cons by (simp add: h'_def)
    next
      case (snoc us z)
      then have "dpath h head us z" using path(1) by (simp add: dpath_append)
      then have "dpath h' head us z"
        using d snoc Cons by (subst dpath_cong [of _ _ _ h]) (auto simp: h'_def)
      then show ?thesis using 2 snoc Cons by (simp add: dpath_append) (simp add: h'_def)
    qed
  qed
  then show ?thesis using eq d pq nz by (auto simp: dlist_def h'_def)
qed

lemma dlist_del:
  assumes "dlist h head (xs @ n # ys)"
  shows "\<exists>h'. list_del n h = Some h' \<and> dlist h' head (xs @ ys) \<and> next_of h' n = 0 \<and> prev_of h' n = 0 \<and>
    (\<forall>p. p \<notin> set (head # xs @ n # ys) \<longrightarrow> next_of h' p = next_of h p \<and> prev_of h' p = prev_of h p)"
proof -
  obtain h1 where h1: "list_del_entry n h = Some h1" "dlist h1 head (xs @ ys)"
      "\<forall>p. p \<notin> set (head # xs @ n # ys) \<longrightarrow> next_of h1 p = next_of h p \<and> prev_of h1 p = prev_of h p"
    using dlist_unlink [OF assms] by blast
  let ?h = "h1\<lparr>next_of := (next_of h1)(n := 0), prev_of := (prev_of h1)(n := 0)\<rparr>"
  have n: "n \<noteq> 0" "n \<notin> set (head # xs @ ys)" using assms by (auto simp: dlist_def)
  have "list_del n h = Some ?h"
    using h1(1) n(1) by (simp add: list_del_def list_del_entry_def link_defs)
  moreover have "dpath ?h head (xs @ ys) head"
    using h1(2) n(2) by (subst dpath_cong [of _ _ _ h1]) (auto simp: dlist_def)
  ultimately show ?thesis using h1(2,3) by (auto simp: dlist_def)
qed

lemma dlist_del_init:
  assumes "dlist h head (xs @ n # ys)"
  shows "\<exists>h'. list_del_init n h = Some h' \<and> dlist h' head (xs @ ys) \<and> dlist h' n [] \<and>
    (\<forall>p. p \<notin> set (head # xs @ n # ys) \<longrightarrow> next_of h' p = next_of h p \<and> prev_of h' p = prev_of h p)"
proof -
  obtain h1 where h1: "list_del_entry n h = Some h1" "dlist h1 head (xs @ ys)"
      "\<forall>p. p \<notin> set (head # xs @ n # ys) \<longrightarrow> next_of h1 p = next_of h p \<and> prev_of h1 p = prev_of h p"
    using dlist_unlink [OF assms] by blast
  let ?h = "h1\<lparr>next_of := (next_of h1)(n := n), prev_of := (prev_of h1)(n := n)\<rparr>"
  have n: "n \<noteq> 0" "n \<notin> set (head # xs @ ys)" using assms by (auto simp: dlist_def)
  have "list_del_init n h = Some ?h" using h1(1) n(1) by (simp add: list_del_init_def INIT_LIST_HEAD_def link_defs)
  moreover have "dpath ?h head (xs @ ys) head"
    using h1(2) n(2) by (subst dpath_cong [of _ _ _ h1]) (auto simp: dlist_def)
  ultimately show ?thesis using h1(2,3) n(1) by (auto simp: dlist_def)
qed

lemma dpath_unique: "dpath h a xs c \<Longrightarrow> dpath h a ys c \<Longrightarrow> c \<notin> set xs \<Longrightarrow> c \<notin> set ys \<Longrightarrow> xs = ys"
proof (induction xs arbitrary: a ys)
  case Nil
  then show ?case by (cases ys) auto
next
  case (Cons x xs)
  then show ?case by (cases ys) auto
qed

interpretation dl: node_sequence dlist INIT_LIST_HEAD list_add_tail list_del list_empty "\<lambda>n. n \<noteq> 0"
proof unfold_locales
  fix h :: list_heap and l n :: addr and xs ys :: "addr list"
  show "l \<noteq> 0 \<Longrightarrow> \<exists>h'. INIT_LIST_HEAD l h = Some h' \<and> dlist h' l []" by (rule dlist_init)
  show "dlist h l xs \<Longrightarrow> n \<noteq> 0 \<Longrightarrow> n \<notin> set (l # xs) \<Longrightarrow>
      \<exists>h'. list_add_tail n l h = Some h' \<and> dlist h' l (xs @ [n])"
    using dlist_add_tail by blast
  show "dlist h l (xs @ n # ys) \<Longrightarrow> \<exists>h'. list_del n h = Some h' \<and> dlist h' l (xs @ ys)"
    using dlist_del by blast
  show "list_empty l h \<longleftrightarrow> xs = []" if "dlist h l xs"
    using that by (cases xs) (auto simp: dlist_def list_empty_def)
  show "dlist h l xs \<Longrightarrow> dlist h l ys \<Longrightarrow> xs = ys"
    using dpath_unique by (auto simp: dlist_def)
  show "dlist h l xs \<Longrightarrow> distinct (l # xs)" by (simp add: dlist_def)
qed

lemma for_each_path:
  "dpath h a xs head \<Longrightarrow> a = pos + m \<Longrightarrow> a \<noteq> head \<Longrightarrow> head \<notin> set xs \<Longrightarrow> 0 \<notin> set (head # xs) \<Longrightarrow>
   (\<And>x. x \<in> set (head # xs) \<Longrightarrow> m \<le> x) \<Longrightarrow>
     for_each_from h head m pos = Some (pos # map (\<lambda>n. list_entry n m) xs)"
proof (induction xs arbitrary: a pos)
  case Nil
  then have "next_of h (pos + m) = head" by simp
  then show ?case
    using Nil.prems
    by (subst for_each_from.simps, simp add: list_next_entry_def list_entry_def)
      (subst for_each_from.simps, simp)
next
  case (Cons x xs)
  have "for_each_from h head m (x - m) = Some ((x - m) # map (\<lambda>n. list_entry n m) xs)"
    by (rule Cons.IH [of x]) (use Cons.prems in auto)
  then show ?case
    using Cons.prems by (subst for_each_from.simps) (auto simp: list_next_entry_def list_entry_def)
qed

section \<open>Properties\<close>

text \<open>Property C25. \<open>list_add_tail\<close> puts a fresh node at the end of a sequence, empty or not; \<open>list_del\<close> takes any node out and
  keeps the order of the rest, after which a second \<open>list_del\<close> of it writes through a null link; \<open>list_del_init\<close> leaves
  it a list of its own. None of them writes a node outside the list.\<close>

theorem list_operations:
  assumes "dlist h head zs" "m \<noteq> 0" "m \<notin> set (head # zs)"
  shows "(\<exists>h'. list_add_tail m head h = Some h' \<and> dlist h' head (zs @ [m]) \<and>
      (\<forall>p. p \<notin> set (m # head # zs) \<longrightarrow> next_of h' p = next_of h p \<and> prev_of h' p = prev_of h p)) \<and>
    (\<forall>xs n ys. zs = xs @ n # ys \<longrightarrow>
      (\<exists>h'. list_del n h = Some h' \<and> dlist h' head (xs @ ys) \<and> list_del n h' = None \<and>
        (\<forall>p. p \<notin> set (head # zs) \<longrightarrow> next_of h' p = next_of h p \<and> prev_of h' p = prev_of h p)) \<and>
      (\<exists>h'. list_del_init n h = Some h' \<and> dlist h' head (xs @ ys) \<and> dlist h' n [] \<and>
        (\<forall>p. p \<notin> set (head # zs) \<longrightarrow> next_of h' p = next_of h p \<and> prev_of h' p = prev_of h p)))"
proof (intro conjI allI impI)
  show "\<exists>h'. list_add_tail m head h = Some h' \<and> dlist h' head (zs @ [m]) \<and>
      (\<forall>p. p \<notin> set (m # head # zs) \<longrightarrow> next_of h' p = next_of h p \<and> prev_of h' p = prev_of h p)"
    using dlist_add_tail [OF assms] .
next
  fix xs n ys
  assume zs: "zs = xs @ n # ys"
  then have d: "dlist h head (xs @ n # ys)" using assms(1) by simp
  obtain h' where h': "list_del n h = Some h'" "dlist h' head (xs @ ys)" "next_of h' n = 0"
    "\<forall>p. p \<notin> set (head # zs) \<longrightarrow> next_of h' p = next_of h p \<and> prev_of h' p = prev_of h p"
    using dlist_del [OF d] unfolding zs by blast
  then have "list_del n h' = None" by (simp add: list_del_def list_del_between_def link_defs)
  with h' show "\<exists>h'. list_del n h = Some h' \<and> dlist h' head (xs @ ys) \<and> list_del n h' = None \<and>
        (\<forall>p. p \<notin> set (head # zs) \<longrightarrow> next_of h' p = next_of h p \<and> prev_of h' p = prev_of h p)" by blast
  show "\<exists>h'. list_del_init n h = Some h' \<and> dlist h' head (xs @ ys) \<and> dlist h' n [] \<and>
        (\<forall>p. p \<notin> set (head # zs) \<longrightarrow> next_of h' p = next_of h p \<and> prev_of h' p = prev_of h p)"
    using dlist_del_init [OF d] unfolding zs .
qed

definition sample_list :: list_heap where
  "sample_list = the (list_add_tail 24 8 (the (INIT_LIST_HEAD 8 \<lparr>next_of = (\<lambda>_. 0), prev_of = (\<lambda>_. 0)\<rparr>)))"

lemma sample_dlist: "dlist sample_list 8 [24]"
  by (simp add: sample_list_def INIT_LIST_HEAD_def list_add_tail_def list_add_between_def link_defs dlist_def)

theorem list_operations_witness:
  "\<exists>h1 h2. list_add_tail 40 8 sample_list = Some h1 \<and> dlist h1 8 [24, 40] \<and>
     list_del 24 sample_list = Some h2 \<and> dlist h2 8 [] \<and> list_del 24 h2 = None"
proof -
  have l: "40 \<noteq> (0 :: addr)" "40 \<notin> set ([8, 24] :: addr list)" by simp_all
  note ops = list_operations [OF sample_dlist l]
  show ?thesis using conjunct1 [OF ops] spec [OF spec [OF spec [OF conjunct2 [OF ops], of "[]"], of 24], of "[]"] by auto
qed

lemma for_each_visits:
  assumes "dlist h head xs" "\<forall>x \<in> set (head # xs). member \<le> x"
  shows "list_for_each_entry head member h = Some (map (\<lambda>n. list_entry n member) xs) \<and>
    distinct (map (\<lambda>n. list_entry n member) xs)"
proof -
  have "list_for_each_entry head member h = Some (map (\<lambda>n. list_entry n member) xs)"
  proof (cases xs)
    case Nil
    then show ?thesis
      using assms
      by (simp add: list_for_each_entry_def list_first_entry_def list_entry_def dlist_def, subst for_each_from.simps) simp
  next
    case (Cons x ys)
    have "for_each_from h head member (x - member) = Some ((x - member) # map (\<lambda>n. list_entry n member) ys)"
      by (rule for_each_path [of h x]) (use assms Cons in \<open>auto simp: dlist_def\<close>)
    then show ?thesis
      using assms Cons by (simp add: list_for_each_entry_def list_first_entry_def list_entry_def dlist_def)
  qed
  moreover have "inj_on (\<lambda>n. list_entry n member) (set xs)"
    using assms(2) by (auto simp: inj_on_def list_entry_def) (metis le_add_diff_inverse2)
  ultimately show ?thesis using assms(1) by (simp add: dlist_def distinct_map)
qed

text \<open>Deleting each entry while iterating: the next entry is still linked when the loop gets to it.\<close>

lemma dlist_next:
  assumes "dlist h head (x # ys)" "\<forall>y \<in> set (head # ys). m \<le> y"
  shows "next_of h x = hd (ys @ [head])" "next_of h x \<noteq> 0" "m \<le> next_of h x"
  using assms by (cases ys; auto simp: dlist_def)+

lemma for_each_safe_end: "pos + m = head \<Longrightarrow> for_each_safe_from body head m pos n h = Some ([], h)"
  by (subst for_each_safe_from.simps) simp

lemma for_each_safe_del:
  "dlist h head (x # xs) \<Longrightarrow> x = pos + m \<Longrightarrow> hd (xs @ [head]) = n + m \<Longrightarrow> \<forall>y \<in> set (head # xs). m \<le> y \<Longrightarrow>
     \<exists>h'. for_each_safe_from (\<lambda>p. list_del (p + m)) head m pos n h = Some (pos # map (\<lambda>n. list_entry n m) xs, h') \<and>
       dlist h' head []"
proof (induction xs arbitrary: h x pos n)
  case Nil
  obtain h1 where h1: "list_del (pos + m) h = Some h1" "dlist h1 head []"
    using dlist_del [of h head "[]" x "[]"] Nil by auto
  have "pos + m \<noteq> head" "next_of h1 (n + m) \<noteq> 0" using Nil h1(2) by (auto simp: dlist_def)
  then show ?case
    using h1 Nil.prems(3)
    by (subst for_each_safe_from.simps) (auto simp: for_each_safe_end)
next
  case (Cons y ys)
  obtain h1 where h1: "list_del (pos + m) h = Some h1" "dlist h1 head (y # ys)"
    using dlist_del [of h head "[]" x "y # ys"] Cons.prems by auto
  have y: "y = n + m" using Cons.prems(3) by simp
  note nxt = dlist_next [OF h1(2), of m]
  have "hd (ys @ [head]) = list_next_entry n m h1 + m"
    using nxt Cons.prems(4) by (simp add: list_next_entry_def list_entry_def y)
  with Cons.IH [OF h1(2) y] Cons.prems(4) obtain h2 where h2:
    "for_each_safe_from (\<lambda>p. list_del (p + m)) head m n (list_next_entry n m h1) h1 =
       Some (n # map (\<lambda>n. list_entry n m) ys, h2)" "dlist h2 head []"
    by auto
  have "pos + m \<noteq> head" using Cons.prems(1,2) by (auto simp: dlist_def)
  then show ?case
    using h1(1) h2 nxt(2) Cons.prems(4) y
    by (subst for_each_safe_from.simps) (simp add: list_entry_def)
qed

text \<open>Property C26. Both iterations end and visit the containers of the nodes in the order of the list, each
  once: \<open>list_for_each_entry\<close> when the body leaves the links alone, and
  \<open>list_for_each_entry_safe\<close> also when the body deletes each entry it visits, which leaves an
  empty list.\<close>

theorem list_iteration:
  assumes "dlist h head xs" "\<forall>x \<in> set (head # xs). member \<le> x"
  shows "list_for_each_entry head member h = Some (map (\<lambda>n. list_entry n member) xs) \<and>
    distinct (map (\<lambda>n. list_entry n member) xs) \<and>
    (\<exists>h'. list_for_each_entry_safe (\<lambda>p. list_del (p + member)) head member h =
       Some (map (\<lambda>n. list_entry n member) xs, h') \<and> dlist h' head [])"
proof -
  have "\<exists>h'. list_for_each_entry_safe (\<lambda>p. list_del (p + member)) head member h =
       Some (map (\<lambda>n. list_entry n member) xs, h') \<and> dlist h' head []"
  proof (cases xs)
    case Nil
    then show ?thesis
      using assms by (simp add: list_for_each_entry_safe_def list_first_entry_def list_entry_def dlist_def Let_def
          for_each_safe_end)
  next
    case (Cons x ys)
    have nx: "next_of h head = x" "member \<le> x" using assms Cons by (auto simp: dlist_def)
    have "next_of h x = hd (ys @ [head])" "next_of h x \<noteq> 0" "member \<le> next_of h x"
      using dlist_next [of h head x ys member] assms Cons by simp_all
    then show ?thesis
      using for_each_safe_del [of h head x ys "x - member" member "next_of h x - member"] assms Cons nx
      by (simp add: list_for_each_entry_safe_def list_first_entry_def list_next_entry_def list_entry_def Let_def)
  qed
  then show ?thesis using for_each_visits [OF assms] by blast
qed

theorem list_iteration_witness:
  "list_for_each_entry 8 8 sample_list = Some [16] \<and>
   (\<exists>h'. list_for_each_entry_safe (\<lambda>p. list_del (p + 8)) 8 8 sample_list = Some ([16], h') \<and> dlist h' 8 [])"
  using list_iteration [OF sample_dlist, of 8] by (simp add: list_entry_def)

end
