(* ===== verification/Ioeventfd.thy ===== *)
theory Ioeventfd
  imports List_head
begin

text \<open>
  \<open>src/ioeventfd.c\<close> and \<open>src/ioeventfd.h\<close>: doorbell writes of the guest that KVM turns into
  eventfd signals. The state is the static variables of the file, the allocated \<open>ioevent\<close>
  records, and what the kernel holds for the process: the ioeventfds registered with KVM and the
  interest list of the epoll instance. The results of the system calls are arguments.
\<close>

section \<open>State\<close>

record ioevent =
  ev_datamatch :: u64
  ev_addr :: u64
  ev_len :: u32
  ev_fd :: int
  ev_flags :: u32
  ev_fn_ptr :: nat

text \<open>\<open>epoll_event.data\<close> is a union: \<open>data.fd\<close> is its low half.\<close>

type_synonym epoll_data = u64

definition data_fd :: "epoll_data \<Rightarrow> int" where
  "data_fd d = sint (ucast d :: u32)"

record ioeventfd_state =
  init_ioeventfd :: bool
  epoll_fd :: int
  epoll_stop_fd :: int
  ioevents :: "addr \<rightharpoonup> ioevent"
  links :: list_heap
  kvm_ioeventfds :: "ioevent list"
  epoll_set :: "(int \<times> epoll_data) list"
  stop_signals :: nat
  open_fds :: "int set"

text \<open>The address of the list head \<open>used_ioevents\<close> and the offset of the member \<open>list\<close> in
  \<open>struct ioevent\<close>.\<close>

definition used_ioevents :: addr where "used_ioevents = 0x1000"
definition IOEVENT_LIST :: nat where "IOEVENT_LIST = 72"

record add_env =
  e_ioctl :: int
  e_malloc :: addr
  e_epoll_ctl :: int

record init_env =
  e_check :: int
  e_epoll_create :: int
  e_eventfd :: int
  e_ctl :: int
  e_pthread :: int

section \<open>Operations\<close>

text \<open>\<open>Some (ret, s)\<close> is a return of \<open>ret\<close>; \<open>None\<close> is undefined behaviour, here the \<open>free\<close> of
  the uninitialised \<open>new_ioevent\<close>.\<close>

definition ioeventfd_add_event :: "add_env \<Rightarrow> ioevent \<Rightarrow> ioeventfd_state \<Rightarrow> (int \<times> ioeventfd_state) option" where
  "ioeventfd_add_event env ioevent s =
     (if \<not> init_ioeventfd s then Some (- 1, s)
      else if e_ioctl env \<noteq> 0 then None
      else let s1 = s\<lparr>kvm_ioeventfds := kvm_ioeventfds s @ [ioevent]\<rparr>; p = e_malloc env in
        if p = 0 then Some (- 1, s1)
        else let s2 = s1\<lparr>ioevents := (ioevents s1)(p \<mapsto> ioevent)\<rparr> in
          if e_epoll_ctl env \<noteq> 0
          then Some (e_epoll_ctl env, s2\<lparr>ioevents := (ioevents s2)(p := None)\<rparr>)
          else do { h \<leftarrow> list_add_tail (p + IOEVENT_LIST) used_ioevents (links s2);
                    Some (0, s2\<lparr>epoll_set := epoll_set s2 @ [(ev_fd ioevent, of_nat p)], links := h\<rparr>) })"

definition ioeventfd_init :: "init_env \<Rightarrow> ioeventfd_state \<Rightarrow> int \<times> ioeventfd_state" where
  "ioeventfd_init env s =
     (if e_check env \<le> 0 then (- 1, s)
      else let s1 = s\<lparr>epoll_fd := e_epoll_create env\<rparr> in
        if e_epoll_create env < 0 then (- 1, s1)
        else let stop = e_eventfd env;
                 s2 = s1\<lparr>epoll_stop_fd := stop, open_fds := open_fds s1 \<union> {e_epoll_create env, stop}\<rparr>;
                 err = (\<lambda>ret s. (ret, s\<lparr>open_fds := open_fds s - {stop, epoll_fd s}\<rparr>)) in
          if e_ctl env < 0 then err (e_ctl env) s2
          else let s3 = s2\<lparr>epoll_set := epoll_set s2 @ [(stop, ucast (word_of_int stop :: u32))]\<rparr> in
            if e_pthread env < 0 then err (e_pthread env) s3
            else (0, s3\<lparr>init_ioeventfd := True\<rparr>))"

text \<open>The body of the loop of \<open>ioeventfd_thread\<close> for the events one \<open>epoll_wait\<close> returned. The
  result says whether the thread ends. \<open>call\<close> is the callback \<open>ioevent->fn\<close>.\<close>

primrec ioeventfd_events ::
    "(nat \<Rightarrow> 's \<Rightarrow> 's option) \<Rightarrow> epoll_data list \<Rightarrow> ioeventfd_state \<Rightarrow> 's \<Rightarrow> (bool \<times> ioeventfd_state \<times> 's) option" where
  "ioeventfd_events call [] s w = Some (False, s, w)"
| "ioeventfd_events call (d # ds) s w =
     (if data_fd d = epoll_stop_fd s then Some (True, s\<lparr>stop_signals := Suc (stop_signals s)\<rparr>, w)
      else do { ev \<leftarrow> ioevents s (unat d);
                w' \<leftarrow> call (ev_fn_ptr ev) w;
                ioeventfd_events call ds s w' })"

text \<open>The loop of \<open>ioeventfd_thread\<close> over the results of its \<open>epoll_wait\<close> calls so far, an empty list for a
  failed call; it goes on waiting after the last one unless the stop event has ended the thread.\<close>

primrec ioeventfd_thread ::
    "(nat \<Rightarrow> 's \<Rightarrow> 's option) \<Rightarrow> epoll_data list list \<Rightarrow> ioeventfd_state \<Rightarrow> 's \<Rightarrow> (bool \<times> ioeventfd_state \<times> 's) option" where
  "ioeventfd_thread call [] s w = Some (False, s, w)"
| "ioeventfd_thread call (ds # dss) s w =
     do { (stop, s', w') \<leftarrow> ioeventfd_events call ds s w;
          if stop then Some (True, s', w') else ioeventfd_thread call dss s' w' }"

text \<open>\<open>ioeventfd_exit\<close> signals the thread through the eventfd and reads the signal back; the
  arguments are the results of \<open>write\<close> and \<open>read\<close>.\<close>

definition ioeventfd_exit :: "int \<Rightarrow> int \<Rightarrow> ioeventfd_state \<Rightarrow> int \<times> ioeventfd_state" where
  "ioeventfd_exit wr rd s =
     (if \<not> init_ioeventfd s then (0, s)
      else if wr < 0 then (wr, s)
      else let s1 = s\<lparr>stop_signals := Suc (stop_signals s)\<rparr> in
        if rd < 0 then (rd, s1)
        else (0, s1\<lparr>stop_signals := 0, open_fds := open_fds s1 - {epoll_fd s, epoll_stop_fd s}\<rparr>))"

section \<open>Invariant\<close>

text \<open>The used list links exactly the records whose addresses epoll holds, in the order they were
  added, and each record belongs to its file descriptor.\<close>

definition ioevents_ok :: "ioeventfd_state \<Rightarrow> addr list \<Rightarrow> bool" where
  "ioevents_ok s ps \<longleftrightarrow> dlist (links s) used_ioevents (map (\<lambda>p. p + IOEVENT_LIST) ps) \<and>
     (\<forall>p \<in> set ps. \<exists>ev. ioevents s p = Some ev \<and> (ev_fd ev, of_nat p) \<in> set (epoll_set s) \<and> p < 2 ^ 64)"

definition ioeventfd_0 :: ioeventfd_state where
  "ioeventfd_0 = \<lparr>init_ioeventfd = False, epoll_fd = 0, epoll_stop_fd = 0, ioevents = Map.empty,
     links = \<lparr>next_of = (\<lambda>p. if p = used_ioevents then p else 0), prev_of = (\<lambda>p. if p = used_ioevents then p else 0)\<rparr>,
     kvm_ioeventfds = [], epoll_set = [], stop_signals = 0, open_fds = {}\<rparr>"

lemma ioevents_ok_0: "ioevents_ok ioeventfd_0 []"
  by (simp add: ioevents_ok_def ioeventfd_0_def dlist_def used_ioevents_def)

lemma add_event_success:
  assumes "init_ioeventfd s" "ioevents_ok s ps" "e_ioctl env = 0" "e_epoll_ctl env = 0"
    and p: "0 < e_malloc env" "e_malloc env < 2 ^ 64" "ioevents s (e_malloc env) = None"
      "e_malloc env + IOEVENT_LIST \<noteq> used_ioevents"
  shows "\<exists>s'. ioeventfd_add_event env ev s = Some (0, s') \<and> ioevents_ok s' (ps @ [e_malloc env]) \<and>
    ioevents s' = (ioevents s)(e_malloc env \<mapsto> ev) \<and> kvm_ioeventfds s' = kvm_ioeventfds s @ [ev] \<and>
    epoll_set s' = epoll_set s @ [(ev_fd ev, of_nat (e_malloc env))] \<and> epoll_stop_fd s' = epoll_stop_fd s"
proof -
  let ?p = "e_malloc env" and ?ns = "map (\<lambda>p. p + IOEVENT_LIST) ps"
  have d: "dlist (links s) used_ioevents ?ns" using assms(2) by (simp add: ioevents_ok_def)
  have new: "?p \<notin> set ps" using assms(2) p(3) by (auto simp: ioevents_ok_def)
  then have "?p + IOEVENT_LIST \<notin> set (used_ioevents # ?ns)" using p(4) by auto
  from dl.seqs_add_tail [OF d _ this] obtain h where
    h: "list_add_tail (?p + IOEVENT_LIST) used_ioevents (links s) = Some h" "dlist h used_ioevents (?ns @ [?p + IOEVENT_LIST])"
    using p(1) by auto
  then show ?thesis
    using assms new by (auto simp: ioeventfd_add_event_def Let_def ioevents_ok_def)
qed

lemma ioeventfd_init_0:
  assumes "fst (ioeventfd_init env ioeventfd_0) = 0"
  defines "e \<equiv> snd (ioeventfd_init env ioeventfd_0)"
  shows "init_ioeventfd e" "ioevents_ok e []" "ioevents e = Map.empty" "kvm_ioeventfds e = []" "epoll_stop_fd e = e_eventfd env"
proof -
  have "e = ioeventfd_0\<lparr>epoll_fd := e_epoll_create env, epoll_stop_fd := e_eventfd env, open_fds := {e_epoll_create env, e_eventfd env},
      epoll_set := [(e_eventfd env, ucast (word_of_int (e_eventfd env) :: u32))], init_ioeventfd := True\<rparr>"
    using assms(1) by (auto simp: e_def ioeventfd_init_def Let_def ioeventfd_0_def split: if_splits)
  then show "init_ioeventfd e" "ioevents_ok e []" "ioevents e = Map.empty" "kvm_ioeventfds e = []" "epoll_stop_fd e = e_eventfd env"
    using ioevents_ok_0 by (simp_all add: ioevents_ok_def) (simp_all add: ioeventfd_0_def)
qed

section \<open>Properties\<close>

text \<open>Property C27. \<open>ioeventfd_add_event\<close> on every path: before initialisation it refuses; a failed
  ioctl makes it free an uninitialised pointer; a failed allocation or \<open>epoll_ctl\<close> returns the
  error with the event still registered in KVM; otherwise KVM, epoll and the used list all hold
  the event, under the address the thread will get back.\<close>

theorem ioeventfd_add_event_outcome:
  assumes "ioevents_ok s ps" "e_malloc env < 2 ^ 64" "ioevents s (e_malloc env) = None"
    and "e_malloc env + IOEVENT_LIST \<noteq> used_ioevents"
  shows "(\<not> init_ioeventfd s \<longrightarrow> ioeventfd_add_event env ev s = Some (- 1, s)) \<and>
    (init_ioeventfd s \<and> e_ioctl env \<noteq> 0 \<longrightarrow> ioeventfd_add_event env ev s = None) \<and>
    (init_ioeventfd s \<and> e_ioctl env = 0 \<and> (e_malloc env = 0 \<or> e_epoll_ctl env \<noteq> 0) \<longrightarrow>
      (\<exists>s'. ioeventfd_add_event env ev s = Some (if e_malloc env = 0 then - 1 else e_epoll_ctl env, s') \<and>
        ioevents_ok s' ps \<and> ioevents s' = ioevents s \<and> epoll_set s' = epoll_set s \<and>
        kvm_ioeventfds s' = kvm_ioeventfds s @ [ev])) \<and>
    (init_ioeventfd s \<and> e_ioctl env = 0 \<and> e_malloc env \<noteq> 0 \<and> e_epoll_ctl env = 0 \<longrightarrow>
      (\<exists>s'. ioeventfd_add_event env ev s = Some (0, s') \<and> ioevents_ok s' (ps @ [e_malloc env]) \<and>
        ioevents s' = (ioevents s)(e_malloc env \<mapsto> ev) \<and> kvm_ioeventfds s' = kvm_ioeventfds s @ [ev] \<and>
        epoll_set s' = epoll_set s @ [(ev_fd ev, of_nat (e_malloc env))]))"
proof (intro conjI impI)
  assume "init_ioeventfd s \<and> e_ioctl env = 0 \<and> (e_malloc env = 0 \<or> e_epoll_ctl env \<noteq> 0)"
  moreover have "(ioevents s)(e_malloc env := None) = ioevents s" using assms(3) by auto
  ultimately show "\<exists>s'. ioeventfd_add_event env ev s = Some (if e_malloc env = 0 then - 1 else e_epoll_ctl env, s') \<and>
        ioevents_ok s' ps \<and> ioevents s' = ioevents s \<and> epoll_set s' = epoll_set s \<and>
        kvm_ioeventfds s' = kvm_ioeventfds s @ [ev]"
    using assms(1) by (auto simp: ioeventfd_add_event_def Let_def ioevents_ok_def)
next
  assume "init_ioeventfd s \<and> e_ioctl env = 0 \<and> e_malloc env \<noteq> 0 \<and> e_epoll_ctl env = 0"
  then show "\<exists>s'. ioeventfd_add_event env ev s = Some (0, s') \<and> ioevents_ok s' (ps @ [e_malloc env]) \<and>
        ioevents s' = (ioevents s)(e_malloc env \<mapsto> ev) \<and> kvm_ioeventfds s' = kvm_ioeventfds s @ [ev] \<and>
        epoll_set s' = epoll_set s @ [(ev_fd ev, of_nat (e_malloc env))]"
    using add_event_success [OF _ assms(1), of env ev] assms(2-) by auto
qed (auto simp: ioeventfd_add_event_def)

definition sample_event :: ioevent where
  "sample_event = \<lparr>ev_datamatch = 0, ev_addr = 0xFE00003C, ev_len = 2, ev_fd = 9, ev_flags = 1, ev_fn_ptr = 0\<rparr>"

theorem ioeventfd_add_event_outcome_witness:
  "ioeventfd_add_event \<lparr>e_ioctl = - 1, e_malloc = 0x2000, e_epoll_ctl = 0\<rparr> sample_event
       (ioeventfd_0\<lparr>init_ioeventfd := True\<rparr>) = None \<and>
   ioeventfd_add_event \<lparr>e_ioctl = - 1, e_malloc = 0x2000, e_epoll_ctl = 0\<rparr> sample_event ioeventfd_0 = Some (- 1, ioeventfd_0)"
proof -
  have ok: "ioevents_ok (ioeventfd_0\<lparr>init_ioeventfd := True\<rparr>) []"
    using ioevents_ok_0 by (simp add: ioevents_ok_def)
  show ?thesis
    using ioeventfd_add_event_outcome [OF ok, of "\<lparr>e_ioctl = - 1, e_malloc = 0x2000, e_epoll_ctl = 0\<rparr>" sample_event]
      ioeventfd_add_event_outcome [OF ioevents_ok_0, of "\<lparr>e_ioctl = - 1, e_malloc = 0x2000, e_epoll_ctl = 0\<rparr>" sample_event]
    by (simp add: ioeventfd_0_def IOEVENT_LIST_def used_ioevents_def)
qed

lemma ioeventfd_events_append:
  "ioeventfd_events call (xs @ ys) s w =
     do { (stop, s', w') \<leftarrow> ioeventfd_events call xs s w; if stop then Some (True, s', w') else ioeventfd_events call ys s' w' }"
  by (induction xs arbitrary: w) (auto split: Option.bind_splits)

text \<open>How \<open>epoll_wait\<close> groups the events makes no difference.\<close>

lemma ioeventfd_thread_concat: "ioeventfd_thread call dss s w = ioeventfd_events call (concat dss) s w"
  by (induction dss arbitrary: s w) (auto simp: ioeventfd_events_append intro!: Option.bind_cong)

lemma ioeventfd_events_fold:
  assumes "ioevents_ok s ps" "set qs \<subseteq> set ps" "\<forall>q \<in> set qs. data_fd (of_nat q) \<noteq> epoll_stop_fd s"
  shows "ioeventfd_events call (map of_nat qs) s w =
    map_option (\<lambda>w'. (False, s, w')) (fold (\<lambda>q r. Option.bind r (call (ev_fn_ptr (the (ioevents s q))))) qs (Some w))"
proof -
  have none: "fold (\<lambda>q r. Option.bind r (f q)) xs None = None" for f :: "addr \<Rightarrow> 'a \<Rightarrow> 'a option" and xs
    by (induction xs) auto
  show ?thesis
    using assms(2,3)
  proof (induction qs arbitrary: w)
    case (Cons q qs)
    then obtain ev where "ioevents s q = Some ev" "q < 2 ^ 64"
      using assms(1) by (auto simp: ioevents_ok_def)
    moreover have "unat (of_nat q :: u64) = q" using calculation(2) by (simp add: unsigned_of_nat take_bit_nat_eq_self)
    ultimately show ?case using Cons by (cases "call (ev_fn_ptr ev) w") (auto simp: none)
  qed simp
qed

text \<open>Property C28. The event thread: however \<open>epoll_wait\<close> groups the events it reports, and as long as none of
  their addresses has the stop descriptor as its low half, the callbacks of the registered events run in the
  order reported and the thread goes on; an event whose address has it ends the thread, so a
  registered event can be taken for the stop signal.\<close>

theorem ioeventfd_dispatch:
  assumes "ioevents_ok s ps" "set (concat qss) \<subseteq> set ps"
  shows "((\<forall>q \<in> set (concat qss). data_fd (of_nat q) \<noteq> epoll_stop_fd s) \<longrightarrow>
      ioeventfd_thread call (map (map of_nat) qss) s w =
        map_option (\<lambda>w'. (False, s, w'))
          (fold (\<lambda>q r. Option.bind r (call (ev_fn_ptr (the (ioevents s q))))) (concat qss) (Some w))) \<and>
    (\<forall>q rest. q \<in> set ps \<and> data_fd (of_nat q) = epoll_stop_fd s \<longrightarrow>
      ioeventfd_thread call ((of_nat q # rest) # dss) s w = Some (True, s\<lparr>stop_signals := Suc (stop_signals s)\<rparr>, w))"
  using ioeventfd_events_fold [OF assms]
  by (auto simp: ioeventfd_thread_concat map_concat [symmetric])

theorem ioeventfd_dispatch_witness:
  "let s = ioeventfd_0\<lparr>init_ioeventfd := True, epoll_stop_fd := 7\<rparr> in
   \<exists>s'. ioeventfd_add_event \<lparr>e_ioctl = 0, e_malloc = 0x2000, e_epoll_ctl = 0\<rparr> sample_event s = Some (0, s') \<and>
     ioeventfd_thread (\<lambda>q w. Some (w @ [q])) [[], [0x2000]] s' [] = Some (False, s', [0])"
proof -
  let ?s = "ioeventfd_0\<lparr>init_ioeventfd := True, epoll_stop_fd := 7\<rparr>"
  have ok: "ioevents_ok ?s []" using ioevents_ok_0 by (simp add: ioevents_ok_def)
  obtain s' where s': "ioeventfd_add_event \<lparr>e_ioctl = 0, e_malloc = 0x2000, e_epoll_ctl = 0\<rparr> sample_event ?s = Some (0, s')"
    "ioevents_ok s' [0x2000]" "ioevents s' = (ioevents ?s)(0x2000 \<mapsto> sample_event)"
    using add_event_success [OF _ ok, of "\<lparr>e_ioctl = 0, e_malloc = 0x2000, e_epoll_ctl = 0\<rparr>" sample_event]
    by (auto simp: ioeventfd_0_def IOEVENT_LIST_def used_ioevents_def)
  have "epoll_stop_fd s' = 7"
    using s'(1) by (auto simp: ioeventfd_add_event_def ioeventfd_0_def Let_def split: Option.bind_splits)
  then have "ioeventfd_thread (\<lambda>q w. Some (w @ [q])) [[], [0x2000]] s' [] = Some (False, s', [0])"
    using conjunct1 [OF ioeventfd_dispatch [OF s'(2), of "[[], [0x2000]]" "\<lambda>q w. Some (w @ [q])" "[]"]] s'(3)
    by (simp add: data_fd_def sample_event_def)
  with s'(1) show ?thesis unfolding Let_def by blast
qed

end
