(* ===== verification/Virtio_pci.thy ===== *)
theory Virtio_pci
  imports Pci Virtqueue Ioeventfd
begin

text \<open>
  \<open>src/virtio-pci.c\<close> and \<open>src/virtio-pci.h\<close>: the modern virtio transport over PCI. The
  registers behind BAR 0 are \<open>struct virtio_pci_config\<close>, 72 bytes that the guest reads and
  writes raw, the last 8 of them the pointer to the device-specific configuration. The state
  extends the PCI state with guest memory, the event file descriptors, the transport and its
  queues; a device adds its own fields through the record extension.
\<close>

section \<open>State\<close>

record virtio_pci_dev =
  vp_dev :: nat
  config :: bytes
  device_feature :: u64
  guest_feature :: u64
  notify_cap :: nat
  dev_cfg_cap :: nat
  vq :: "virtq list"

record virtio_state =
  pci :: pci_state
  ram :: memory
  ioev :: ioeventfd_state
  vdev :: virtio_pci_dev
  dev_cfg_addr :: u64
  dev_cfg_obj :: bytes

text \<open>The results of \<open>eventfd\<close> and of the calls in \<open>ioeventfd_add_event\<close>.\<close>

record event_env =
  ev_eventfd :: int
  ev_add :: add_env

definition VIRTIO_PCI_VENDOR_ID :: u16 where "VIRTIO_PCI_VENDOR_ID = 0x1AF4"
definition VIRTIO_PCI_CAP_NUM :: nat where "VIRTIO_PCI_CAP_NUM = 5"
definition KVM_IOEVENTFD_FLAG_DATAMATCH :: u32 where "KVM_IOEVENTFD_FLAG_DATAMATCH = 1"

text \<open>Offsets in \<open>struct virtio_pci_config\<close>.\<close>

definition ISR_CFG :: nat where "ISR_CFG = 56"
definition NOTIFY_CFG :: nat where "NOTIFY_CFG = 60"
definition DEV_CFG :: nat where "DEV_CFG = 64"
definition VIRTIO_PCI_CONFIG_SIZE :: nat where "VIRTIO_PCI_CONFIG_SIZE = 72"

lemmas virtio_consts [const_simps] = VIRTIO_PCI_VENDOR_ID_def VIRTIO_PCI_CAP_NUM_def KVM_IOEVENTFD_FLAG_DATAMATCH_def
  ISR_CFG_def NOTIFY_CFG_def DEV_CFG_def VIRTIO_PCI_CONFIG_SIZE_def VIRTQ_INFO_SIZE_def

definition cfg_dfselect :: "virtio_pci_dev \<Rightarrow> u32" where "cfg_dfselect d = field (config d) 0 4"
definition cfg_gfselect :: "virtio_pci_dev \<Rightarrow> u32" where "cfg_gfselect d = field (config d) 8 4"
definition cfg_guest_feature :: "virtio_pci_dev \<Rightarrow> u32" where "cfg_guest_feature d = field (config d) 12 4"
definition cfg_num_queues :: "virtio_pci_dev \<Rightarrow> u16" where "cfg_num_queues d = field (config d) 18 2"
definition cfg_queue_select :: "virtio_pci_dev \<Rightarrow> u16" where "cfg_queue_select d = field (config d) 22 2"
definition cfg_queue_enable :: "virtio_pci_dev \<Rightarrow> u16" where "cfg_queue_enable d = field (config d) 28 2"
definition cfg_vqn :: "virtio_pci_dev \<Rightarrow> u16" where "cfg_vqn d = field (config d) 60 2"
definition cfg_dev_cfg :: "virtio_pci_dev \<Rightarrow> u64" where "cfg_dev_cfg d = field (config d) 64 8"

definition config_put :: "nat \<Rightarrow> bytes \<Rightarrow> virtio_pci_dev \<Rightarrow> virtio_pci_dev option" where
  "config_put off bs d = do { c \<leftarrow> obj_write (config d) off bs; Some (d\<lparr>config := c\<rparr>) }"

definition on_dev :: "(virtio_pci_dev \<Rightarrow> virtio_pci_dev option) \<Rightarrow> 'm virtio_state_scheme \<Rightarrow> 'm virtio_state_scheme option" where
  "on_dev f s = do { d \<leftarrow> f (vdev s); Some (s\<lparr>vdev := d\<rparr>) }"

definition get_vq :: "virtio_pci_dev \<Rightarrow> nat \<Rightarrow> virtq option" where
  "get_vq d i = (if i < length (vq d) then Some (vq d ! i) else None)"

section \<open>Notifications\<close>

definition virtio_pci_init_ioeventfd ::
    "('m virtio_state_scheme \<Rightarrow> event_env) \<Rightarrow> u16 \<Rightarrow> 'm virtio_state_scheme \<Rightarrow> 'm virtio_state_scheme option" where
  "virtio_pci_init_ioeventfd env vqn s =
     (let dev = pci_devs (pci s) (vp_dev (vdev s)); cap = notify_cap (vdev s) in
      do { bar \<leftarrow> PCI_HDR_READ dev (cap + 4) 8;
           base \<leftarrow> PCI_HDR_READ dev (PCI_BAR_OFFSET (unat (bar :: u8))) 32;
           cap_offset \<leftarrow> PCI_HDR_READ dev (cap + 8) 32;
           multiplier \<leftarrow> PCI_HDR_READ dev (cap + 16) 32;
           q \<leftarrow> get_vq (vdev s) (unat vqn);
           let offset = (cap_offset + multiplier * ucast (info_notify_off q) :: u32);
               ioevent = \<lparr>ev_datamatch = ucast vqn, ev_addr = ucast (base :: u32) + ucast offset, ev_len = 2,
                          ev_fd = ev_eventfd (env s), ev_flags = KVM_IOEVENTFD_FLAG_DATAMATCH, ev_fn_ptr = unat vqn\<rparr>
           in do { (ret, e) \<leftarrow> ioeventfd_add_event (ev_add (env s)) ioevent (ioev s);
                   Some (s\<lparr>ioev := e\<rparr>) } })"

text \<open>\<open>handle i\<close> is the \<open>handle_output\<close> of queue \<open>i\<close>.\<close>

definition virtio_pci_ioevent_callback ::
    "(nat \<Rightarrow> 'm virtio_state_scheme \<Rightarrow> 'm virtio_state_scheme option) \<Rightarrow> nat \<Rightarrow> 'm virtio_state_scheme \<Rightarrow> 'm virtio_state_scheme option" where
  "virtio_pci_ioevent_callback handle i s =
     do { q \<leftarrow> get_vq (vdev s) i; virtq_notify (handle i) q s }"

section \<open>Commands\<close>

definition virtio_pci_cmd_select_device_feature :: "virtio_pci_dev \<Rightarrow> virtio_pci_dev option" where
  "virtio_pci_cmd_select_device_feature d =
     (let feature = device_feature d;
          v = (if cfg_dfselect d = 0 then ucast feature
               else if cfg_dfselect d = 1 then ucast (drop_bit 32 feature) else 0 :: u32)
      in config_put 4 (le_bytes 4 v) d)"

definition virtio_pci_cmd_write_guest_feature :: "virtio_pci_dev \<Rightarrow> virtio_pci_dev option" where
  "virtio_pci_cmd_write_guest_feature d =
     (let feature = cfg_guest_feature d in
      if cfg_gfselect d = 0 then Some (d\<lparr>guest_feature := guest_feature d OR ucast feature\<rparr>)
      else if cfg_gfselect d = 1 then Some (d\<lparr>guest_feature := guest_feature d OR push_bit 32 (ucast feature)\<rparr>)
      else Some d)"

definition virtio_pci_cmd_select_virtq :: "virtio_pci_dev \<Rightarrow> virtio_pci_dev option" where
  "virtio_pci_cmd_select_virtq d =
     (if cfg_queue_select d < cfg_num_queues d
      then do { q \<leftarrow> get_vq d (unat (cfg_queue_select d));
                inf \<leftarrow> obj_read (info q) 0 VIRTQ_INFO_SIZE;
                config_put VIRTIO_PCI_COMMON_Q_SIZE inf d }
      else config_put VIRTIO_PCI_COMMON_Q_SIZE (le_bytes 2 (0 :: u16)) d)"

definition virtio_pci_cmd_enable_virtq ::
    "('m virtio_state_scheme \<Rightarrow> event_env) \<Rightarrow> 'm virtio_state_scheme \<Rightarrow> 'm virtio_state_scheme option" where
  "virtio_pci_cmd_enable_virtq env s =
     (let select = cfg_queue_select (vdev s); i = unat select in
      do { q \<leftarrow> get_vq (vdev s) i;
           q' \<leftarrow> virtq_enable (ram s) q;
           virtio_pci_init_ioeventfd env select (s\<lparr>vdev := (vdev s)\<lparr>vq := (vq (vdev s))[i := q']\<rparr>\<rparr>) })"

section \<open>The register window\<close>

text \<open>An access through the pointer \<open>dev_cfg\<close>: it is defined while it stays in the object the
  device registered.\<close>

definition dev_cfg_index :: "'m virtio_state_scheme \<Rightarrow> u64 \<Rightarrow> nat" where
  "dev_cfg_index s offset = unat (cfg_dev_cfg (vdev s) + (offset - of_nat DEV_CFG) - dev_cfg_addr s)"

definition queue_write :: "u64 \<Rightarrow> bytes \<Rightarrow> virtio_pci_dev \<Rightarrow> virtio_pci_dev option" where
  "queue_write offset bs d =
     (let i = unat (cfg_queue_select d); info_offset = unat offset - VIRTIO_PCI_COMMON_Q_SIZE in
      if cfg_queue_select d < cfg_num_queues d
      then do { q \<leftarrow> get_vq d i; inf \<leftarrow> obj_write (info q) info_offset bs;
                Some (d\<lparr>vq := (vq d)[i := q\<lparr>info := inf\<rparr>]\<rparr>) }
      else Some d)"

definition virtio_pci_iospace_write ::
    "('m virtio_state_scheme \<Rightarrow> event_env) \<Rightarrow> (nat \<Rightarrow> 'm virtio_state_scheme \<Rightarrow> 'm virtio_state_scheme option) \<Rightarrow>
     bytes \<Rightarrow> u64 \<Rightarrow> u8 \<Rightarrow> 'm virtio_state_scheme \<Rightarrow> 'm virtio_state_scheme option" where
  "virtio_pci_iospace_write env handle data offset sz s =
     do { bs \<leftarrow> buf_take data sz;
          let off = unat offset in
          if off < DEV_CFG
          then do { s1 \<leftarrow> on_dev (config_put off bs) s;
                    if off = VIRTIO_PCI_COMMON_DFSELECT then on_dev virtio_pci_cmd_select_device_feature s1
                    else if off = VIRTIO_PCI_COMMON_GFSELECT then on_dev virtio_pci_cmd_write_guest_feature s1
                    else if off = VIRTIO_PCI_COMMON_Q_SELECT then on_dev virtio_pci_cmd_select_virtq s1
                    else if off = VIRTIO_PCI_COMMON_Q_ENABLE
                    then if cfg_queue_enable (vdev s1) \<noteq> 0 then virtio_pci_cmd_enable_virtq env s1 else Some s1
                    else if off \<ge> VIRTIO_PCI_COMMON_Q_SIZE \<and> off \<le> VIRTIO_PCI_COMMON_Q_USEDHI
                    then on_dev (queue_write offset bs) s1
                    else if off = NOTIFY_CFG then virtio_pci_ioevent_callback handle (unat (cfg_vqn (vdev s1))) s1
                    else Some s1 }
          else do { obj \<leftarrow> obj_write (dev_cfg_obj s) (dev_cfg_index s offset) bs;
                    Some (s\<lparr>dev_cfg_obj := obj\<rparr>) } }"

definition virtio_pci_iospace_read ::
    "bytes \<Rightarrow> u64 \<Rightarrow> u8 \<Rightarrow> 'm virtio_state_scheme \<Rightarrow> (bytes \<times> 'm virtio_state_scheme) option" where
  "virtio_pci_iospace_read data offset sz s =
     (let off = unat offset in
      if off < DEV_CFG
      then do { bs \<leftarrow> obj_read (config (vdev s)) off (unat sz);
                data' \<leftarrow> buf_put data bs;
                s' \<leftarrow> (if off = ISR_CFG then on_dev (config_put ISR_CFG (le_bytes 4 (0 :: u32))) s else Some s);
                Some (data', s') }
      else do { bs \<leftarrow> obj_read (dev_cfg_obj s) (dev_cfg_index s offset) (unat sz);
                data' \<leftarrow> buf_put data bs;
                Some (data', s) })"

definition virtio_pci_iospace_handle_io ::
    "('m virtio_state_scheme \<Rightarrow> event_env) \<Rightarrow> (nat \<Rightarrow> 'm virtio_state_scheme \<Rightarrow> 'm virtio_state_scheme option) \<Rightarrow>
     'm virtio_state_scheme handler" where
  "virtio_pci_iospace_handle_io env handle offset sz data is_write own s =
     (if own = PciDev (vp_dev (vdev s))
      then if is_write then do { s' \<leftarrow> virtio_pci_iospace_write env handle data offset sz s; Some (data, s') }
           else virtio_pci_iospace_read data offset sz s
      else None)"

section \<open>Initialisation\<close>

text \<open>The loop of \<open>virtio_pci_set_cap\<close> over the capability types; it collects where each one is.
  \<open>struct virtio_pci_cap\<close> has 16 bytes: id, next, length, type, BAR, 3 bytes of padding, offset
  and length of the structure.\<close>

fun set_caps :: "nat list \<Rightarrow> u8 \<Rightarrow> pci_dev \<Rightarrow> (nat list \<times> pci_dev) option" where
  "set_caps [] next dev = Some ([], dev)"
| "set_caps (i # is) next dev =
     (let at = unat next;
          cap_len = (if i = VIRTIO_PCI_CAP_NOTIFY_CFG \<or> i = VIRTIO_PCI_CAP_PCI_CFG then 16 + 4 else 16 :: u8);
          next' = next + cap_len
      in do { c \<leftarrow> obj_write (cfg_space dev) at ([PCI_CAP_ID_VNDR, 0, cap_len, of_nat i, 0] @ replicate 11 0);
              c' \<leftarrow> obj_write c (at + 1) [next'];
              (ats, dev') \<leftarrow> set_caps is next' (dev\<lparr>cfg_space := c'\<rparr>);
              Some (at # ats, dev') })"

definition cap_offset_length :: "nat \<Rightarrow> u32 \<Rightarrow> u32 \<Rightarrow> pci_dev \<Rightarrow> pci_dev option" where
  "cap_offset_length at off len dev =
     do { d1 \<leftarrow> PCI_HDR_WRITE (at + 8) off 32 dev; PCI_HDR_WRITE (at + 12) len 32 d1 }"

text \<open>The result is the header with the positions of \<open>notify_cap\<close> and \<open>dev_cfg_cap\<close>.\<close>

definition virtio_pci_set_cap :: "u8 \<Rightarrow> pci_dev \<Rightarrow> (nat \<times> nat \<times> pci_dev) option" where
  "virtio_pci_set_cap next dev =
     do { (caps, d0) \<leftarrow> set_caps [1..<VIRTIO_PCI_CAP_NUM + 1] next dev;
          d1 \<leftarrow> cap_offset_length (caps ! (VIRTIO_PCI_CAP_COMMON_CFG - 1)) 0 (of_nat COMMON_CFG_SIZE) d0;
          d2 \<leftarrow> cap_offset_length (caps ! (VIRTIO_PCI_CAP_NOTIFY_CFG - 1)) (of_nat NOTIFY_CFG) 4 d1;
          d3 \<leftarrow> cap_offset_length (caps ! (VIRTIO_PCI_CAP_ISR_CFG - 1)) (of_nat ISR_CFG) 4 d2;
          d4 \<leftarrow> cap_offset_length (caps ! (VIRTIO_PCI_CAP_DEVICE_CFG - 1)) (of_nat DEV_CFG) 0 d3;
          Some (caps ! (VIRTIO_PCI_CAP_NOTIFY_CFG - 1), caps ! (VIRTIO_PCI_CAP_DEVICE_CFG - 1), d4) }"

definition virtio_pci_set_dev_cfg :: "u64 \<Rightarrow> u8 \<Rightarrow> 'm virtio_state_scheme \<Rightarrow> 'm virtio_state_scheme option" where
  "virtio_pci_set_dev_cfg dev_cfg len s =
     do { s1 \<leftarrow> on_dev (config_put DEV_CFG (le_bytes 8 dev_cfg)) s;
          let d = vp_dev (vdev s) in
          do { dev \<leftarrow> PCI_HDR_WRITE (dev_cfg_cap (vdev s) + 12) (ucast len :: u32) 32 (pci_devs (pci s1) d);
               Some (s1\<lparr>pci := upd_dev d (\<lambda>_. dev) (pci s1)\<rparr>) } }"

definition virtio_pci_set_virtq_cfg :: "virtq list \<Rightarrow> u16 \<Rightarrow> 'm virtio_state_scheme \<Rightarrow> 'm virtio_state_scheme option" where
  "virtio_pci_set_virtq_cfg qs num_queues s =
     do { s1 \<leftarrow> on_dev (config_put VIRTIO_PCI_COMMON_NUMQ (le_bytes 2 num_queues)) s;
          Some (s1\<lparr>vdev := (vdev s1)\<lparr>vq := qs\<rparr>\<rparr>) }"

definition virtio_pci_ids :: "u16 \<Rightarrow> u32 \<Rightarrow> u8 \<Rightarrow> u8 \<Rightarrow> pci_dev \<Rightarrow> pci_dev option" where
  "virtio_pci_ids device_id cls irq_line cap_list dev =
     do { d1 \<leftarrow> PCI_HDR_WRITE PCI_VENDOR_ID VIRTIO_PCI_VENDOR_ID 16 dev;
          d2 \<leftarrow> PCI_HDR_WRITE PCI_CAPABILITY_LIST cap_list 8 d1;
          d3 \<leftarrow> PCI_HDR_WRITE PCI_HEADER_TYPE PCI_HEADER_TYPE_NORMAL 8 d2;
          d4 \<leftarrow> PCI_HDR_WRITE PCI_INTERRUPT_PIN (1 :: u8) 8 d3;
          d5 \<leftarrow> PCI_HDR_WRITE PCI_STATUS (PCI_STATUS_CAP_LIST OR PCI_STATUS_INTERRUPT) 16 d4;
          d6 \<leftarrow> PCI_HDR_WRITE PCI_DEVICE_ID device_id 16 d5;
          d7 \<leftarrow> PCI_HDR_WRITE PCI_CLASS_REVISION (push_bit 8 cls) 32 d6;
          PCI_HDR_WRITE PCI_INTERRUPT_LINE irq_line 8 d7 }"

definition zero_virtio_dev :: "nat \<Rightarrow> virtio_pci_dev" where
  "zero_virtio_dev d = \<lparr>vp_dev = d, config = replicate VIRTIO_PCI_CONFIG_SIZE 0, device_feature = 0, guest_feature = 0,
     notify_cap = 0, dev_cfg_cap = 0, vq = []\<rparr>"

definition virtio_pci_init :: "nat \<Rightarrow> u16 \<Rightarrow> u32 \<Rightarrow> u8 \<Rightarrow> 'm virtio_state_scheme \<Rightarrow> 'm virtio_state_scheme option" where
  "virtio_pci_init d device_id cls irq_line s =
     (let cap_list = 0x40; p1 = pci_dev_init d (pci s) in
      do { dev1 \<leftarrow> virtio_pci_ids device_id cls irq_line cap_list (pci_devs p1 d);
           p2 \<leftarrow> pci_init_bar d 0 0x100 False Virtio_pci_iospace_handle_io (upd_dev d (\<lambda>_. dev1) p1);
           (notify, devcfg, dev2) \<leftarrow> virtio_pci_set_cap cap_list (pci_devs p2 d);
           let v = (zero_virtio_dev d)\<lparr>notify_cap := notify, dev_cfg_cap := devcfg,
                     device_feature := 2 ^ VIRTIO_F_RING_PACKED OR 2 ^ VIRTIO_F_VERSION_1\<rparr>
           in Some (s\<lparr>pci := upd_dev d (\<lambda>_. dev2) p2, vdev := v\<rparr>) })"

section \<open>Fields of the register window\<close>

definition vdev_wf :: "virtio_pci_dev \<Rightarrow> bool" where
  "vdev_wf d \<longleftrightarrow> length (config d) = VIRTIO_PCI_CONFIG_SIZE \<and> (\<forall>q \<in> set (vq d). length (info q) = VIRTQ_INFO_SIZE)"

lemma config_put_ok:
  assumes "vdev_wf d" "off + length bs \<le> VIRTIO_PCI_CONFIG_SIZE"
  shows "\<exists>c. config_put off bs d = Some (d\<lparr>config := c\<rparr>) \<and> vdev_wf (d\<lparr>config := c\<rparr>) \<and>
    take (length bs) (drop off c) = bs \<and>
    (\<forall>b k. b + k \<le> VIRTIO_PCI_CONFIG_SIZE \<longrightarrow> apart (off, length bs) (b, k) \<longrightarrow>
       take k (drop b c) = take k (drop b (config d)))"
proof -
  have ok: "obj_ok (config d) off (length bs)" using assms by (simp add: obj_ok_def vdev_wf_def)
  then obtain c where c: "obj_write (config d) off bs = Some c" using obj_store.wr_total by blast
  note len = length_obj_write [OF c]
  have "config_put off bs d = Some (d\<lparr>config := c\<rparr>)" by (simp add: config_put_def c)
  moreover have "vdev_wf (d\<lparr>config := c\<rparr>)" using assms(1) len by (simp add: vdev_wf_def)
  moreover have "take (length bs) (drop off c) = bs"
    using obj_store.rd_wr_same [OF ok c] by (simp add: obj_read_def split: if_splits)
  moreover have "take k (drop b c) = take k (drop b (config d))"
    if "b + k \<le> VIRTIO_PCI_CONFIG_SIZE" "apart (off, length bs) (b, k)" for b k
    using that obj_store.rd_wr_other [OF ok c, of b k] assms(1) len by (simp add: obj_ok_def obj_read_def vdev_wf_def)
  ultimately show ?thesis by blast
qed

lemma on_dev_config_put:
  assumes "vdev_wf (vdev s)" "off + length bs \<le> VIRTIO_PCI_CONFIG_SIZE"
  shows "\<exists>c. on_dev (config_put off bs) s = Some (s\<lparr>vdev := (vdev s)\<lparr>config := c\<rparr>\<rparr>) \<and>
    vdev_wf ((vdev s)\<lparr>config := c\<rparr>) \<and> take (length bs) (drop off c) = bs \<and>
    (\<forall>b k. b + k \<le> VIRTIO_PCI_CONFIG_SIZE \<longrightarrow> apart (off, length bs) (b, k) \<longrightarrow>
       take k (drop b c) = take k (drop b (config (vdev s))))"
proof -
  from config_put_ok [OF assms] obtain c where c: "config_put off bs (vdev s) = Some ((vdev s)\<lparr>config := c\<rparr>)"
    "vdev_wf ((vdev s)\<lparr>config := c\<rparr>)" "take (length bs) (drop off c) = bs"
    "\<forall>b k. b + k \<le> VIRTIO_PCI_CONFIG_SIZE \<longrightarrow> apart (off, length bs) (b, k) \<longrightarrow>
       take k (drop b c) = take k (drop b (config (vdev s)))" by blast
  have "on_dev (config_put off bs) s = Some (s\<lparr>vdev := (vdev s)\<lparr>config := c\<rparr>\<rparr>)" by (simp add: on_dev_def c(1))
  with c show ?thesis by blast
qed

lemma buf_take_le_bytes: "unat sz = n \<Longrightarrow> buf_take (le_bytes n v) sz = Some (le_bytes n v)"
  by (simp add: buf_take_def obj_read_def)

text \<open>A plain register: the write only changes its bytes.\<close>

definition plain_register :: "nat \<Rightarrow> bool" where
  "plain_register off \<longleftrightarrow> off < DEV_CFG \<and>
     off \<notin> {VIRTIO_PCI_COMMON_DFSELECT, VIRTIO_PCI_COMMON_GFSELECT, VIRTIO_PCI_COMMON_Q_SELECT, VIRTIO_PCI_COMMON_Q_ENABLE, NOTIFY_CFG} \<and>
     \<not> (VIRTIO_PCI_COMMON_Q_SIZE \<le> off \<and> off \<le> VIRTIO_PCI_COMMON_Q_USEDHI)"

lemma write_plain:
  "plain_register (unat offset) \<Longrightarrow> buf_take data sz = Some bs \<Longrightarrow>
     virtio_pci_iospace_write env handle data offset sz s = on_dev (config_put (unat offset) bs) s"
  by (auto simp: virtio_pci_iospace_write_def plain_register_def split: Option.bind_split)

lemma field_le_bytes: "take n (drop off c) = le_bytes n v \<Longrightarrow> LENGTH('a) \<le> 8 * n \<Longrightarrow> field c off n = (v :: 'a::len word)"
  by (simp add: field_def)

lemma write_gfselect:
  fixes v :: u32
  assumes "vdev_wf (vdev s)"
  shows "\<exists>c. virtio_pci_iospace_write env handle (le_bytes 4 v) 8 4 s = Some (s\<lparr>vdev := (vdev s)\<lparr>config := c,
      guest_feature := guest_feature (vdev s) OR
        (if v = 0 then ucast (cfg_guest_feature (vdev s)) else if v = 1 then push_bit 32 (ucast (cfg_guest_feature (vdev s))) else 0)\<rparr>\<rparr>) \<and>
    vdev_wf ((vdev s)\<lparr>config := c\<rparr>) \<and> field c 12 4 = cfg_guest_feature (vdev s)"
proof -
  have le: "8 + length (le_bytes 4 v) \<le> VIRTIO_PCI_CONFIG_SIZE" by (simp add: const_simps)
  obtain c where c: "on_dev (config_put 8 (le_bytes 4 v)) s = Some (s\<lparr>vdev := (vdev s)\<lparr>config := c\<rparr>\<rparr>)"
      "vdev_wf ((vdev s)\<lparr>config := c\<rparr>)" "take (length (le_bytes 4 v)) (drop 8 c) = le_bytes 4 v"
      "\<forall>b k. b + k \<le> VIRTIO_PCI_CONFIG_SIZE \<longrightarrow> apart (8, length (le_bytes 4 v)) (b, k) \<longrightarrow>
         take k (drop b c) = take k (drop b (config (vdev s)))"
    using on_dev_config_put [OF assms le] by blast
  have sel: "field c 8 4 = v" using c(3) by (simp add: field_le_bytes)
  have feat: "field c 12 4 = cfg_guest_feature (vdev s)"
    using c(4) [rule_format, of 12 4] by (simp add: cfg_guest_feature_def field_def const_simps apart_def)
  define g where "g = guest_feature (vdev s) OR
    (if v = 0 then ucast (cfg_guest_feature (vdev s)) else if v = 1 then push_bit 32 (ucast (cfg_guest_feature (vdev s))) else 0)"
  have "virtio_pci_cmd_write_guest_feature ((vdev s)\<lparr>config := c\<rparr>) = Some ((vdev s)\<lparr>config := c, guest_feature := g\<rparr>)"
    using sel feat by (simp add: virtio_pci_cmd_write_guest_feature_def cfg_gfselect_def cfg_guest_feature_def g_def)
  then have "virtio_pci_iospace_write env handle (le_bytes 4 v) 8 4 s = Some (s\<lparr>vdev := (vdev s)\<lparr>config := c, guest_feature := g\<rparr>\<rparr>)"
    using c(1) by (simp add: virtio_pci_iospace_write_def buf_take_le_bytes const_simps
        on_dev_def [of virtio_pci_cmd_write_guest_feature])
  then show ?thesis using c(2) feat unfolding g_def by blast
qed

lemma write_gf:
  fixes v :: u32
  assumes "vdev_wf (vdev s)"
  shows "\<exists>c. virtio_pci_iospace_write env handle (le_bytes 4 v) 12 4 s = Some (s\<lparr>vdev := (vdev s)\<lparr>config := c\<rparr>\<rparr>) \<and>
    vdev_wf ((vdev s)\<lparr>config := c\<rparr>) \<and> field c 12 4 = v"
proof -
  have le: "12 + length (le_bytes 4 v) \<le> VIRTIO_PCI_CONFIG_SIZE" by (simp add: const_simps)
  obtain c where c: "on_dev (config_put 12 (le_bytes 4 v)) s = Some (s\<lparr>vdev := (vdev s)\<lparr>config := c\<rparr>\<rparr>)"
      "vdev_wf ((vdev s)\<lparr>config := c\<rparr>)" "take (length (le_bytes 4 v)) (drop 12 c) = le_bytes 4 v"
    using on_dev_config_put [OF assms le] by blast
  moreover have "plain_register (unat (12 :: u64))" by (simp add: plain_register_def const_simps)
  ultimately show ?thesis
    using write_plain [of 12 "le_bytes 4 v" 4 "le_bytes 4 v" env handle s]
    by (auto simp: buf_take_le_bytes field_le_bytes)
qed

section \<open>Properties\<close>

text \<open>Feature discovery: after the guest selects half \<open>sel\<close> of the device features, it
  reads that half (and zero for any other selector), and nothing else of the state changes.\<close>

theorem virtio_device_feature_read:
  fixes sel :: u32
  assumes "vdev_wf (vdev s)" "length buf = 4"
  defines "half \<equiv> (if sel = 0 then ucast (device_feature (vdev s))
                   else if sel = 1 then ucast (drop_bit 32 (device_feature (vdev s))) else 0 :: u32)"
  shows "\<exists>c. let s' = s\<lparr>vdev := (vdev s)\<lparr>config := c\<rparr>\<rparr> in
    virtio_pci_iospace_write env handle (le_bytes 4 sel) 0 4 s = Some s' \<and> vdev_wf (vdev s') \<and>
    virtio_pci_iospace_read buf 4 4 s' = Some (le_bytes 4 half, s') \<and>
    (\<forall>b k. 8 \<le> b \<and> b + k \<le> VIRTIO_PCI_CONFIG_SIZE \<longrightarrow> take k (drop b c) = take k (drop b (config (vdev s))))"
proof -
  have le: "0 + length (le_bytes 4 sel) \<le> VIRTIO_PCI_CONFIG_SIZE" by (simp add: const_simps)
  obtain c where c: "on_dev (config_put 0 (le_bytes 4 sel)) s = Some (s\<lparr>vdev := (vdev s)\<lparr>config := c\<rparr>\<rparr>)"
      "vdev_wf ((vdev s)\<lparr>config := c\<rparr>)" "take (length (le_bytes 4 sel)) (drop 0 c) = le_bytes 4 sel"
      "\<forall>b k. b + k \<le> VIRTIO_PCI_CONFIG_SIZE \<longrightarrow> apart (0, length (le_bytes 4 sel)) (b, k) \<longrightarrow>
         take k (drop b c) = take k (drop b (config (vdev s)))"
    using on_dev_config_put [OF assms(1) le] by blast
  let ?d = "(vdev s)\<lparr>config := c\<rparr>"
  have le': "4 + length (le_bytes 4 half) \<le> VIRTIO_PCI_CONFIG_SIZE" by (simp add: const_simps)
  obtain c' where c': "config_put 4 (le_bytes 4 half) ?d = Some (?d\<lparr>config := c'\<rparr>)"
      "vdev_wf (?d\<lparr>config := c'\<rparr>)" "take (length (le_bytes 4 half)) (drop 4 c') = le_bytes 4 half"
      "\<forall>b k. b + k \<le> VIRTIO_PCI_CONFIG_SIZE \<longrightarrow> apart (4, length (le_bytes 4 half)) (b, k) \<longrightarrow>
         take k (drop b c') = take k (drop b (config ?d))"
    using config_put_ok [OF c(2) le'] by blast
  have sel: "cfg_dfselect ?d = sel" using c(3) field_le_bytes [of 4 0 c sel] by (simp add: cfg_dfselect_def)
  have "virtio_pci_cmd_select_device_feature ?d = config_put 4 (le_bytes 4 half) ?d"
    unfolding virtio_pci_cmd_select_device_feature_def sel Let_def half_def by simp
  then have w: "virtio_pci_iospace_write env handle (le_bytes 4 sel) 0 4 s = Some (s\<lparr>vdev := (vdev s)\<lparr>config := c'\<rparr>\<rparr>)"
    using c(1) c'(1)
    by (simp add: virtio_pci_iospace_write_def buf_take_le_bytes const_simps on_dev_def [of virtio_pci_cmd_select_device_feature])
  have r: "virtio_pci_iospace_read buf 4 4 (s\<lparr>vdev := (vdev s)\<lparr>config := c'\<rparr>\<rparr>) =
      Some (le_bytes 4 half, s\<lparr>vdev := (vdev s)\<lparr>config := c'\<rparr>\<rparr>)"
    using c'(2,3) assms(2)
    by (simp add: virtio_pci_iospace_read_def obj_read_def vdev_wf_def const_simps buf_put_def obj_write_def)
  have "take k (drop b c') = take k (drop b (config (vdev s)))" if "8 \<le> b" "b + k \<le> VIRTIO_PCI_CONFIG_SIZE" for b k
    using that c(4) [rule_format, of b k] c'(4) [rule_format, of b k] by (simp add: apart_def)
  then show ?thesis using w r c'(2) by (intro exI [of _ c']) (simp add: Let_def)
qed

text \<open>Feature acknowledgement goes wrong: the code takes the guest's feature word when
  the guest writes the selector, not when it writes the word. The sequence of the virtio
  specification (select 0, write the low half, select 1, write the high half) therefore
  records the stale word as the low half and the low half as the high half, and never sees
  the high half.\<close>

theorem virtio_guest_feature_misplaced:
  fixes lo hi :: u32
  assumes "vdev_wf (vdev s)"
  shows "\<exists>s1 s2 s3 s4.
    virtio_pci_iospace_write env handle (le_bytes 4 (0 :: u32)) 8 4 s = Some s1 \<and>
    virtio_pci_iospace_write env handle (le_bytes 4 lo) 12 4 s1 = Some s2 \<and>
    virtio_pci_iospace_write env handle (le_bytes 4 (1 :: u32)) 8 4 s2 = Some s3 \<and>
    virtio_pci_iospace_write env handle (le_bytes 4 hi) 12 4 s3 = Some s4 \<and>
    guest_feature (vdev s4) =
      guest_feature (vdev s) OR ucast (cfg_guest_feature (vdev s)) OR push_bit 32 (ucast lo)"
proof -
  obtain c1 s1 where s1: "virtio_pci_iospace_write env handle (le_bytes 4 (0 :: u32)) 8 4 s = Some s1"
      "s1 = s\<lparr>vdev := (vdev s)\<lparr>config := c1, guest_feature := guest_feature (vdev s) OR ucast (cfg_guest_feature (vdev s))\<rparr>\<rparr>"
      "vdev_wf ((vdev s)\<lparr>config := c1\<rparr>)"
    using write_gfselect [OF assms, of env handle 0] by auto
  have "vdev_wf (vdev s1)" using s1 by (simp add: vdev_wf_def)
  from write_gf [OF this, of env handle lo] obtain c2 s2 where
    s2: "virtio_pci_iospace_write env handle (le_bytes 4 lo) 12 4 s1 = Some s2"
      "s2 = s1\<lparr>vdev := (vdev s1)\<lparr>config := c2\<rparr>\<rparr>" "vdev_wf (vdev s2)" "cfg_guest_feature (vdev s2) = lo"
    by (auto simp: cfg_guest_feature_def)
  obtain c3 s3 where s3: "virtio_pci_iospace_write env handle (le_bytes 4 (1 :: u32)) 8 4 s2 = Some s3"
      "s3 = s2\<lparr>vdev := (vdev s2)\<lparr>config := c3, guest_feature := guest_feature (vdev s2) OR push_bit 32 (ucast lo)\<rparr>\<rparr>"
      "vdev_wf ((vdev s2)\<lparr>config := c3\<rparr>)"
    using write_gfselect [OF s2(3), of env handle 1] s2(4) by auto
  have "vdev_wf (vdev s3)" using s3 by (simp add: vdev_wf_def)
  from write_gf [OF this, of env handle hi] obtain c4 s4 where
    s4: "virtio_pci_iospace_write env handle (le_bytes 4 hi) 12 4 s3 = Some s4" "s4 = s3\<lparr>vdev := (vdev s3)\<lparr>config := c4\<rparr>\<rparr>"
    by blast
  have "guest_feature (vdev s4) = guest_feature (vdev s) OR ucast (cfg_guest_feature (vdev s)) OR push_bit 32 (ucast lo)"
    by (simp add: s4(2) s3(2) s2(2) s1(2) or.assoc)
  with s1(1) s2(1) s3(1) s4(1) show ?thesis by blast
qed

text \<open>The registers from \<open>queue_size\<close> on are a window onto the selected queue.\<close>

definition queue_window :: "virtio_pci_dev \<Rightarrow> bytes" where
  "queue_window d = take VIRTQ_INFO_SIZE (drop VIRTIO_PCI_COMMON_Q_SIZE (config d))"

definition mirrored :: "virtio_pci_dev \<Rightarrow> bool" where
  "mirrored d \<longleftrightarrow> (cfg_queue_select d < cfg_num_queues d \<longrightarrow>
     queue_window d = info (vq d ! unat (cfg_queue_select d)))"

lemma get_vq_selected:
  assumes "unat (cfg_num_queues d) \<le> length (vq d)" "cfg_queue_select d < cfg_num_queues d" "vdev_wf d"
  shows "get_vq d (unat (cfg_queue_select d)) = Some (vq d ! unat (cfg_queue_select d))"
    "unat (cfg_queue_select d) < length (vq d)" "length (info (vq d ! unat (cfg_queue_select d))) = VIRTQ_INFO_SIZE"
proof -
  show lt: "unat (cfg_queue_select d) < length (vq d)" using assms by (simp add: word_less_nat_alt)
  then show "get_vq d (unat (cfg_queue_select d)) = Some (vq d ! unat (cfg_queue_select d))" by (simp add: get_vq_def)
  show "length (info (vq d ! unat (cfg_queue_select d))) = VIRTQ_INFO_SIZE" using lt assms(3) by (simp add: vdev_wf_def)
qed

lemma select_virtq_mirrored:
  assumes "vdev_wf d" "unat (cfg_num_queues d) \<le> length (vq d)"
  shows "\<exists>c. virtio_pci_cmd_select_virtq d = Some (d\<lparr>config := c\<rparr>) \<and> vdev_wf (d\<lparr>config := c\<rparr>) \<and>
    mirrored (d\<lparr>config := c\<rparr>) \<and> cfg_queue_select (d\<lparr>config := c\<rparr>) = cfg_queue_select d \<and>
    cfg_num_queues (d\<lparr>config := c\<rparr>) = cfg_num_queues d"
proof -
  define inf where "inf = (if cfg_queue_select d < cfg_num_queues d then info (vq d ! unat (cfg_queue_select d)) else le_bytes 2 (0 :: u16))"
  have len: "length inf = (if cfg_queue_select d < cfg_num_queues d then VIRTQ_INFO_SIZE else 2)"
    using get_vq_selected(3) [OF assms(2) _ assms(1)] by (simp add: inf_def)
  have eq: "virtio_pci_cmd_select_virtq d = config_put VIRTIO_PCI_COMMON_Q_SIZE inf d"
    using get_vq_selected [OF assms(2) _ assms(1)]
    by (simp add: virtio_pci_cmd_select_virtq_def inf_def obj_read_def)
  have "VIRTIO_PCI_COMMON_Q_SIZE + length inf \<le> VIRTIO_PCI_CONFIG_SIZE" unfolding len by (simp add: const_simps)
  from config_put_ok [OF assms(1) this] obtain c where
    c: "config_put VIRTIO_PCI_COMMON_Q_SIZE inf d = Some (d\<lparr>config := c\<rparr>)" "vdev_wf (d\<lparr>config := c\<rparr>)"
      "take (length inf) (drop VIRTIO_PCI_COMMON_Q_SIZE c) = inf"
      "\<forall>b k. b + k \<le> VIRTIO_PCI_CONFIG_SIZE \<longrightarrow> apart (VIRTIO_PCI_COMMON_Q_SIZE, length inf) (b, k) \<longrightarrow>
         take k (drop b c) = take k (drop b (config d))" by blast
  have low: "field c b 2 = (field (config d) b 2 :: u16)" if "b + 2 \<le> VIRTIO_PCI_COMMON_Q_SIZE" for b
    using c(4) [rule_format, of b 2] that by (simp add: field_def const_simps apart_def)
  have "cfg_queue_select (d\<lparr>config := c\<rparr>) = cfg_queue_select d" "cfg_num_queues (d\<lparr>config := c\<rparr>) = cfg_num_queues d"
    by (simp_all add: cfg_queue_select_def cfg_num_queues_def low const_simps)
  moreover from this have "mirrored (d\<lparr>config := c\<rparr>)"
    using c(3) len by (auto simp: mirrored_def queue_window_def inf_def)
  ultimately show ?thesis using eq c(1,2) by auto
qed

lemma obj_write_window:
  assumes "obj_write c off bs = Some c'" "a \<le> off" "off + length bs \<le> a + n" "a + n \<le> length c"
  shows "obj_write (take n (drop a c)) (off - a) bs = Some (take n (drop a c'))"
proof -
  have "off - a + length bs \<le> length (take n (drop a c))" using assms(2-4) by simp
  then obtain w where w: "obj_write (take n (drop a c)) (off - a) bs = Some w" by (auto simp: obj_write_def)
  have "w = take n (drop a c')"
  proof (rule nth_equalityI)
    show "length w = length (take n (drop a c'))"
      using length_obj_write [OF w] length_obj_write [OF assms(1)] by simp
    fix i assume "i < length w"
    then have i: "i < n" "i < length (take n (drop a c))" "a + i < length c"
      using length_obj_write [OF w] by auto
    have "i - (off - a) = a + i - off" "off - a \<le> i \<longleftrightarrow> off \<le> a + i" using assms(2) by linarith+
    then show "w ! i = take n (drop a c') ! i"
      using nth_obj_write [OF w i(2)] nth_obj_write [OF assms(1) i(3)] i length_obj_write [OF assms(1)] assms(2)
      by (auto simp: less_diff_conv2 add.commute)
  qed
  with w show ?thesis by simp
qed

lemma queue_select_write:
  assumes "vdev_wf (vdev s)" "unat (cfg_num_queues (vdev s)) \<le> length (vq (vdev s))"
  shows "\<exists>c. let d = (vdev s)\<lparr>config := c\<rparr> in
      virtio_pci_iospace_write env handle (le_bytes 2 (sel :: u16)) 22 2 s = Some (s\<lparr>vdev := d\<rparr>) \<and>
      vdev_wf d \<and> mirrored d \<and> cfg_queue_select d = sel \<and> cfg_num_queues d = cfg_num_queues (vdev s)"
proof -
  have le: "22 + length (le_bytes 2 sel) \<le> VIRTIO_PCI_CONFIG_SIZE" by (simp add: const_simps)
  from on_dev_config_put [OF assms(1) le] obtain c1 where
    c1: "on_dev (config_put 22 (le_bytes 2 sel)) s = Some (s\<lparr>vdev := (vdev s)\<lparr>config := c1\<rparr>\<rparr>)"
      "vdev_wf ((vdev s)\<lparr>config := c1\<rparr>)" "take (length (le_bytes 2 sel)) (drop 22 c1) = le_bytes 2 sel"
      "\<forall>b k. b + k \<le> VIRTIO_PCI_CONFIG_SIZE \<longrightarrow> apart (22, length (le_bytes 2 sel)) (b, k) \<longrightarrow>
         take k (drop b c1) = take k (drop b (config (vdev s)))" by blast
  let ?d = "(vdev s)\<lparr>config := c1\<rparr>"
  have f: "cfg_queue_select ?d = sel" "cfg_num_queues ?d = cfg_num_queues (vdev s)"
    using c1(3) c1(4) [rule_format, of 18 2]
    by (simp_all add: cfg_queue_select_def field_le_bytes cfg_num_queues_def field_def const_simps apart_def)
  have n: "unat (cfg_num_queues ?d) \<le> length (vq ?d)" unfolding f(2) using assms(2) by simp
  from select_virtq_mirrored [OF c1(2) n] obtain c where
    c: "virtio_pci_cmd_select_virtq ?d = Some (?d\<lparr>config := c\<rparr>)" "vdev_wf (?d\<lparr>config := c\<rparr>)" "mirrored (?d\<lparr>config := c\<rparr>)"
      "cfg_queue_select (?d\<lparr>config := c\<rparr>) = sel" "cfg_num_queues (?d\<lparr>config := c\<rparr>) = cfg_num_queues (vdev s)"
    unfolding f by blast
  have "virtio_pci_iospace_write env handle (le_bytes 2 sel) 22 2 s = Some (s\<lparr>vdev := (vdev s)\<lparr>config := c\<rparr>\<rparr>)"
    using c1(1) c(1)
    by (simp add: virtio_pci_iospace_write_def buf_take_le_bytes const_simps on_dev_def [of virtio_pci_cmd_select_virtq])
  then show ?thesis
    using c(2-5) by (intro exI [of _ c]) (simp add: Let_def)
qed

lemma queue_register_write:
  assumes "vdev_wf (vdev s)" "unat (cfg_num_queues (vdev s)) \<le> length (vq (vdev s))"
    and a: "mirrored (vdev s) \<and> cfg_queue_select (vdev s) < cfg_num_queues (vdev s) \<and> unat sz \<le> length data \<and>
     VIRTIO_PCI_COMMON_Q_SIZE \<le> unat offset \<and> unat offset \<noteq> VIRTIO_PCI_COMMON_Q_ENABLE \<and>
     unat offset \<le> VIRTIO_PCI_COMMON_Q_USEDHI \<and> unat offset + unat sz \<le> COMMON_CFG_SIZE"
  shows "\<exists>c inf. let i = unat (cfg_queue_select (vdev s));
                   d = (vdev s)\<lparr>config := c, vq := (vq (vdev s))[i := (vq (vdev s) ! i)\<lparr>info := inf\<rparr>]\<rparr> in
        virtio_pci_iospace_write env handle data offset sz s = Some (s\<lparr>vdev := d\<rparr>) \<and>
        obj_write (info (vq (vdev s) ! i)) (unat offset - VIRTIO_PCI_COMMON_Q_SIZE) (take (unat sz) data) = Some inf \<and>
        vdev_wf d \<and> mirrored d \<and> cfg_queue_select d = cfg_queue_select (vdev s) \<and> cfg_num_queues d = cfg_num_queues (vdev s)"
proof -
  define bs where "bs = take (unat sz) data"
  have bs: "buf_take data sz = Some bs" "length bs = unat sz"
    using a by (simp_all add: bs_def buf_take_def obj_read_def)
  let ?i = "unat (cfg_queue_select (vdev s))"
  note q = get_vq_selected [OF assms(2) _ assms(1)]
  have len: "length (config (vdev s)) = VIRTIO_PCI_CONFIG_SIZE" using assms(1) by (simp add: vdev_wf_def)
  obtain c where c: "obj_write (config (vdev s)) (unat offset) bs = Some c"
    using a bs(2) len by (auto simp: obj_write_def const_simps)
  have lc: "length c = VIRTIO_PCI_CONFIG_SIZE" using length_obj_write [OF c] len by simp
  define inf where "inf = take VIRTQ_INFO_SIZE (drop VIRTIO_PCI_COMMON_Q_SIZE c)"
  have "obj_write (queue_window (vdev s)) (unat offset - VIRTIO_PCI_COMMON_Q_SIZE) bs = Some inf"
    unfolding queue_window_def inf_def
    by (rule obj_write_window [OF c]) (use a bs(2) len in \<open>auto simp: const_simps\<close>)
  then have inf: "obj_write (info (vq (vdev s) ! ?i)) (unat offset - VIRTIO_PCI_COMMON_Q_SIZE) bs = Some inf"
    using a by (simp add: mirrored_def)
  have low: "field c b 2 = (field (config (vdev s)) b 2 :: u16)" if "b + 2 \<le> VIRTIO_PCI_COMMON_Q_SIZE" for b
  proof -
    have "take 2 (drop b c) = take 2 (drop b (config (vdev s)))"
      using obj_store.rd_wr_other [of "config (vdev s)" "unat offset" bs c b 2] c a that len lc bs(2)
      by (auto simp: obj_ok_def obj_read_def apart_def const_simps)
    then show ?thesis by (simp add: field_def)
  qed
  define d1 where "d1 = (vdev s)\<lparr>config := c\<rparr>"
  define d where "d = (vdev s)\<lparr>config := c, vq := (vq (vdev s))[?i := (vq (vdev s) ! ?i)\<lparr>info := inf\<rparr>]\<rparr>"
  have f: "cfg_queue_select d1 = cfg_queue_select (vdev s)" "cfg_num_queues d1 = cfg_num_queues (vdev s)"
    "cfg_queue_select d = cfg_queue_select (vdev s)" "cfg_num_queues d = cfg_num_queues (vdev s)"
    by (simp_all add: d1_def d_def cfg_queue_select_def cfg_num_queues_def low const_simps)
  have qw: "queue_write offset bs d1 = Some d"
    using a q inf unfolding queue_write_def f Let_def
    by (simp add: d1_def d_def get_vq_def)
  have "virtio_pci_iospace_write env handle data offset sz s = Some (s\<lparr>vdev := d\<rparr>)"
    using a bs(1) c qw
    by (auto simp: virtio_pci_iospace_write_def const_simps on_dev_def config_put_def d1_def)
  moreover have "vdev_wf d"
    using assms(1) lc by (auto simp: d_def vdev_wf_def inf_def const_simps dest!: set_update_subset_insert [THEN subsetD])
  moreover have "mirrored d"
    unfolding mirrored_def f using q(2) by (simp add: d_def queue_window_def inf_def)
  ultimately show ?thesis
    using inf f(3,4) unfolding d_def bs_def Let_def by blast
qed

text \<open>A write of zero to the enable register does not reach the queue.\<close>

lemma queue_disable_write:
  assumes wf: "vdev_wf (vdev s)" and sel: "cfg_queue_select (vdev s) < cfg_num_queues (vdev s)"
  shows "\<exists>c. let d = (vdev s)\<lparr>config := c\<rparr> in
      virtio_pci_iospace_write env handle (le_bytes 2 (0 :: u16)) 28 2 s = Some (s\<lparr>vdev := d\<rparr>) \<and> vdev_wf d \<and> cfg_queue_enable d = 0 \<and>
      (info_enable (vq (vdev s) ! unat (cfg_queue_select (vdev s))) \<noteq> 0 \<longrightarrow> \<not> mirrored d)"
proof -
  let ?b = "le_bytes 2 (0 :: u16)"
  have le: "28 + length ?b \<le> VIRTIO_PCI_CONFIG_SIZE" by (simp add: const_simps)
  from on_dev_config_put [OF wf le] obtain c where
    c: "on_dev (config_put 28 ?b) s = Some (s\<lparr>vdev := (vdev s)\<lparr>config := c\<rparr>\<rparr>)" "vdev_wf ((vdev s)\<lparr>config := c\<rparr>)"
      "take (length ?b) (drop 28 c) = ?b"
      "\<forall>b k. b + k \<le> VIRTIO_PCI_CONFIG_SIZE \<longrightarrow> apart (28, length ?b) (b, k) \<longrightarrow> take k (drop b c) = take k (drop b (config (vdev s)))"
    by blast
  let ?d = "(vdev s)\<lparr>config := c\<rparr>"
  have en: "field c 28 2 = (0 :: u16)" using c(3) by (intro field_le_bytes) simp_all
  have f: "cfg_queue_select ?d = cfg_queue_select (vdev s)" "cfg_num_queues ?d = cfg_num_queues (vdev s)"
    using c(4) [rule_format, of 22 2] c(4) [rule_format, of 18 2]
    by (simp_all add: cfg_queue_select_def cfg_num_queues_def field_def const_simps apart_def)
  have "field (queue_window ?d) 4 2 = (0 :: u16)" using en by (simp add: queue_window_def field_def const_simps take_drop)
  then have "info_enable (vq (vdev s) ! unat (cfg_queue_select (vdev s))) = 0" if "mirrored ?d"
    using that sel f by (simp add: mirrored_def info_enable_def)
  moreover have "virtio_pci_iospace_write env handle ?b 28 2 s = Some (s\<lparr>vdev := ?d\<rparr>)"
    using c(1) en by (simp add: virtio_pci_iospace_write_def buf_take_le_bytes const_simps cfg_queue_enable_def del: le_bytes_zero)
  ultimately show ?thesis using c(2) en by (intro exI [of _ c]) (auto simp: Let_def cfg_queue_enable_def)
qed

text \<open>Property C29. Programming a queue: writing \<open>queue_select\<close> makes the window show the selected
  queue, and a write of a queue register other than the enable register changes the window and
  the queue in the same way, so that the window keeps showing the queue, and changes no other
  queue. The enable register is different: a write of zero to it changes only the window, which from then on
  shows an enabled queue as disabled.\<close>

theorem virtio_queue_registers:
  assumes "vdev_wf (vdev s)" "unat (cfg_num_queues (vdev s)) \<le> length (vq (vdev s))"
  shows "(\<exists>c. let d = (vdev s)\<lparr>config := c\<rparr> in
      virtio_pci_iospace_write env handle (le_bytes 2 (sel :: u16)) 22 2 s = Some (s\<lparr>vdev := d\<rparr>) \<and>
      vdev_wf d \<and> mirrored d \<and> cfg_queue_select d = sel \<and> cfg_num_queues d = cfg_num_queues (vdev s)) \<and>
    (mirrored (vdev s) \<and> cfg_queue_select (vdev s) < cfg_num_queues (vdev s) \<and> unat sz \<le> length data \<and>
     VIRTIO_PCI_COMMON_Q_SIZE \<le> unat offset \<and> unat offset \<noteq> VIRTIO_PCI_COMMON_Q_ENABLE \<and>
     unat offset \<le> VIRTIO_PCI_COMMON_Q_USEDHI \<and> unat offset + unat sz \<le> COMMON_CFG_SIZE \<longrightarrow>
      (\<exists>c inf. let i = unat (cfg_queue_select (vdev s));
                   d = (vdev s)\<lparr>config := c, vq := (vq (vdev s))[i := (vq (vdev s) ! i)\<lparr>info := inf\<rparr>]\<rparr> in
        virtio_pci_iospace_write env handle data offset sz s = Some (s\<lparr>vdev := d\<rparr>) \<and>
        obj_write (info (vq (vdev s) ! i)) (unat offset - VIRTIO_PCI_COMMON_Q_SIZE) (take (unat sz) data) = Some inf \<and>
        vdev_wf d \<and> mirrored d)) \<and>
    (cfg_queue_select (vdev s) < cfg_num_queues (vdev s) \<longrightarrow>
      (\<exists>c. let d = (vdev s)\<lparr>config := c\<rparr> in
        virtio_pci_iospace_write env handle (le_bytes 2 (0 :: u16)) 28 2 s = Some (s\<lparr>vdev := d\<rparr>) \<and> vdev_wf d \<and> cfg_queue_enable d = 0 \<and>
        (info_enable (vq (vdev s) ! unat (cfg_queue_select (vdev s))) \<noteq> 0 \<longrightarrow> \<not> mirrored d)))"
proof (intro conjI impI, goal_cases)
  case 1
  show ?case by (rule queue_select_write [OF assms])
next
  case 2
  from queue_register_write [OF assms 2, of env handle] show ?case unfolding Let_def by blast
next
  case 3
  show ?case by (rule queue_disable_write [OF assms(1) 3])
qed

definition sample_virtio :: virtio_state where
  "sample_virtio = \<lparr>pci = sample_pci, ram = sample_memory, ioev = ioeventfd_0,
     vdev = (zero_virtio_dev 0)\<lparr>config := replicate 18 0 @ [1] @ replicate 53 0, device_feature := 0x500000000,
       vq := [zero_virtq]\<rparr>,
     dev_cfg_addr = 0x600000000000, dev_cfg_obj = replicate 60 0\<rparr>"

lemma sample_vdev: "vdev_wf (vdev sample_virtio)" "cfg_num_queues (vdev sample_virtio) = 1"
    "vq (vdev sample_virtio) = [zero_virtq]" "cfg_guest_feature (vdev sample_virtio) = 0"
    "guest_feature (vdev sample_virtio) = 0" "device_feature (vdev sample_virtio) = 0x500000000"
    "cfg_queue_select (vdev sample_virtio) = 0" "cfg_dev_cfg (vdev sample_virtio) = 0"
  by (simp_all add: sample_virtio_def vdev_wf_def zero_virtio_dev_def zero_virtq_def cfg_num_queues_def
      cfg_guest_feature_def cfg_queue_select_def cfg_dev_cfg_def field_def const_simps)

theorem virtio_device_feature_read_witness:
  "\<exists>s'. virtio_pci_iospace_write (\<lambda>_. undefined) (\<lambda>_ s. Some s) (le_bytes 4 (1 :: u32)) 0 4 sample_virtio = Some s' \<and>
     virtio_pci_iospace_read [0, 0, 0, 0] 4 4 s' = Some ([5, 0, 0, 0], s')"
  using virtio_device_feature_read [OF sample_vdev(1), of "[0, 0, 0, 0]" "\<lambda>_. undefined" "\<lambda>_ s. Some s" 1]
  by (auto simp: Let_def sample_vdev layout_simps numeral_3_eq_3)

theorem virtio_guest_feature_misplaced_witness:
  "\<exists>s1 s2 s3 s4.
    virtio_pci_iospace_write (\<lambda>_. undefined) (\<lambda>_ s. Some s) (le_bytes 4 (0 :: u32)) 8 4 sample_virtio = Some s1 \<and>
    virtio_pci_iospace_write (\<lambda>_. undefined) (\<lambda>_ s. Some s) (le_bytes 4 (0x200 :: u32)) 12 4 s1 = Some s2 \<and>
    virtio_pci_iospace_write (\<lambda>_. undefined) (\<lambda>_ s. Some s) (le_bytes 4 (1 :: u32)) 8 4 s2 = Some s3 \<and>
    virtio_pci_iospace_write (\<lambda>_. undefined) (\<lambda>_ s. Some s) (le_bytes 4 (5 :: u32)) 12 4 s3 = Some s4 \<and>
    guest_feature (vdev s4) = 0x20000000000"
  using virtio_guest_feature_misplaced [OF sample_vdev(1), of "\<lambda>_. undefined" "\<lambda>_ s. Some s" "0x200" 5]
  by (simp add: sample_vdev)

theorem virtio_queue_registers_witness:
  "\<exists>c. let d = (vdev sample_virtio)\<lparr>config := c\<rparr> in
     virtio_pci_iospace_write (\<lambda>_. undefined) (\<lambda>_ s. Some s) (le_bytes 2 (0 :: u16)) 22 2 sample_virtio =
       Some (sample_virtio\<lparr>vdev := d\<rparr>) \<and> mirrored d"
proof -
  have "unat (cfg_num_queues (vdev sample_virtio)) \<le> length (vq (vdev sample_virtio))" by (simp add: sample_vdev)
  from conjunct1 [OF virtio_queue_registers [OF sample_vdev(1) this, of "\<lambda>_. undefined" "\<lambda>_ s. Some s" 0]]
  show ?thesis unfolding Let_def by blast
qed

text \<open>Property C31. The device pointer is in reach of the guest: an 8-byte write to the notification
  register also replaces the low half of \<open>dev_cfg\<close>, the host pointer behind the window, with
  bytes of the guest's choice; device-configuration accesses then go to that address.\<close>

theorem virtio_notify_overwrites_pointer:
  fixes b :: u32
  assumes "vdev_wf (vdev s)" "0 < length (vq (vdev s))" "info_enable (vq (vdev s) ! 0) = 0"
  defines "p \<equiv> (cfg_dev_cfg (vdev s) AND NOT 0xFFFFFFFF) OR ucast b"
  shows "\<exists>s'. virtio_pci_iospace_write env handle (le_bytes 4 (0 :: u32) @ le_bytes 4 b) 60 8 s = Some s' \<and>
    cfg_dev_cfg (vdev s') = p \<and>
    (\<forall>buf n. length (dev_cfg_obj s) < unat (p - dev_cfg_addr s) \<longrightarrow> virtio_pci_iospace_read buf 64 n s' = None) \<and>
    (unat (p - dev_cfg_addr s) < length (dev_cfg_obj s) \<longrightarrow>
       virtio_pci_iospace_read [0] 64 1 s' = Some ([dev_cfg_obj s ! unat (p - dev_cfg_addr s)], s'))"
proof -
  let ?bs = "le_bytes 4 (0 :: u32) @ le_bytes 4 b"
  have le: "60 + length ?bs \<le> VIRTIO_PCI_CONFIG_SIZE" by (simp add: const_simps)
  from on_dev_config_put [OF assms(1) le] obtain c where
    c: "on_dev (config_put 60 ?bs) s = Some (s\<lparr>vdev := (vdev s)\<lparr>config := c\<rparr>\<rparr>)" "vdev_wf ((vdev s)\<lparr>config := c\<rparr>)"
      "take (length ?bs) (drop 60 c) = ?bs"
      "\<forall>b k. b + k \<le> VIRTIO_PCI_CONFIG_SIZE \<longrightarrow> apart (60, length ?bs) (b, k) \<longrightarrow>
         take k (drop b c) = take k (drop b (config (vdev s)))" by blast
  let ?s = "s\<lparr>vdev := (vdev s)\<lparr>config := c\<rparr>\<rparr>"
  have len: "length c = 72" "length (config (vdev s)) = 72" using c(2) assms(1) by (simp_all add: vdev_wf_def const_simps)
  have "take 2 (drop 60 c) = take 2 ?bs" using arg_cong [OF c(3), of "take 2"] by simp
  then have vqn: "cfg_vqn (vdev ?s) = 0" by (simp add: cfg_vqn_def field_def layout_simps)
  have lo: "take 4 (drop 64 c) = le_bytes 4 b" using arg_cong [OF c(3), of "drop 4"] by (simp add: drop_take)
  have hi: "take 4 (drop 68 c) = take 4 (drop 68 (config (vdev s)))"
    using c(4) [rule_format, of 68 4] by (simp add: const_simps apart_def)
  have split: "take 8 (drop 64 x) = take 4 (drop 64 x) @ take 4 (drop 68 x)" for x :: bytes
    using take_add [of 4 4 "drop 64 x"] by simp
  have "cfg_dev_cfg (vdev ?s) = p"
  proof -
    define h where "h = take 4 (drop 68 (config (vdev s)))"
    define l where "l = take 4 (drop 64 (config (vdev s)))"
    have "length l = 4" "length h = 4" using len by (simp_all add: l_def h_def)
    then have L: "\<not> bit (of_le l :: u64) i" if "32 \<le> i" for i using that by (simp add: bit_of_le)
    have m: "(0xFFFFFFFF :: u64) = mask 32" by (simp add: mask_eq_exp_minus_1)
    have "(of_le (le_bytes 4 b @ h) :: u64) = ((of_le (l @ h) :: u64) AND NOT 0xFFFFFFFF) OR ucast b"
      using L \<open>length l = 4\<close> unfolding m
      by (intro bit_eqI) (auto simp: of_le_append of_le_le_bytes_ucast bit_simps)
    then show ?thesis by (simp add: cfg_dev_cfg_def field_def split lo hi p_def l_def h_def)
  qed
  moreover have "virtio_pci_iospace_write env handle ?bs 60 8 s = Some ?s"
  proof -
    have "buf_take ?bs 8 = Some ?bs" by (simp add: buf_take_def obj_read_def)
    then show ?thesis
      using c(1) vqn assms(2,3)
      by (simp add: virtio_pci_iospace_write_def const_simps virtio_pci_ioevent_callback_def get_vq_def virtq_notify_def)
  qed
  ultimately show ?thesis
    by (intro exI [of _ ?s])
      (auto simp: virtio_pci_iospace_read_def const_simps dev_cfg_index_def obj_read_def buf_put_def obj_write_def
        take_Suc_conv_app_nth hd_drop_conv_nth take_Suc)
qed

theorem virtio_notify_overwrites_pointer_witness:
  "\<exists>s'. virtio_pci_iospace_write (\<lambda>_. undefined) (\<lambda>_ s. Some s) (le_bytes 4 (0 :: u32) @ le_bytes 4 (0xDEADBEEF :: u32)) 60 8
     sample_virtio = Some s' \<and> cfg_dev_cfg (vdev s') = 0xDEADBEEF"
proof -
  have "info_enable zero_virtq = 0" by (simp add: info_enable_def field_def zero_virtq_def const_simps)
  then show ?thesis
    using virtio_notify_overwrites_pointer [of sample_virtio "\<lambda>_. undefined" "\<lambda>_ s. Some s" "0xDEADBEEF"] sample_vdev
    by auto
qed

text \<open>The bound of the queue selector is itself a guest-writable register: after raising
  \<open>num_queues\<close> the guest selects a queue outside the array.\<close>

lemma virtio_num_queues_unprotected:
  fixes sel :: u16
  assumes "vdev_wf (vdev s)" "length (vq (vdev s)) \<le> unat sel" "sel < 0xFFFF"
  shows "\<exists>s'. virtio_pci_iospace_write env handle (le_bytes 2 (0xFFFF :: u16)) 18 2 s = Some s' \<and>
    virtio_pci_iospace_write env handle (le_bytes 2 sel) 22 2 s' = None"
proof -
  let ?n = "le_bytes 2 (0xFFFF :: u16)"
  have le: "18 + length ?n \<le> VIRTIO_PCI_CONFIG_SIZE" by (simp add: const_simps)
  from on_dev_config_put [OF assms(1) le] obtain c where
    c: "on_dev (config_put 18 ?n) s = Some (s\<lparr>vdev := (vdev s)\<lparr>config := c\<rparr>\<rparr>)" "vdev_wf ((vdev s)\<lparr>config := c\<rparr>)"
      "take (length ?n) (drop 18 c) = ?n" by blast
  define s' where "s' = s\<lparr>vdev := (vdev s)\<lparr>config := c\<rparr>\<rparr>"
  have p: "plain_register (unat (18 :: u64))" by (simp add: plain_register_def const_simps)
  have w: "virtio_pci_iospace_write env handle ?n 18 2 s = Some s'"
    using write_plain [OF p, of ?n 2 ?n env handle s] c(1) by (simp add: buf_take_le_bytes s'_def)
  have wf: "vdev_wf (vdev s')" using c(2) by (simp add: s'_def)
  have le': "22 + length (le_bytes 2 sel) \<le> VIRTIO_PCI_CONFIG_SIZE" by (simp add: const_simps)
  from on_dev_config_put [OF wf le'] obtain c' where
    c': "on_dev (config_put 22 (le_bytes 2 sel)) s' = Some (s'\<lparr>vdev := (vdev s')\<lparr>config := c'\<rparr>\<rparr>)"
      "take (length (le_bytes 2 sel)) (drop 22 c') = le_bytes 2 sel"
      "\<forall>b k. b + k \<le> VIRTIO_PCI_CONFIG_SIZE \<longrightarrow> apart (22, length (le_bytes 2 sel)) (b, k) \<longrightarrow>
         take k (drop b c') = take k (drop b (config (vdev s')))" by blast
  let ?d = "(vdev s')\<lparr>config := c'\<rparr>"
  have "take 2 (drop 18 c') = ?n" using c'(3) [rule_format, of 18 2] c(3) by (simp add: const_simps apart_def s'_def)
  then have "cfg_num_queues ?d = 0xFFFF" by (simp add: cfg_num_queues_def field_le_bytes)
  moreover have "cfg_queue_select ?d = sel" using c'(2) by (simp add: cfg_queue_select_def field_le_bytes)
  ultimately have "virtio_pci_cmd_select_virtq ?d = None"
    using assms(2,3) by (simp add: virtio_pci_cmd_select_virtq_def get_vq_def s'_def)
  then have "virtio_pci_iospace_write env handle (le_bytes 2 sel) 22 2 s' = None"
    using c'(1)
    by (simp add: virtio_pci_iospace_write_def buf_take_le_bytes const_simps on_dev_def [of virtio_pci_cmd_select_virtq])
  with w show ?thesis by blast
qed

section \<open>Enabling a queue\<close>

definition doorbell :: "u32 \<Rightarrow> u32 \<Rightarrow> u32 \<Rightarrow> int \<Rightarrow> nat \<Rightarrow> virtq \<Rightarrow> ioevent" where
  "doorbell base off mult fd i q =
     \<lparr>ev_datamatch = of_nat i, ev_addr = ucast base + ucast (off + mult * ucast (info_notify_off q)), ev_len = 2,
      ev_fd = fd, ev_flags = KVM_IOEVENTFD_FLAG_DATAMATCH, ev_fn_ptr = i\<rparr>"

lemma field_obj_write_other:
  assumes "obj_write c a bs = Some c'" "b + n \<le> a \<or> a + length bs \<le> b"
  shows "field c' b n = (field c b n :: 'a::len word)"
proof -
  have "c' = take a c @ bs @ drop (a + length bs) c" "a + length bs \<le> length c"
    using assms(1) by (auto simp: obj_write_def split: if_splits)
  then show ?thesis using assms(2) by (auto simp: field_def drop_take)
qed

lemma virtq_enable_ok:
  assumes "info_enable q = 0" "length (info q) = VIRTQ_INFO_SIZE" "get_userspace_addr st (info_desc_addr q) = Some ring"
    and "get_userspace_addr st (info_driver_addr q) = Some guest" "get_userspace_addr st (info_device_addr q) = Some device"
  shows "\<exists>inf. virtq_enable st q = Some (q\<lparr>info := inf, desc_ring := ring, guest_event := guest, device_event := device\<rparr>) \<and>
    length inf = VIRTQ_INFO_SIZE \<and> field inf 4 2 = (1 :: u16) \<and>
    info_size (q\<lparr>info := inf\<rparr>) = info_size q \<and> info_notify_off (q\<lparr>info := inf\<rparr>) = info_notify_off q"
proof -
  obtain inf where inf: "obj_write (info q) 4 (le_bytes 2 (1 :: u16)) = Some inf" "length inf = VIRTQ_INFO_SIZE"
    "take 2 (drop 4 inf) = le_bytes 2 (1 :: u16)"
    using assms(2) by (simp add: obj_write_def VIRTQ_INFO_SIZE_def)
  note same = field_obj_write_other [OF inf(1)]
  have "field inf 4 2 = (1 :: u16)" by (rule field_le_bytes [OF inf(3)]) simp
  moreover have "virtq_enable st q = Some (q\<lparr>info := inf, desc_ring := ring, guest_event := guest, device_event := device\<rparr>)"
    using assms inf(1) by (simp add: virtq_enable_def Let_def info_desc_addr_def info_driver_addr_def info_device_addr_def same)
  ultimately show ?thesis using inf(2) by (auto simp: same info_size_def info_notify_off_def)
qed

text \<open>What the driver has to have set up, and what the host answers, for queue \<open>i\<close> to be enabled: the three
  rings translate to host addresses, the notification capability names BAR \<open>bar\<close> with the offset and
  multiplier given, and the registration of the event succeeds.\<close>

definition enable_ready :: "'m virtio_state_scheme \<Rightarrow> nat \<Rightarrow> virtq \<Rightarrow> u64 \<Rightarrow> u64 \<Rightarrow> u64 \<Rightarrow> bool" where
  "enable_ready s i q ring guest device \<longleftrightarrow> vdev_wf (vdev s) \<and> unat (cfg_queue_select (vdev s)) = i \<and> get_vq (vdev s) i = Some q \<and>
     info_enable q = 0 \<and> get_userspace_addr (ram s) (info_desc_addr q) = Some ring \<and>
     get_userspace_addr (ram s) (info_driver_addr q) = Some guest \<and> get_userspace_addr (ram s) (info_device_addr q) = Some device"

definition notify_at :: "'m virtio_state_scheme \<Rightarrow> u32 \<Rightarrow> u32 \<Rightarrow> u32 \<Rightarrow> bool" where
  "notify_at s base off mult \<longleftrightarrow>
     (let dev = pci_devs (pci s) (vp_dev (vdev s)); cap = notify_cap (vdev s) in
      \<exists>bar :: u8. PCI_HDR_READ dev (cap + 4) 8 = Some bar \<and> PCI_HDR_READ dev (PCI_BAR_OFFSET (unat bar)) 32 = Some base \<and>
        PCI_HDR_READ dev (cap + 8) 32 = Some off \<and> PCI_HDR_READ dev (cap + 16) 32 = Some mult)"

definition event_ready :: "ioeventfd_state \<Rightarrow> addr list \<Rightarrow> add_env \<Rightarrow> bool" where
  "event_ready e ps env \<longleftrightarrow> init_ioeventfd e \<and> ioevents_ok e ps \<and> e_ioctl env = 0 \<and> e_epoll_ctl env = 0 \<and>
     0 < e_malloc env \<and> e_malloc env < 2 ^ 64 \<and> ioevents e (e_malloc env) = None \<and> e_malloc env + IOEVENT_LIST \<noteq> used_ioevents"

lemma init_ioeventfd_ok:
  assumes n: "notify_at s base off mult" and q: "get_vq (vdev s) i = Some q" and i: "i < 2 ^ 16"
    and e: "event_ready (ioev s) ps (ev_add (env s))"
  defines "ev \<equiv> doorbell base off mult (ev_eventfd (env s)) i q"
  shows "\<exists>e'. virtio_pci_init_ioeventfd env (of_nat i) s = Some (s\<lparr>ioev := e'\<rparr>) \<and> ioevents_ok e' (ps @ [e_malloc (ev_add (env s))]) \<and>
    ioevents e' = (ioevents (ioev s))(e_malloc (ev_add (env s)) \<mapsto> ev) \<and> kvm_ioeventfds e' = kvm_ioeventfds (ioev s) @ [ev] \<and>
    epoll_set e' = epoll_set (ioev s) @ [(ev_fd ev, of_nat (e_malloc (ev_add (env s))))] \<and> epoll_stop_fd e' = epoll_stop_fd (ioev s)"
proof -
  obtain bar :: u8 where h: "PCI_HDR_READ (pci_devs (pci s) (vp_dev (vdev s))) (notify_cap (vdev s) + 4) 8 = Some bar"
    "PCI_HDR_READ (pci_devs (pci s) (vp_dev (vdev s))) (PCI_BAR_OFFSET (unat bar)) 32 = Some base"
    "PCI_HDR_READ (pci_devs (pci s) (vp_dev (vdev s))) (notify_cap (vdev s) + 8) 32 = Some off"
    "PCI_HDR_READ (pci_devs (pci s) (vp_dev (vdev s))) (notify_cap (vdev s) + 16) 32 = Some mult"
    using n by (auto simp: notify_at_def Let_def)
  have u: "unat (of_nat i :: u16) = i" "ucast (of_nat i :: u16) = (of_nat i :: u64)"
    using i by (simp_all add: unsigned_of_nat take_bit_nat_eq_self)
  have "\<exists>e'. ioeventfd_add_event (ev_add (env s)) ev (ioev s) = Some (0, e') \<and> ioevents_ok e' (ps @ [e_malloc (ev_add (env s))]) \<and>
    ioevents e' = (ioevents (ioev s))(e_malloc (ev_add (env s)) \<mapsto> ev) \<and> kvm_ioeventfds e' = kvm_ioeventfds (ioev s) @ [ev] \<and>
    epoll_set e' = epoll_set (ioev s) @ [(ev_fd ev, of_nat (e_malloc (ev_add (env s))))] \<and> epoll_stop_fd e' = epoll_stop_fd (ioev s)"
    by (rule add_event_success) (use e in \<open>simp_all add: event_ready_def\<close>)
  then obtain e' where e': "ioeventfd_add_event (ev_add (env s)) ev (ioev s) = Some (0, e')" "ioevents_ok e' (ps @ [e_malloc (ev_add (env s))])"
    "ioevents e' = (ioevents (ioev s))(e_malloc (ev_add (env s)) \<mapsto> ev)" "kvm_ioeventfds e' = kvm_ioeventfds (ioev s) @ [ev]"
    "epoll_set e' = epoll_set (ioev s) @ [(ev_fd ev, of_nat (e_malloc (ev_add (env s))))]" "epoll_stop_fd e' = epoll_stop_fd (ioev s)" by blast
  have "virtio_pci_init_ioeventfd env (of_nat i) s = Some (s\<lparr>ioev := e'\<rparr>)"
    using h q e'(1) by (simp add: virtio_pci_init_ioeventfd_def Let_def u ev_def doorbell_def)
  then show ?thesis using e'(2-6) by blast
qed

lemma queue_enable_write:
  assumes q: "enable_ready s i q ring guest device" and n: "notify_at s base off mult"
    and e: "\<forall>t. ioev t = ioev s \<longrightarrow> env t = ee" "event_ready (ioev s) ps (ev_add ee)"
  defines "ev \<equiv> doorbell base off mult (ev_eventfd ee) i q" and "p \<equiv> e_malloc (ev_add ee)"
  shows "\<exists>s' q'. virtio_pci_iospace_write env handle (le_bytes 2 (1 :: u16)) 28 2 s = Some s' \<and> get_vq (vdev s') i = Some q' \<and>
    desc_ring q' = ring \<and> guest_event q' = guest \<and> device_event q' = device \<and> info_enable q' = 1 \<and> info_size q' = info_size q \<and>
    next_avail_idx q' = next_avail_idx q \<and> used_wrap_count q' = used_wrap_count q \<and>
    (\<forall>j. j \<noteq> i \<longrightarrow> get_vq (vdev s') j = get_vq (vdev s) j) \<and> vdev_wf (vdev s') \<and> ram s' = ram s \<and> pci s' = pci s \<and>
    kvm_ioeventfds (ioev s') = kvm_ioeventfds (ioev s) @ [ev] \<and> ioevents (ioev s') = (ioevents (ioev s))(p \<mapsto> ev) \<and>
    epoll_set (ioev s') = epoll_set (ioev s) @ [(ev_fd ev, of_nat p)] \<and> ioevents_ok (ioev s') (ps @ [p]) \<and>
    epoll_stop_fd (ioev s') = epoll_stop_fd (ioev s) \<and> vp_dev (vdev s') = vp_dev (vdev s) \<and> s' = s\<lparr>vdev := vdev s', ioev := ioev s'\<rparr>"
proof -
  have h: "vdev_wf (vdev s)" "unat (cfg_queue_select (vdev s)) = i" "get_vq (vdev s) i = Some q" "info_enable q = 0"
    "get_userspace_addr (ram s) (info_desc_addr q) = Some ring" "get_userspace_addr (ram s) (info_driver_addr q) = Some guest"
    "get_userspace_addr (ram s) (info_device_addr q) = Some device"
    using q by (simp_all add: enable_ready_def)
  let ?b = "le_bytes 2 (1 :: u16)"
  have le: "28 + length ?b \<le> VIRTIO_PCI_CONFIG_SIZE" by (simp add: const_simps)
  from on_dev_config_put [OF h(1) le] obtain c where
    c: "on_dev (config_put 28 ?b) s = Some (s\<lparr>vdev := (vdev s)\<lparr>config := c\<rparr>\<rparr>)" "vdev_wf ((vdev s)\<lparr>config := c\<rparr>)"
      "take (length ?b) (drop 28 c) = ?b"
      "\<forall>b k. b + k \<le> VIRTIO_PCI_CONFIG_SIZE \<longrightarrow> apart (28, length ?b) (b, k) \<longrightarrow> take k (drop b c) = take k (drop b (config (vdev s)))"
    by blast
  have i: "i < length (vq (vdev s))" "vq (vdev s) ! i = q" using h(3) by (auto simp: get_vq_def split: if_splits)
  have sel: "cfg_queue_select ((vdev s)\<lparr>config := c\<rparr>) = cfg_queue_select (vdev s)" and en: "cfg_queue_enable ((vdev s)\<lparr>config := c\<rparr>) = 1"
    using c(3) c(4) [rule_format, of 22 2]
    by (simp_all add: cfg_queue_select_def cfg_queue_enable_def field_le_bytes) (simp add: field_def const_simps apart_def)
  have i16: "i < 2 ^ 16" "cfg_queue_select (vdev s) = of_nat i" using h(2) unsigned_less [of "cfg_queue_select (vdev s)"] by auto
  have "length (info q) = VIRTQ_INFO_SIZE" using h(1) i by (auto simp: vdev_wf_def)
  from virtq_enable_ok [OF h(4) this h(5-7)] obtain q' where
    q': "virtq_enable (ram s) q = Some q'" "desc_ring q' = ring" "guest_event q' = guest" "device_event q' = device" "info_enable q' = 1"
      "info_size q' = info_size q" "next_avail_idx q' = next_avail_idx q" "used_wrap_count q' = used_wrap_count q"
      "length (info q') = VIRTQ_INFO_SIZE" "info_notify_off q' = info_notify_off q"
    by (auto simp: info_enable_def info_size_def info_notify_off_def)
  define t where "t = s\<lparr>vdev := (vdev s)\<lparr>config := c, vq := (vq (vdev s))[i := q']\<rparr>\<rparr>"
  have t: "notify_at t base off mult" "get_vq (vdev t) i = Some q'" "env t = ee" "event_ready (ioev t) ps (ev_add (env t))"
    using n i(1) e by (simp_all add: t_def notify_at_def get_vq_def)
  have "doorbell base off mult (ev_eventfd ee) i q' = ev" by (simp add: ev_def doorbell_def q'(10))
  then obtain e' where e': "virtio_pci_init_ioeventfd env (of_nat i) t = Some (t\<lparr>ioev := e'\<rparr>)" "ioevents_ok e' (ps @ [p])"
    "ioevents e' = (ioevents (ioev s))(p \<mapsto> ev)" "kvm_ioeventfds e' = kvm_ioeventfds (ioev s) @ [ev]"
    "epoll_set e' = epoll_set (ioev s) @ [(ev_fd ev, of_nat p)]" "epoll_stop_fd e' = epoll_stop_fd (ioev s)"
    using init_ioeventfd_ok [where env = env, OF t(1,2) i16(1) t(4)] unfolding t(3) p_def by (auto simp: t_def)
  have "virtio_pci_iospace_write env handle ?b 28 2 s = Some (t\<lparr>ioev := e'\<rparr>)"
    using c(1) q'(1) e'(1) i h(2) [unfolded i16(2)]
    by (simp add: virtio_pci_iospace_write_def buf_take_le_bytes const_simps en virtio_pci_cmd_enable_virtq_def Let_def sel i16(2)
        get_vq_def t_def)
  moreover have "vdev_wf (vdev t)" using c(2) q'(9) by (auto simp: t_def vdev_wf_def dest!: set_update_subset_insert [THEN subsetD])
  ultimately show ?thesis
    using q'(2-8) e'(2-6) t(2) by (intro exI [of _ "t\<lparr>ioev := e'\<rparr>"] exI [of _ q']) (auto simp: t_def get_vq_def)
qed

text \<open>Property C30. Writing the enable register of a selected queue: the queue starts at the host addresses of its
  three rings, keeps its size and position, every other queue is unchanged, and a write of the queue's number
  (2 bytes) at the notification address the driver computes from the capability is registered with KVM and epoll, under
  a record that makes the event thread run this queue's handler.\<close>

theorem virtio_queue_enable:
  assumes q: "enable_ready s i q ring guest device" and n: "notify_at s base off mult"
    and e: "\<forall>t. ioev t = ioev s \<longrightarrow> env t = ee" "event_ready (ioev s) ps (ev_add ee)"
  defines "ev \<equiv> doorbell base off mult (ev_eventfd ee) i q" and "p \<equiv> e_malloc (ev_add ee)"
  shows "\<exists>s' q'. virtio_pci_iospace_write env handle (le_bytes 2 (1 :: u16)) 28 2 s = Some s' \<and> get_vq (vdev s') i = Some q' \<and>
    desc_ring q' = ring \<and> guest_event q' = guest \<and> device_event q' = device \<and> info_enable q' = 1 \<and> info_size q' = info_size q \<and>
    next_avail_idx q' = next_avail_idx q \<and> used_wrap_count q' = used_wrap_count q \<and>
    (\<forall>j. j \<noteq> i \<longrightarrow> get_vq (vdev s') j = get_vq (vdev s) j) \<and> vdev_wf (vdev s') \<and> ram s' = ram s \<and> pci s' = pci s \<and>
    kvm_ioeventfds (ioev s') = kvm_ioeventfds (ioev s) @ [ev] \<and> ioevents (ioev s') = (ioevents (ioev s))(p \<mapsto> ev) \<and>
    epoll_set (ioev s') = epoll_set (ioev s) @ [(ev_fd ev, of_nat p)] \<and> ioevents_ok (ioev s') (ps @ [p])"
  using queue_enable_write [OF assms(1-4), of handle] unfolding ev_def p_def by blast

definition sample_enable :: virtio_state where
  "sample_enable = sample_virtio\<lparr>pci := pci_state_0, ioev := ioeventfd_0\<lparr>init_ioeventfd := True\<rparr>\<rparr>"

definition sample_event_env :: event_env where
  "sample_event_env = \<lparr>ev_eventfd = 9, ev_add = \<lparr>e_ioctl = 0, e_malloc = 0x5000, e_epoll_ctl = 0\<rparr>\<rparr>"

lemma sample_enable_ready:
  "enable_ready sample_enable 0 zero_virtq 0x100000000000 0x100000000000 0x100000000000"
  "notify_at sample_enable 0 0 0" "event_ready (ioev sample_enable) [] (ev_add sample_event_env)"
proof -
  have a: "get_userspace_addr sample_memory 0 = Some 0x100000000000"
    by (simp add: get_userspace_addr_def find_mapper_index_def in_mapper_def sample_memory_def RAM_SIZE_def)
  have z: "info_enable zero_virtq = 0" "info_desc_addr zero_virtq = 0" "info_driver_addr zero_virtq = 0" "info_device_addr zero_virtq = 0"
    by code_simp+
  have sel: "cfg_queue_select (vdev sample_virtio) = 0"
    by (simp add: cfg_queue_select_def sample_virtio_def field_def layout_simps)
  have hdr: "PCI_HDR_READ zero_dev 4 8 = Some (0 :: u8)" "PCI_HDR_READ zero_dev (PCI_BAR_OFFSET 0) 32 = Some (0 :: u32)"
    "PCI_HDR_READ zero_dev 8 32 = Some (0 :: u32)" "PCI_HDR_READ zero_dev 16 32 = Some (0 :: u32)"
    by code_simp+
  show "enable_ready sample_enable 0 zero_virtq 0x100000000000 0x100000000000 0x100000000000"
    using a z sel sample_vdev(1,3) by (simp add: enable_ready_def sample_enable_def get_vq_def) (simp add: sample_virtio_def)
  show "notify_at sample_enable 0 0 0"
    using hdr by (simp add: notify_at_def sample_enable_def sample_virtio_def pci_state_0_def zero_virtio_dev_def)
  show "event_ready (ioev sample_enable) [] (ev_add sample_event_env)"
    using ioevents_ok_0 by (simp add: event_ready_def sample_enable_def sample_event_env_def ioevents_ok_def)
      (simp add: ioeventfd_0_def used_ioevents_def IOEVENT_LIST_def)
qed

theorem virtio_queue_enable_witness:
  "\<exists>s' q'. virtio_pci_iospace_write (\<lambda>_. sample_event_env) (\<lambda>_ s. Some s) (le_bytes 2 (1 :: u16)) 28 2 sample_enable = Some s' \<and>
    get_vq (vdev s') 0 = Some q' \<and> desc_ring q' = 0x100000000000 \<and> info_enable q' = 1"
  using virtio_queue_enable [OF sample_enable_ready(1,2) _ sample_enable_ready(3), of "\<lambda>_. sample_event_env" "\<lambda>_ s. Some s"] by blast

end
