(* ===== verification/Virtio_blk.thy ===== *)
theory Virtio_blk
  imports Virtio_pci
begin

text \<open>
  \<open>src/virtio-blk.c\<close> and \<open>src/virtio-blk.h\<close>: the block device. A request is a chain of
  descriptors: a header, the data, and a status byte. The state adds to the transport the disk
  image (its file contents and the size recorded when it was opened) and the number of
  interrupts sent through the irqfd. \<open>read\<close> and \<open>write\<close> on the image follow POSIX for a
  regular file: they transfer what lies inside the file (a write extends it), and fail with
  \<open>-1\<close> when the buffer is not mapped; whether they fail otherwise is an argument.
\<close>

section \<open>State\<close>

record blk_state = virtio_state +
  disk :: bytes
  disk_size :: u64
  irqs :: nat

record blk_env =
  io_error :: "blk_state \<Rightarrow> bool"
  req_stack :: bytes
  events :: "blk_state \<Rightarrow> event_env"

definition VIRTIO_PCI_DEVICE_ID_BLK :: u16 where "VIRTIO_PCI_DEVICE_ID_BLK = 0x1042"
definition VIRTIO_BLK_PCI_CLASS :: u32 where "VIRTIO_BLK_PCI_CLASS = 0x018000"
definition VIRTIO_BLK_DEVICE_IRQ :: u8 where "VIRTIO_BLK_DEVICE_IRQ = 15"
definition VIRTQUEUE_SIZE :: u16 where "VIRTQUEUE_SIZE = 128"
definition VIRTIO_BLK_VIRTQUEUE_NUM :: nat where "VIRTIO_BLK_VIRTQUEUE_NUM = 1"

text \<open>\<open>struct virtio_blk_req\<close>: the 16 bytes of the header and the pointer \<open>data\<close>.\<close>

definition BLK_REQ_SIZE :: nat where "BLK_REQ_SIZE = 24"

lemmas blk_consts [const_simps] = VIRTIO_PCI_DEVICE_ID_BLK_def VIRTIO_BLK_PCI_CLASS_def VIRTIO_BLK_DEVICE_IRQ_def
  VIRTQUEUE_SIZE_def VIRTIO_BLK_VIRTQUEUE_NUM_def BLK_REQ_SIZE_def

section \<open>The disk image\<close>

text \<open>The comparison \<open>offset < diskimg->size\<close> converts the signed offset to the unsigned type.\<close>

definition diskimg_read :: "blk_env \<Rightarrow> u64 \<Rightarrow> u64 \<Rightarrow> nat \<Rightarrow> blk_state \<Rightarrow> int \<times> blk_state" where
  "diskimg_read env data offset sz s =
     (if offset < disk_size s
      then let bs = take sz (drop (unat offset) (disk s)) in
        if io_error env s \<or> \<not> mapped (hmem (ram s)) (unat data) (length bs) then (- 1, s)
        else (int (length bs), s\<lparr>ram := (ram s)\<lparr>hmem := upd_bytes (hmem (ram s)) (unat data) bs\<rparr>\<rparr>)
      else (- 1, s))"

definition diskimg_write :: "blk_env \<Rightarrow> u64 \<Rightarrow> u64 \<Rightarrow> nat \<Rightarrow> blk_state \<Rightarrow> int \<times> blk_state" where
  "diskimg_write env data offset sz s =
     (if offset < disk_size s
      then (if io_error env s then (- 1, s)
            else case load_bytes (hmem (ram s)) (unat data) sz of
              None \<Rightarrow> (- 1, s)
            | Some bs \<Rightarrow> (int sz, s\<lparr>disk := take (unat offset) (disk s) @ bs @ drop (unat offset + sz) (disk s)\<rparr>))
      else (- 1, s))"

text \<open>The descriptors of the device, and their release: \<open>fds\<close> are the open descriptors of the process. The eventfd
  \<open>ioevent_fd\<close> that \<open>virtio_blk_setup\<close> opens is not among those closed.\<close>

record blk_fds =
  bf_diskimg :: int
  bf_irqfd :: int
  bf_ioevent :: int

definition diskimg_exit :: "int \<Rightarrow> int set \<Rightarrow> int set" where
  "diskimg_exit fd fds = fds - {fd}"

definition virtio_blk_exit :: "blk_fds \<Rightarrow> int set \<Rightarrow> int set" where
  "virtio_blk_exit d fds = diskimg_exit (bf_diskimg d) fds - {bf_irqfd d}"

lemma virtio_blk_exit_open:
  "distinct [bf_diskimg d, bf_irqfd d, bf_ioevent d] \<Longrightarrow> {bf_diskimg d, bf_irqfd d, bf_ioevent d} \<inter> fds = {} \<Longrightarrow>
    virtio_blk_exit d (fds \<union> {bf_diskimg d, bf_irqfd d, bf_ioevent d}) = fds \<union> {bf_ioevent d}"
  by (auto simp: virtio_blk_exit_def diskimg_exit_def)

definition virtio_blk_write :: "blk_env \<Rightarrow> u64 \<Rightarrow> u64 \<Rightarrow> nat \<Rightarrow> blk_state \<Rightarrow> int \<times> blk_state" where
  "virtio_blk_write env data sector sz s = diskimg_write env data (sector * 512) sz s"

definition virtio_blk_read :: "blk_env \<Rightarrow> u64 \<Rightarrow> u64 \<Rightarrow> nat \<Rightarrow> blk_state \<Rightarrow> int \<times> blk_state" where
  "virtio_blk_read env data sector sz s = diskimg_read env data (sector * 512) sz s"

section \<open>Requests\<close>

text \<open>\<open>virtq_get_avail\<close> on queue \<open>i\<close> of the device.\<close>

definition blk_get_avail :: "nat \<Rightarrow> blk_state \<Rightarrow> (u64 option \<times> blk_state) option" where
  "blk_get_avail i s =
     do { q \<leftarrow> get_vq (vdev s) i;
          (desc, q') \<leftarrow> virtq_get_avail (ram s) q;
          Some (desc, s\<lparr>vdev := (vdev s)\<lparr>vq := (vq (vdev s))[i := q']\<rparr>\<rparr>) }"

text \<open>The end of a request: the status byte through the next descriptor, then the used bit and the
  length of the first one. \<open>Inl\<close> is the early return of the handler, \<open>None\<close> undefined
  behaviour, here the dereference of a null descriptor.\<close>

definition blk_finish :: "nat \<Rightarrow> u64 \<Rightarrow> u64 \<Rightarrow> int \<Rightarrow> u8 \<Rightarrow> blk_state \<Rightarrow> (blk_state + blk_state) option" where
  "blk_finish i used_desc desc r status s =
     do { nxt \<leftarrow> virtq_check_next (ram s) desc;
          if \<not> nxt then Some (Inl s)
          else do { (d, s1) \<leftarrow> blk_get_avail i s;
                    desc' \<leftarrow> d;
                    a \<leftarrow> desc_addr (ram s1) desc';
                    p \<leftarrow> get_userspace_addr (ram s1) a;
                    m1 \<leftarrow> host_write (ram s1) p [status];
                    flags \<leftarrow> desc_flags m1 used_desc;
                    m2 \<leftarrow> host_write m1 (used_desc + 14) (le_bytes 2 (flags XOR 2 ^ VRING_PACKED_DESC_F_USED));
                    m3 \<leftarrow> host_write m2 (used_desc + 8) (le_bytes 4 (word_of_int r :: u32));
                    Some (Inr (s1\<lparr>ram := m3\<rparr>)) } }"

definition blk_status :: "int \<Rightarrow> u8" where
  "blk_status r = (if r < 0 then VIRTIO_BLK_S_IOERR else VIRTIO_BLK_S_OK)"

text \<open>One round of the loop for the header descriptor \<open>desc\<close>. \<open>req\<close> is the stack object, which
  keeps its old bytes where the header is shorter.\<close>

definition blk_request :: "blk_env \<Rightarrow> nat \<Rightarrow> u64 \<Rightarrow> bytes \<Rightarrow> blk_state \<Rightarrow> (blk_state + (bytes \<times> blk_state)) option" where
  "blk_request env i desc req s =
     do { a \<leftarrow> desc_addr (ram s) desc;
          p \<leftarrow> get_userspace_addr (ram s) a;
          len \<leftarrow> desc_len (ram s) desc;
          bs \<leftarrow> load_bytes (hmem (ram s)) (unat p) (unat len);
          req' \<leftarrow> obj_write req 0 bs;
          let type = (field req' 0 4 :: u32); sector = (field req' 8 8 :: u64) in
          if type = VIRTIO_BLK_T_IN \<or> type = VIRTIO_BLK_T_OUT
          then do { nxt \<leftarrow> virtq_check_next (ram s) desc;
                    if \<not> nxt then Some (Inl s)
                    else do { (d, s1) \<leftarrow> blk_get_avail i s;
                              desc' \<leftarrow> d;
                              a' \<leftarrow> desc_addr (ram s1) desc';
                              data \<leftarrow> get_userspace_addr (ram s1) a';
                              dlen \<leftarrow> desc_len (ram s1) desc';
                              let (r, s2) = (if type = VIRTIO_BLK_T_IN then virtio_blk_read env data sector (unat dlen) s1
                                             else virtio_blk_write env data sector (unat dlen) s1)
                              in do { res \<leftarrow> blk_finish i desc desc' r (blk_status r) s2;
                                      Some (map_sum id (\<lambda>s. (req', s)) res) } } }
          else do { res \<leftarrow> blk_finish i desc desc 0 VIRTIO_BLK_S_UNSUPP s;
                    Some (map_sum id (\<lambda>s. (req', s)) res) } }"

text \<open>The loop; the first component says whether it ended because no descriptor is available.\<close>

partial_function (option) blk_loop :: "blk_env \<Rightarrow> nat \<Rightarrow> bytes \<Rightarrow> blk_state \<Rightarrow> (bool \<times> blk_state) option" where
  "blk_loop env i req s =
     do { (d, s1) \<leftarrow> blk_get_avail i s;
          case d of None \<Rightarrow> Some (True, s1)
          | Some desc \<Rightarrow>
              do { res \<leftarrow> blk_request env i desc req s1;
                   case res of Inl s2 \<Rightarrow> Some (False, s2) | Inr rs \<Rightarrow> blk_loop env i (fst rs) (snd rs) } }"

text \<open>The interrupt, which is sent when the driver has not disabled it.\<close>

definition blk_interrupt :: "nat \<Rightarrow> blk_state \<Rightarrow> blk_state option" where
  "blk_interrupt i s =
     do { q \<leftarrow> get_vq (vdev s) i;
          flags \<leftarrow> host_load (ram s) (guest_event q + 2) 2;
          if flags = VRING_PACKED_EVENT_FLAG_ENABLE
          then do { d \<leftarrow> config_put ISR_CFG (le_bytes 4 (field (config (vdev s)) ISR_CFG 4 OR 1 :: u32)) (vdev s);
                    Some (s\<lparr>vdev := d, irqs := Suc (irqs s)\<rparr>) }
          else Some s }"

definition virtio_blk_handle_output :: "blk_env \<Rightarrow> nat \<Rightarrow> blk_state \<Rightarrow> blk_state option" where
  "virtio_blk_handle_output env i s =
     do { (drained, s') \<leftarrow> blk_loop env i (req_stack env) s;
          if drained then blk_interrupt i s' else Some s' }"

section \<open>Initialisation\<close>

text \<open>\<open>virtio_blk_setup\<close>: the capacity is the first field of the configuration, and each queue is
  initialised on cleared memory.\<close>

definition virtio_blk_setup :: "blk_state \<Rightarrow> (virtq list \<times> blk_state) option" where
  "virtio_blk_setup s =
     do { cfg \<leftarrow> obj_write (dev_cfg_obj s) 0 (le_bytes 8 (disk_size s div 512));
          q \<leftarrow> virtq_init VIRTQUEUE_SIZE zero_virtq;
          Some (replicate VIRTIO_BLK_VIRTQUEUE_NUM q, s\<lparr>dev_cfg_obj := cfg\<rparr>) }"

text \<open>\<open>cfg_len\<close> is \<open>sizeof(struct virtio_blk_config)\<close>. The ioctl that binds the irqfd only prints
  a message when it fails.\<close>

definition virtio_blk_init_pci :: "nat \<Rightarrow> nat \<Rightarrow> blk_state \<Rightarrow> blk_state option" where
  "virtio_blk_init_pci cfg_len d s =
     do { (qs, s1) \<leftarrow> virtio_blk_setup (s\<lparr>dev_cfg_obj := replicate cfg_len 0\<rparr>);
          s2 \<leftarrow> virtio_pci_init d VIRTIO_PCI_DEVICE_ID_BLK VIRTIO_BLK_PCI_CLASS VIRTIO_BLK_DEVICE_IRQ s1;
          s3 \<leftarrow> virtio_pci_set_dev_cfg (dev_cfg_addr s) (of_nat cfg_len) s2;
          virtio_pci_set_virtq_cfg qs (of_nat VIRTIO_BLK_VIRTQUEUE_NUM) s3 }"

text \<open>\<open>diskimg_init\<close>: \<open>None\<close> is a failed \<open>open\<close>.\<close>

definition diskimg_init :: "bytes option \<Rightarrow> blk_state \<Rightarrow> int \<times> blk_state" where
  "diskimg_init file s =
     (case file of None \<Rightarrow> (- 1, s)
      | Some content \<Rightarrow> (0, s\<lparr>disk := content, disk_size := of_nat (length content)\<rparr>))"

section \<open>Memory under the device's writes\<close>

definition hput :: "memory \<Rightarrow> u64 \<Rightarrow> bytes \<Rightarrow> memory" where
  "hput st p bs = st\<lparr>hmem := upd_bytes (hmem st) (unat p) bs\<rparr>"

lemma hput_Nil [simp]: "hput st p [] = st"
proof -
  have "upd_bytes (hmem st) (unat p) [] = hmem st" by (rule ext) (auto simp: upd_bytes_def)
  then show ?thesis by (simp add: hput_def)
qed

lemma hput_hmem [simp]: "hmem (hput st p bs) = upd_bytes (hmem st) (unat p) bs"
  by (simp add: hput_def)

lemma host_write_hput: "mapped (hmem st) (unat p) (length bs) \<Longrightarrow> host_write st p bs = Some (hput st p bs)"
  by (simp add: host_write_def store_bytes_eq hput_def)

lemma get_userspace_addr_hput [simp]: "get_userspace_addr (hput st p bs) a = get_userspace_addr st a"
  by (simp add: get_userspace_addr_def find_mapper_index_def hput_def)

lemma load_hput_other:
  assumes "mapped (hmem st) (unat p) (length bs)" "mapped (hmem st) a n" "apart (unat p, length bs) (a, n)"
  shows "load_bytes (hmem (hput st p bs)) a n = load_bytes (hmem st) a n"
  using host_store.rd_wr_other [OF assms(1) _ assms(2,3)] assms(1) by (simp add: store_bytes_eq hput_def)

lemma load_hput_same:
  "mapped (hmem st) (unat p) (length bs) \<Longrightarrow> load_bytes (hmem (hput st p bs)) (unat p) (length bs) = Some bs"
  by (simp add: load_upd_bytes_same)

text \<open>Writes apart from the ring leave its descriptors alone.\<close>

definition ring_extent :: "virtq \<Rightarrow> nat \<times> nat" where
  "ring_extent q = (unat (desc_ring q), 16 * unat (info_size q))"

lemma desc_extent:
  assumes "ring_mapped st q" "0 < info_size q" "k + n \<le> 16"
  shows "k < 16 \<Longrightarrow> unat (desc_at q p + of_nat k) = unat (desc_at q p) + k"
    "mapped (hmem st) (unat (desc_at q p) + k) n"
    "fst (ring_extent q) \<le> unat (desc_at q p)" "unat (desc_at q p) + 16 \<le> fst (ring_extent q) + snd (ring_extent q)"
proof -
  have b: "unat (desc_at q p) = unat (desc_ring q) + 16 * (p mod unat (info_size q))"
    "16 * (p mod unat (info_size q)) + 16 \<le> 16 * unat (info_size q)"
    using unat_desc_at [OF assms(1,2), of 0 p] by auto
  show "unat (desc_at q p + of_nat k) = unat (desc_at q p) + k" if "k < 16"
    using unat_desc_at(1) [OF assms(1,2) that, of p] b(1) by simp
  show "mapped (hmem st) (unat (desc_at q p) + k) n"
    using assms(1,3) b by (auto simp: ring_mapped_def intro: mapped_sub)
  show "fst (ring_extent q) \<le> unat (desc_at q p)" "unat (desc_at q p) + 16 \<le> fst (ring_extent q) + snd (ring_extent q)"
    using b by (auto simp: ring_extent_def)
qed

lemma ring_frame:
  assumes r: "ring_mapped st q" "0 < info_size q" and w: "mapped (hmem st) (unat a) (length bs)"
    and "apart (ring_extent q) (unat a, length bs)"
  shows "desc_flags (hput st a bs) (desc_at q p) = desc_flags st (desc_at q p)"
    "desc_addr (hput st a bs) (desc_at q p) = desc_addr st (desc_at q p)"
    "desc_len (hput st a bs) (desc_at q p) = desc_len st (desc_at q p)"
    "ring_mapped (hput st a bs) q"
proof -
  have f: "load_bytes (hmem (hput st a bs)) (unat (desc_at q p) + k) n = load_bytes (hmem st) (unat (desc_at q p) + k) n"
    if "k + n \<le> 16" for k n
    using desc_extent(2-4) [OF r that, of p] that assms(4)
    by (intro load_hput_other [OF w]) (auto simp: apart_def)
  show "desc_flags (hput st a bs) (desc_at q p) = desc_flags st (desc_at q p)"
    using f [of 14 2] desc_extent(1) [OF r, of 14 2 p] by (simp add: desc_flags_def host_load_def)
  show "desc_addr (hput st a bs) (desc_at q p) = desc_addr st (desc_at q p)"
    using f [of 0 8] by (simp add: desc_addr_def host_load_def)
  show "desc_len (hput st a bs) (desc_at q p) = desc_len st (desc_at q p)"
    using f [of 8 4] desc_extent(1) [OF r, of 8 4 p] by (simp add: desc_len_def host_load_def)
  show "ring_mapped (hput st a bs) q" using r(1) w by (simp add: ring_mapped_def)
qed

text \<open>Marking a descriptor used.\<close>

definition mark_used :: "u64 \<Rightarrow> u16 \<Rightarrow> u32 \<Rightarrow> memory \<Rightarrow> memory" where
  "mark_used desc flags len st = hput (hput st (desc + 14) (le_bytes 2 flags)) (desc + 8) (le_bytes 4 len)"

lemma mark_used:
  fixes p :: nat
  assumes r: "ring_mapped st q" "0 < info_size q"
  defines "d \<equiv> desc_at q p"
  shows "host_write st (d + 14) (le_bytes 2 flags) = Some (hput st (d + 14) (le_bytes 2 flags))"
    "host_write (hput st (d + 14) (le_bytes 2 flags)) (d + 8) (le_bytes 4 len) = Some (mark_used d flags len st)"
    "desc_flags (mark_used d flags len st) d = Some flags" "desc_len (mark_used d flags len st) d = Some len"
    "ring_mapped (mark_used d flags len st) q"
    "mapped (hmem st) a n \<Longrightarrow> apart (ring_extent q) (a, n) \<Longrightarrow>
       load_bytes (hmem (mark_used d flags len st)) a n = load_bytes (hmem st) a n"
proof -
  let ?m = "hput st (d + 14) (le_bytes 2 flags)" and ?f = "le_bytes 2 flags" and ?l = "le_bytes 4 len"
  have a14: "unat (d + 14) = unat d + 14" and a8: "unat (d + 8) = unat d + 8"
    using desc_extent(1) [OF r, of 14 2 p] desc_extent(1) [OF r, of 8 4 p] by (simp_all add: d_def)
  have m14: "mapped (hmem st) (unat (d + 14)) (length ?f)" and m8: "mapped (hmem st) (unat (d + 8)) (length ?l)"
    unfolding a14 a8 using desc_extent(2) [OF r, of 14 2 p] desc_extent(2) [OF r, of 8 4 p] by (simp_all add: d_def)
  then have m8': "mapped (hmem ?m) (unat (d + 8)) (length ?l)" by simp
  show "host_write st (d + 14) ?f = Some ?m" using m14 by (rule host_write_hput)
  show "host_write ?m (d + 8) ?l = Some (mark_used d flags len st)"
    using host_write_hput [OF m8'] by (simp add: mark_used_def)
  have "load_bytes (hmem (mark_used d flags len st)) (unat (d + 14)) 2 = load_bytes (hmem ?m) (unat (d + 14)) 2"
    unfolding mark_used_def using m8' m14 a8 a14 by (intro load_hput_other) (auto simp: apart_def)
  then show "desc_flags (mark_used d flags len st) d = Some flags"
    using load_hput_same [OF m14] by (simp add: desc_flags_def host_load_def)
  show "desc_len (mark_used d flags len st) d = Some len"
    using load_hput_same [OF m8'] by (simp add: desc_len_def host_load_def mark_used_def)
  show "ring_mapped (mark_used d flags len st) q"
    using r(1) m14 m8' by (simp add: mark_used_def ring_mapped_def)
  show "load_bytes (hmem (mark_used d flags len st)) a n = load_bytes (hmem st) a n"
    if "mapped (hmem st) a n" "apart (ring_extent q) (a, n)"
  proof -
    note e = desc_extent(3,4) [OF r, of 0 0 p, folded d_def]
    have "load_bytes (hmem (mark_used d flags len st)) a n = load_bytes (hmem ?m) a n"
      unfolding mark_used_def using that m8' m14 e a8 by (intro load_hput_other) (auto simp: apart_def)
    also have "\<dots> = load_bytes (hmem st) a n"
      using that m14 e a14 by (intro load_hput_other) (auto simp: apart_def)
    finally show ?thesis .
  qed
qed

section \<open>Chains of descriptors\<close>

definition blk_at :: "blk_state \<Rightarrow> nat \<Rightarrow> virtq \<Rightarrow> nat \<Rightarrow> bool" where
  "blk_at s i q p \<longleftrightarrow> get_vq (vdev s) i = Some q \<and> vq_at q p \<and> ring_mapped (ram s) q"

definition set_vq :: "nat \<Rightarrow> virtq \<Rightarrow> blk_state \<Rightarrow> blk_state" where
  "set_vq i q s = s\<lparr>vdev := (vdev s)\<lparr>vq := (vq (vdev s))[i := q]\<rparr>\<rparr>"

lemma set_vq_simps [simp]:
  "ram (set_vq i q s) = ram s" "disk (set_vq i q s) = disk s" "disk_size (set_vq i q s) = disk_size s"
  "set_vq i q' (set_vq i q s) = set_vq i q' s" "irqs (set_vq i q s) = irqs s"
  "config (vdev (set_vq i q s)) = config (vdev s)"
  by (simp_all add: set_vq_def)

lemma advance_ring: "desc_ring (virtq_advance q) = desc_ring q" "guest_event (virtq_advance q) = guest_event q"
  "info_size (virtq_advance q) = info_size q"
  by (simp_all add: virtq_advance_def Let_def info_size_def)

lemma ring_mapped_advance [simp]: "ring_mapped st (virtq_advance q) = ring_mapped st q"
  and ring_extent_advance [simp]: "ring_extent (virtq_advance q) = ring_extent q"
  and desc_at_advance [simp]: "desc_at (virtq_advance q) p = desc_at q p"
  by (simp_all add: ring_mapped_def ring_extent_def desc_at_def advance_ring)

lemma blk_at_set_vq:
  "get_vq (vdev s) i = Some q \<Longrightarrow> vq_at q' p \<Longrightarrow> ring_mapped (ram s) q' \<Longrightarrow> blk_at (set_vq i q' s) i q' p"
  by (simp add: blk_at_def set_vq_def get_vq_def split: if_splits)

lemma blk_at_size: "blk_at s i q p \<Longrightarrow> 0 < info_size q"
  by (simp add: blk_at_def vq_at_def)

lemma blk_at_frame:
  assumes "blk_at s i q p" "vdev s' = vdev s" "ring_mapped (ram s') q"
  shows "blk_at s' i q p"
  using assms by (simp add: blk_at_def)

lemma blk_get_avail_at:
  assumes at: "blk_at s i q p" and f: "desc_flags (ram s) (desc_at q p) = Some f" "avail_flags (unat (info_size q)) p f"
  shows "blk_get_avail i s = Some (Some (desc_at q p), set_vq i (virtq_advance q) s)"
    "blk_at (set_vq i (virtq_advance q) s) i (virtq_advance q) (Suc p)"
proof -
  have v: "vq_at q p" using at by (simp add: blk_at_def)
  show "blk_get_avail i s = Some (Some (desc_at q p), set_vq i (virtq_advance q) s)"
    using at get_avail_step [OF v f(1)] f(2) by (simp add: blk_get_avail_def blk_at_def set_vq_def)
  show "blk_at (set_vq i (virtq_advance q) s) i (virtq_advance q) (Suc p)"
    using at vq_at_advance(1) [OF v] by (intro blk_at_set_vq) (auto simp: blk_at_def)
qed

lemma check_next: "desc_flags st d = Some f \<Longrightarrow> virtq_check_next st d = Some (bit f 0)"
  using and_exp_eq_0_iff_not_bit [of f 0] by (simp add: virtq_check_next_def const_simps)

lemma blk_finish_ok:
  assumes at: "blk_at s i q k" and nxt: "desc_flags (ram s) (desc_at q j) = Some fj" "bit fj 0"
    and fk: "desc_flags (ram s) (desc_at q k) = Some fk" "avail_flags (unat (info_size q)) k fk"
    and a: "desc_addr (ram s) (desc_at q k) = Some a" "get_userspace_addr (ram s) a = Some sp"
    and sp: "mapped (hmem (ram s)) (unat sp) 1" "apart (ring_extent q) (unat sp, 1)"
    and f0: "desc_flags (ram s) (desc_at q p) = Some f0"
  shows "blk_finish i (desc_at q p) (desc_at q j) r status s =
    Some (Inr ((set_vq i (virtq_advance q) s)\<lparr>ram := mark_used (desc_at q p) (f0 XOR 2 ^ VRING_PACKED_DESC_F_USED)
       (word_of_int r) (hput (ram s) sp [status])\<rparr>))"
proof -
  have ring: "ring_mapped (ram s) q" "0 < info_size q" using at blk_at_size by (auto simp: blk_at_def)
  have w: "mapped (hmem (ram s)) (unat sp) (length [status])" "apart (ring_extent q) (unat sp, length [status])"
    using sp by simp_all
  note fr = ring_frame [OF ring w]
  note mk = mark_used(1,2) [OF fr(4) ring(2)]
  show ?thesis
    using check_next [OF nxt(1)] nxt(2) blk_get_avail_at [OF at fk] a host_write_hput [OF w(1)] fr(1) [of p] f0 mk
    by (simp add: blk_finish_def)
qed

text \<open>A chain of three descriptors from position \<open>p\<close>: a 16-byte header with the type and the
  sector, a data buffer of \<open>n\<close> bytes at the host address \<open>data\<close>, and a status byte. The buffers
  are mapped and apart from the ring and each other.\<close>

definition blk_chain ::
    "blk_state \<Rightarrow> virtq \<Rightarrow> nat \<Rightarrow> u16 \<Rightarrow> u32 \<Rightarrow> u64 \<Rightarrow> u64 \<Rightarrow> nat \<Rightarrow> u64 \<Rightarrow> bool" where
  "blk_chain s q p f0 type sector data n status \<longleftrightarrow>
     (\<exists>f1 f2 a0 a1 a2 hdr h l1.
        (let st = ram s; sz = unat (info_size q) in
         desc_flags st (desc_at q p) = Some f0 \<and> avail_flags sz p f0 \<and> bit f0 0 \<and>
         desc_flags st (desc_at q (Suc p)) = Some f1 \<and> avail_flags sz (Suc p) f1 \<and> bit f1 0 \<and>
         desc_flags st (desc_at q (Suc (Suc p))) = Some f2 \<and> avail_flags sz (Suc (Suc p)) f2 \<and>
         desc_addr st (desc_at q p) = Some a0 \<and> get_userspace_addr st a0 = Some hdr \<and> desc_len st (desc_at q p) = Some 16 \<and>
         load_bytes (hmem st) (unat hdr) 16 = Some (le_bytes 4 type @ h @ le_bytes 8 sector) \<and> length h = 4 \<and>
         desc_addr st (desc_at q (Suc p)) = Some a1 \<and> get_userspace_addr st a1 = Some data \<and>
         desc_len st (desc_at q (Suc p)) = Some l1 \<and> unat l1 = n \<and>
         desc_addr st (desc_at q (Suc (Suc p))) = Some a2 \<and> get_userspace_addr st a2 = Some status \<and>
         mapped (hmem st) (unat data) n \<and> mapped (hmem st) (unat status) 1 \<and>
         apart (ring_extent q) (unat data, n) \<and> apart (ring_extent q) (unat status, 1) \<and> apart (unat data, n) (unat status, 1)))"

lemma apart_le: "apart x (a, n) \<Longrightarrow> k \<le> n \<Longrightarrow> apart x (a, k)"
  by (auto simp: apart_def)

lemma mapped_le: "mapped m a n \<Longrightarrow> k \<le> n \<Longrightarrow> mapped m a k"
  by (simp add: mapped_def)

text \<open>What the transfer of a request does to the state: the result, the bytes stored in the data
  buffer and the disk afterwards.\<close>

definition blk_transfer :: "blk_env \<Rightarrow> u32 \<Rightarrow> u64 \<Rightarrow> u64 \<Rightarrow> nat \<Rightarrow> blk_state \<Rightarrow> int \<times> blk_state" where
  "blk_transfer env type sector data n s =
     (if type = VIRTIO_BLK_T_IN then virtio_blk_read env data sector n s else virtio_blk_write env data sector n s)"

lemma blk_chain_request:
  assumes at: "blk_at s i q p" and ch: "blk_chain s q p f0 type sector data n status" and req: "length req = BLK_REQ_SIZE"
    and type: "type = VIRTIO_BLK_T_IN \<or> type = VIRTIO_BLK_T_OUT"
  defines "q2 \<equiv> virtq_advance (virtq_advance q)"
  assumes tr: "blk_transfer env type sector data n (set_vq i q2 s) =
      (r, (set_vq i q2 s)\<lparr>ram := hput (ram s) data bs, disk := dk\<rparr>)" "length bs \<le> n"
  shows "\<exists>req'. length req' = BLK_REQ_SIZE \<and> blk_get_avail i s = Some (Some (desc_at q p), set_vq i (virtq_advance q) s) \<and>
    blk_request env i (desc_at q p) req (set_vq i (virtq_advance q) s) =
      Some (Inr (req', (set_vq i (virtq_advance q2) s)\<lparr>disk := dk,
        ram := mark_used (desc_at q p) (f0 XOR 2 ^ VRING_PACKED_DESC_F_USED) (word_of_int r)
                 (hput (hput (ram s) data bs) status [blk_status r])\<rparr>))"
proof -
  define q1 where "q1 = virtq_advance q"
  obtain f1 f2 a0 a1 a2 hdr h l1 where
    f: "desc_flags (ram s) (desc_at q p) = Some f0" "avail_flags (unat (info_size q)) p f0" "bit f0 0"
      "desc_flags (ram s) (desc_at q (Suc p)) = Some f1" "avail_flags (unat (info_size q)) (Suc p) f1" "bit f1 0"
      "desc_flags (ram s) (desc_at q (Suc (Suc p))) = Some f2" "avail_flags (unat (info_size q)) (Suc (Suc p)) f2"
    and hdr: "desc_addr (ram s) (desc_at q p) = Some a0" "get_userspace_addr (ram s) a0 = Some hdr"
      "desc_len (ram s) (desc_at q p) = Some 16"
      "load_bytes (hmem (ram s)) (unat hdr) 16 = Some (le_bytes 4 type @ h @ le_bytes 8 sector)" "length h = 4"
    and data: "desc_addr (ram s) (desc_at q (Suc p)) = Some a1" "get_userspace_addr (ram s) a1 = Some data"
      "desc_len (ram s) (desc_at q (Suc p)) = Some l1" "unat l1 = n"
    and st: "desc_addr (ram s) (desc_at q (Suc (Suc p))) = Some a2" "get_userspace_addr (ram s) a2 = Some status"
    and m: "mapped (hmem (ram s)) (unat data) n" "mapped (hmem (ram s)) (unat status) 1"
      "apart (ring_extent q) (unat data, n)" "apart (ring_extent q) (unat status, 1)"
    using ch unfolding blk_chain_def Let_def by blast
  note g0 = blk_get_avail_at [OF at f(1,2), folded q1_def]
  have "desc_flags (ram (set_vq i q1 s)) (desc_at q1 (Suc p)) = Some f1" "avail_flags (unat (info_size q1)) (Suc p) f1"
    using f by (simp_all add: q1_def advance_ring)
  from blk_get_avail_at [OF g0(2) this]
  have g1: "blk_get_avail i (set_vq i q1 s) = Some (Some (desc_at q (Suc p)), set_vq i q2 s)"
    "blk_at (set_vq i q2 s) i q2 (Suc (Suc p))"
    by (simp_all add: q2_def q1_def)
  let ?s2 = "set_vq i q2 s" and ?st = "hput (ram s) data bs"
  define s3 where "s3 = ?s2\<lparr>ram := ?st, disk := dk\<rparr>"
  have ring: "ring_mapped (ram s) q" "0 < info_size q" using at blk_at_size by (auto simp: blk_at_def)
  have w: "mapped (hmem (ram s)) (unat data) (length bs)" "apart (ring_extent q) (unat data, length bs)"
    using m tr(2) mapped_le apart_le by blast+
  note fr = ring_frame [OF ring w]
  have at3: "blk_at s3 i q2 (Suc (Suc p))"
    using g1(2) by (rule blk_at_frame) (auto simp: s3_def q2_def fr(4))
  define req' where "req' = le_bytes 4 type @ h @ le_bytes 8 sector @ drop 16 req"
  have rq: "obj_write req 0 (le_bytes 4 type @ h @ le_bytes 8 sector) = Some req'" "length req' = BLK_REQ_SIZE"
    using req hdr(5) by (simp_all add: obj_write_def req'_def const_simps)
  have fl: "field req' 0 4 = type" "field req' 8 8 = sector"
    using hdr(5) by (simp_all add: field_def req'_def)
  have fin: "blk_finish i (desc_at q p) (desc_at q (Suc p)) r (blk_status r) s3 =
      Some (Inr ((set_vq i (virtq_advance q2) s3)\<lparr>ram := mark_used (desc_at q p) (f0 XOR 2 ^ VRING_PACKED_DESC_F_USED)
        (word_of_int r) (hput ?st status [blk_status r])\<rparr>))"
  proof -
    have q2d: "desc_at q2 = desc_at q" "info_size q2 = info_size q" "ring_extent q2 = ring_extent q"
      by (auto simp: q2_def advance_ring fun_eq_iff)
    show ?thesis
      using blk_finish_ok [OF at3, unfolded q2d, of "Suc p" f1 f2 a2 status p f0 r "blk_status r"] f st fr(1,2) m w(1)
      by (simp add: s3_def)
  qed
  have "(if type = VIRTIO_BLK_T_IN then virtio_blk_read env data sector n (set_vq i q2 s)
      else virtio_blk_write env data sector n (set_vq i q2 s)) = (r, s3)"
    using tr(1) by (simp add: blk_transfer_def s3_def)
  moreover have "set_vq i (virtq_advance q2) s3 = (set_vq i (virtq_advance q2) s)\<lparr>ram := ?st, disk := dk\<rparr>"
    by (simp add: s3_def set_vq_def)
  ultimately have "blk_request env i (desc_at q p) req (set_vq i q1 s) =
      Some (Inr (req', (set_vq i (virtq_advance q2) s)\<lparr>disk := dk,
        ram := mark_used (desc_at q p) (f0 XOR 2 ^ VRING_PACKED_DESC_F_USED) (word_of_int r)
                 (hput ?st status [blk_status r])\<rparr>))"
    using hdr data rq(1) fl type check_next [OF f(1)] f(3) g1(1) fin
    by (cases "type = VIRTIO_BLK_T_IN") (simp_all add: blk_request_def Let_def)
  then show ?thesis using g0(1) rq(2) unfolding q1_def by blast
qed

text \<open>Guest memory after a request.\<close>

lemma blk_memory_after:
  fixes p :: nat and flags :: u16 and len :: u32 and b :: u8
  assumes r: "ring_mapped st q" "0 < info_size q"
    and d: "mapped (hmem st) (unat data) (length bs)" "apart (ring_extent q) (unat data, length bs)"
    and s: "mapped (hmem st) (unat status) 1" "apart (ring_extent q) (unat status, 1)"
    and ds: "apart (unat data, length bs) (unat status, 1)"
  defines "m \<equiv> mark_used (desc_at q p) flags len (hput (hput st data bs) status [b])"
  shows "load_bytes (hmem m) (unat data) (length bs) = Some bs" "load_bytes (hmem m) (unat status) 1 = Some [b]"
    "desc_flags m (desc_at q p) = Some flags" "desc_len m (desc_at q p) = Some len" "ring_mapped m q"
    "mapped (hmem st) a n \<Longrightarrow> apart (ring_extent q) (a, n) \<Longrightarrow> apart (unat data, length bs) (a, n) \<Longrightarrow>
       apart (unat status, 1) (a, n) \<Longrightarrow> load_bytes (hmem m) a n = load_bytes (hmem st) a n"
proof -
  let ?m1 = "hput st data bs"
  let ?m2 = "hput ?m1 status [b]"
  have s1: "mapped (hmem ?m1) (unat status) (length [b])" using d(1) s(1) by simp
  have r1: "ring_mapped ?m1 q" using ring_frame(4) [OF r d] .
  have r2: "ring_mapped ?m2 q" using ring_frame(4) [OF r1 r(2) s1] s(2) by simp
  have mk: "load_bytes (hmem m) a n = load_bytes (hmem ?m2) a n"
    if "mapped (hmem ?m2) a n" "apart (ring_extent q) (a, n)" for a n
    unfolding m_def using mark_used(6) [OF r2 r(2) that] .
  have m12: "mapped (hmem ?m2) a n = mapped (hmem st) a n" for a n using d(1) s1 by simp
  have l: "load_bytes (hmem m) a n = load_bytes (hmem ?m1) a n"
    if "mapped (hmem st) a n" "apart (ring_extent q) (a, n)" "apart (unat status, 1) (a, n)" for a n
    using mk [of a n] load_hput_other [OF s1, of a n] that d(1) m12 by simp
  show "load_bytes (hmem m) (unat data) (length bs) = Some bs"
    using l [OF d] ds load_hput_same [OF d(1)] by (simp add: apart_sym)
  show "load_bytes (hmem m) (unat status) 1 = Some [b]"
    using mk [of "unat status" 1] s m12 load_hput_same [OF s1] by simp
  show "load_bytes (hmem m) a n = load_bytes (hmem st) a n"
    if "mapped (hmem st) a n" "apart (ring_extent q) (a, n)" "apart (unat data, length bs) (a, n)" "apart (unat status, 1) (a, n)"
    using l [OF that(1,2,4)] load_hput_other [OF d(1) that(1,3)] by simp
  show "desc_flags m (desc_at q p) = Some flags" "desc_len m (desc_at q p) = Some len" "ring_mapped m q"
    unfolding m_def using mark_used(3-5) [OF r2 r(2)] by blast+
qed

lemma blk_chain_facts:
  assumes "blk_chain s q p f0 type sector data n status" "k \<le> n"
  shows "mapped (hmem (ram s)) (unat data) k" "apart (ring_extent q) (unat data, k)" "mapped (hmem (ram s)) (unat status) 1"
    "apart (ring_extent q) (unat status, 1)" "apart (unat data, k) (unat status, 1)"
proof -
  have *: "mapped (hmem (ram s)) (unat data) n" "apart (ring_extent q) (unat data, n)" "mapped (hmem (ram s)) (unat status) 1"
    "apart (ring_extent q) (unat status, 1)" "apart (unat data, n) (unat status, 1)"
    using assms(1) unfolding blk_chain_def Let_def by blast+
  then show "mapped (hmem (ram s)) (unat data) k" "apart (ring_extent q) (unat data, k)" "mapped (hmem (ram s)) (unat status) 1"
    "apart (ring_extent q) (unat status, 1)" "apart (unat data, k) (unat status, 1)"
    using assms(2) mapped_le apart_le by (auto simp: apart_sym [of "(unat data, _)"])
qed

text \<open>One request, from the loop's point of view.\<close>

lemma blk_loop_request:
  assumes at: "blk_at s i q p" and ch: "blk_chain s q p f0 type sector data n status" and req: "length req = BLK_REQ_SIZE"
    and type: "type = VIRTIO_BLK_T_IN \<or> type = VIRTIO_BLK_T_OUT"
  defines "q3 \<equiv> virtq_advance (virtq_advance (virtq_advance q))"
  assumes tr: "blk_transfer env type sector data n (set_vq i (virtq_advance (virtq_advance q)) s) =
      (r, (set_vq i (virtq_advance (virtq_advance q)) s)\<lparr>ram := hput (ram s) data bs, disk := dk\<rparr>)" "length bs \<le> n"
  shows "\<exists>req' s'. length req' = BLK_REQ_SIZE \<and> blk_loop env i req s = blk_loop env i req' s' \<and>
    blk_at s' i q3 (p + 3) \<and> disk s' = dk \<and> disk_size s' = disk_size s \<and> irqs s' = irqs s \<and>
    load_bytes (hmem (ram s')) (unat data) (length bs) = Some bs \<and>
    load_bytes (hmem (ram s')) (unat status) 1 = Some [blk_status r] \<and>
    desc_flags (ram s') (desc_at q p) = Some (f0 XOR 2 ^ VRING_PACKED_DESC_F_USED) \<and>
    desc_len (ram s') (desc_at q p) = Some (word_of_int r) \<and>
    (\<forall>a k. mapped (hmem (ram s)) a k \<longrightarrow> apart (ring_extent q) (a, k) \<longrightarrow> apart (unat data, length bs) (a, k) \<longrightarrow>
       apart (unat status, 1) (a, k) \<longrightarrow> load_bytes (hmem (ram s')) a k = load_bytes (hmem (ram s)) a k)"
proof -
  let ?m = "mark_used (desc_at q p) (f0 XOR 2 ^ VRING_PACKED_DESC_F_USED) (word_of_int r) (hput (hput (ram s) data bs) status [blk_status r])"
  define s' where "s' = (set_vq i q3 s)\<lparr>disk := dk, ram := ?m\<rparr>"
  obtain req' where req': "length req' = BLK_REQ_SIZE"
      "blk_get_avail i s = Some (Some (desc_at q p), set_vq i (virtq_advance q) s)"
      "blk_request env i (desc_at q p) req (set_vq i (virtq_advance q) s) = Some (Inr (req', s'))"
    using blk_chain_request [OF at ch req type tr] unfolding s'_def q3_def by blast
  have loop: "blk_loop env i req s = blk_loop env i req' s'"
    by (subst blk_loop.simps) (simp add: req')
  have ring: "ring_mapped (ram s) q" "0 < info_size q" using at blk_at_size by (auto simp: blk_at_def)
  note mem = blk_memory_after [OF ring blk_chain_facts [OF ch tr(2)]]
  have v: "vq_at q p" using at by (simp add: blk_at_def)
  have "vq_at q3 (p + 3)"
    using vq_at_advance(1) [OF vq_at_advance(1) [OF vq_at_advance(1) [OF v]]] by (simp add: q3_def numeral_3_eq_3)
  then have "blk_at (set_vq i q3 s) i q3 (p + 3)"
    using at ring(1) by (intro blk_at_set_vq [of s i q]) (auto simp: q3_def blk_at_def)
  then have "blk_at s' i q3 (p + 3)"
    by (rule blk_at_frame) (auto simp: s'_def q3_def mem(5))
  then show ?thesis
    using req'(1) loop mem(1-4,6) by (intro exI [of _ req'] exI [of _ s']) (simp add: s'_def)
qed

section \<open>Properties\<close>

text \<open>A read request: for a well-formed chain at the device's position and a sector
  inside the image, one round of the handler puts the sectors into the guest's buffer (as many
  bytes as the image has there), writes the status OK, marks the first descriptor used with
  that length, moves three descriptors on, changes neither the image nor any other memory, and
  goes on with the loop.\<close>

theorem virtio_blk_read_request:
  assumes "blk_at s i q p" "blk_chain s q p f0 VIRTIO_BLK_T_IN sector data n status" "length req = BLK_REQ_SIZE"
    and "\<forall>t. \<not> io_error env t" "sector * 512 < disk_size s"
  defines "bs \<equiv> take n (drop (unat (sector * 512)) (disk s))"
  shows "\<exists>req' s' q'. length req' = BLK_REQ_SIZE \<and> blk_loop env i req s = blk_loop env i req' s' \<and>
    blk_at s' i q' (p + 3) \<and> disk s' = disk s \<and>
    load_bytes (hmem (ram s')) (unat data) (length bs) = Some bs \<and>
    load_bytes (hmem (ram s')) (unat status) 1 = Some [VIRTIO_BLK_S_OK] \<and>
    desc_flags (ram s') (desc_at q p) = Some (f0 XOR 2 ^ VRING_PACKED_DESC_F_USED) \<and>
    desc_len (ram s') (desc_at q p) = Some (of_nat (length bs)) \<and>
    (\<forall>a k. mapped (hmem (ram s)) a k \<longrightarrow> apart (ring_extent q) (a, k) \<longrightarrow> apart (unat data, length bs) (a, k) \<longrightarrow>
       apart (unat status, 1) (a, k) \<longrightarrow> load_bytes (hmem (ram s')) a k = load_bytes (hmem (ram s)) a k)"
proof -
  have n: "length bs \<le> n" by (simp add: bs_def)
  let ?s2 = "set_vq i (virtq_advance (virtq_advance q)) s"
  have "blk_transfer env VIRTIO_BLK_T_IN sector data n ?s2 =
      (int (length bs), ?s2\<lparr>ram := hput (ram s) data bs, disk := disk s\<rparr>)"
    using assms(4,5) blk_chain_facts(1) [OF assms(2) n]
    by (simp add: blk_transfer_def virtio_blk_read_def diskimg_read_def Let_def bs_def [symmetric] hput_def set_vq_def)
  from blk_loop_request [OF assms(1-3) _ this n] show ?thesis
    by (auto simp: blk_status_def)
qed

text \<open>A write request: the guest's buffer replaces exactly the addressed bytes of the
  image (so that reading them back gives the buffer), the status is OK, and guest memory
  changes only in the status byte and the ring.\<close>

theorem virtio_blk_write_request:
  assumes "blk_at s i q p" "blk_chain s q p f0 VIRTIO_BLK_T_OUT sector data n status" "length req = BLK_REQ_SIZE"
    and "\<forall>t. \<not> io_error env t" "sector * 512 < disk_size s" "unat (disk_size s) = length (disk s)"
  defines "off \<equiv> unat (sector * 512)"
  shows "\<exists>req' s' q' bs. length req' = BLK_REQ_SIZE \<and> blk_loop env i req s = blk_loop env i req' s' \<and>
    blk_at s' i q' (p + 3) \<and> load_bytes (hmem (ram s)) (unat data) n = Some bs \<and>
    take n (drop off (disk s')) = bs \<and> take off (disk s') = take off (disk s) \<and>
    drop (off + n) (disk s') = drop (off + n) (disk s) \<and>
    load_bytes (hmem (ram s')) (unat status) 1 = Some [VIRTIO_BLK_S_OK] \<and>
    desc_flags (ram s') (desc_at q p) = Some (f0 XOR 2 ^ VRING_PACKED_DESC_F_USED) \<and>
    (\<forall>a k. mapped (hmem (ram s)) a k \<longrightarrow> apart (ring_extent q) (a, k) \<longrightarrow>
       apart (unat status, 1) (a, k) \<longrightarrow> load_bytes (hmem (ram s')) a k = load_bytes (hmem (ram s)) a k)"
proof -
  let ?s2 = "set_vq i (virtq_advance (virtq_advance q)) s"
  obtain bs where bs: "load_bytes (hmem (ram s)) (unat data) n = Some bs" "length bs = n"
    using host_store.rd_total [OF blk_chain_facts(1) [OF assms(2), of n]] by auto
  define dk where "dk = take off (disk s) @ bs @ drop (off + n) (disk s)"
  have off: "off < length (disk s)" using assms(5,6) by (simp add: off_def word_less_nat_alt)
  have "blk_transfer env VIRTIO_BLK_T_OUT sector data n ?s2 = (int n, ?s2\<lparr>ram := hput (ram s) data [], disk := dk\<rparr>)"
    using assms(4,5) bs
    by (simp add: blk_transfer_def virtio_blk_write_def diskimg_write_def dk_def off_def const_simps set_vq_def)
  from blk_loop_request [OF assms(1-3) _ this] obtain req' s' where
    s': "length req' = BLK_REQ_SIZE" "blk_loop env i req s = blk_loop env i req' s'"
      "blk_at s' i (virtq_advance (virtq_advance (virtq_advance q))) (p + 3)" "disk s' = dk"
      "load_bytes (hmem (ram s')) (unat status) 1 = Some [VIRTIO_BLK_S_OK]"
      "desc_flags (ram s') (desc_at q p) = Some (f0 XOR 2 ^ VRING_PACKED_DESC_F_USED)"
      "\<forall>a k. mapped (hmem (ram s)) a k \<longrightarrow> apart (ring_extent q) (a, k) \<longrightarrow> apart (unat data, 0) (a, k) \<longrightarrow>
         apart (unat status, 1) (a, k) \<longrightarrow> load_bytes (hmem (ram s')) a k = load_bytes (hmem (ram s)) a k"
    by (auto simp: blk_status_def)
  have "load_bytes (hmem (ram s')) a k = load_bytes (hmem (ram s)) a k"
    if "mapped (hmem (ram s)) a k" "apart (ring_extent q) (a, k)" "apart (unat status, 1) (a, k)" for a k
  proof (cases "apart (unat data, 0) (a, k)")
    case True
    then show ?thesis using s'(7) that by blast
  next
    case False
    define j where "j = unat data - a"
    have k: "k = j + (k - j)" "a + j = unat data" using False by (auto simp: j_def apart_def)
    have "load_bytes (hmem (ram s')) a j = load_bytes (hmem (ram s)) a j"
      "load_bytes (hmem (ram s')) (a + j) (k - j) = load_bytes (hmem (ram s)) (a + j) (k - j)"
      using that k by (auto intro!: s'(7) [rule_format] mapped_sub [OF that(1)] simp: apart_def)
    then show ?thesis using load_bytes_add [of _ a j "k - j"] k(1) by metis
  qed
  moreover have "take n (drop off dk) = bs" "take off dk = take off (disk s)" "drop (off + n) dk = drop (off + n) (disk s)"
    using bs(2) off by (simp_all add: dk_def)
  ultimately show ?thesis using s' bs(1) by blast
qed

text \<open>Property C33. Error paths of a request: a sector outside the image gives the status IOERR, a
  length field of all ones and no transfer; a header longer than the request object overruns
  the stack; a chain without its next descriptor ends the handler without an interrupt.\<close>

theorem virtio_blk_request_errors:
  assumes at: "blk_at s i q p"
  shows "(\<forall>f0 type sector data n status req.
      blk_chain s q p f0 type sector data n status \<and> length req = BLK_REQ_SIZE \<and> disk_size s \<le> sector * 512 \<and>
      (type = VIRTIO_BLK_T_IN \<or> type = VIRTIO_BLK_T_OUT) \<longrightarrow>
      (\<exists>req' s'. blk_loop env i req s = blk_loop env i req' s' \<and> disk s' = disk s \<and>
        load_bytes (hmem (ram s')) (unat status) 1 = Some [VIRTIO_BLK_S_IOERR] \<and>
        desc_len (ram s') (desc_at q p) = Some 0xFFFFFFFF)) \<and>
    (\<forall>len req. desc_len (ram s) (desc_at q p) = Some len \<and> BLK_REQ_SIZE < unat len \<and> length req = BLK_REQ_SIZE \<longrightarrow>
      blk_request env i (desc_at q p) req s = None) \<and>
    (\<forall>f0 a0 hdr bs req. desc_flags (ram s) (desc_at q p) = Some f0 \<and> \<not> bit f0 0 \<and>
      desc_addr (ram s) (desc_at q p) = Some a0 \<and> get_userspace_addr (ram s) a0 = Some hdr \<and>
      desc_len (ram s) (desc_at q p) = Some 16 \<and> load_bytes (hmem (ram s)) (unat hdr) 16 = Some bs \<and>
      length req = BLK_REQ_SIZE \<longrightarrow> blk_request env i (desc_at q p) req s = Some (Inl s))"
proof (intro conjI allI impI)
  fix f0 type sector data n status and req :: bytes
  assume a: "blk_chain s q p f0 type sector data n status \<and> length req = BLK_REQ_SIZE \<and> disk_size s \<le> sector * 512 \<and>
      (type = VIRTIO_BLK_T_IN \<or> type = VIRTIO_BLK_T_OUT)"
  let ?s2 = "set_vq i (virtq_advance (virtq_advance q)) s"
  have "blk_transfer env type sector data n ?s2 = (- 1, ?s2\<lparr>ram := hput (ram s) data [], disk := disk s\<rparr>)"
    using a by (auto simp: blk_transfer_def virtio_blk_read_def virtio_blk_write_def diskimg_read_def diskimg_write_def set_vq_def)
  from blk_loop_request [OF at _ _ _ this] a
  show "\<exists>req' s'. blk_loop env i req s = blk_loop env i req' s' \<and> disk s' = disk s \<and>
        load_bytes (hmem (ram s')) (unat status) 1 = Some [VIRTIO_BLK_S_IOERR] \<and>
        desc_len (ram s') (desc_at q p) = Some 0xFFFFFFFF"
    by (fastforce simp: blk_status_def)
next
  fix len :: u32 and req :: bytes
  assume "desc_len (ram s) (desc_at q p) = Some len \<and> BLK_REQ_SIZE < unat len \<and> length req = BLK_REQ_SIZE"
  then show "blk_request env i (desc_at q p) req s = None"
    by (auto simp: blk_request_def obj_write_def dest!: length_load_bytes split: Option.bind_split)
next
  fix f0 a0 hdr and bs req :: bytes
  assume a: "desc_flags (ram s) (desc_at q p) = Some f0 \<and> \<not> bit f0 0 \<and>
      desc_addr (ram s) (desc_at q p) = Some a0 \<and> get_userspace_addr (ram s) a0 = Some hdr \<and>
      desc_len (ram s) (desc_at q p) = Some 16 \<and> load_bytes (hmem (ram s)) (unat hdr) 16 = Some bs \<and>
      length req = BLK_REQ_SIZE"
  then have "obj_write req 0 bs = Some (bs @ drop 16 req)"
    using length_load_bytes by (auto simp: obj_write_def const_simps)
  then show "blk_request env i (desc_at q p) req s = Some (Inl s)"
    using a check_next [of "ram s" "desc_at q p" f0]
    by (auto simp: blk_request_def Let_def blk_finish_def)
qed

section \<open>A concrete request\<close>

definition sample_desc :: "u64 \<Rightarrow> u32 \<Rightarrow> u16 \<Rightarrow> bytes" where
  "sample_desc a len flags = le_bytes 8 a @ le_bytes 4 len @ [0, 0] @ le_bytes 2 flags"

definition sample_ring_bytes :: bytes where
  "sample_ring_bytes = sample_desc 0x40000 16 0x0081 @ sample_desc 0x50000 4 0x0083 @ sample_desc 0x60000 1 0x0082 @ replicate 16 0"

definition sample_hdr :: "u32 \<Rightarrow> u64 \<Rightarrow> bytes" where
  "sample_hdr type sector = le_bytes 4 type @ [0, 0, 0, 0] @ le_bytes 8 sector"

definition sample_blk_ram :: "u32 \<Rightarrow> u64 \<Rightarrow> memory" where
  "sample_blk_ram type sector = hput (hput sample_memory 0x100000010000 sample_ring_bytes) 0x100000040000 (sample_hdr type sector)"

definition sample_blk_vq :: virtq where
  "sample_blk_vq = sample_virtq\<lparr>next_avail_idx := 0\<rparr>"

definition sample_blk :: "u32 \<Rightarrow> u64 \<Rightarrow> blk_state" where
  "sample_blk type sector = \<lparr>pci = sample_pci, ram = sample_blk_ram type sector, ioev = ioeventfd_0,
     vdev = (zero_virtio_dev 0)\<lparr>vq := [sample_blk_vq]\<rparr>, dev_cfg_addr = 0x600000000000, dev_cfg_obj = replicate 60 0,
     disk = [1, 2, 3, 4, 5, 6], disk_size = 6, irqs = 0\<rparr>"

definition sample_blk_env :: blk_env where
  "sample_blk_env = \<lparr>io_error = (\<lambda>_. False), req_stack = replicate 24 0, events = (\<lambda>_. undefined)\<rparr>"

lemma sample_mapped: "0x100000000000 \<le> a \<Longrightarrow> a + n \<le> 0x100020000000 \<Longrightarrow> mapped (hmem sample_memory) a n"
  by (simp add: mapped_def sample_memory_def map_zero_def const_simps)

lemma sample_lengths: "length sample_ring_bytes = 64" "length (sample_hdr type sector) = 16"
  by (simp_all add: sample_ring_bytes_def sample_desc_def sample_hdr_def)

lemma sample_ram_mapped:
  assumes "0x100000000000 \<le> a" "a + n \<le> 0x100020000000"
  shows "mapped (hmem (sample_blk_ram type sector)) a n"
proof -
  have "mapped (hmem sample_memory) 0x100000010000 (length sample_ring_bytes)"
    "mapped (hmem sample_memory) 0x100000040000 (length (sample_hdr type sector))"
    by (simp_all add: sample_mapped sample_lengths)
  then show ?thesis using sample_mapped [OF assms] by (simp add: sample_blk_ram_def)
qed

lemma sample_ram_loads:
  "load_bytes (hmem (sample_blk_ram type sector)) 0x100000010000 64 = Some sample_ring_bytes"
  "load_bytes (hmem (sample_blk_ram type sector)) 0x100000040000 16 = Some (sample_hdr type sector)"
proof -
  let ?m = "hput sample_memory 0x100000010000 sample_ring_bytes"
  have r: "mapped (hmem sample_memory) (unat (0x100000010000 :: u64)) (length sample_ring_bytes)"
    by (simp add: sample_mapped sample_lengths)
  have h: "mapped (hmem ?m) (unat (0x100000040000 :: u64)) (length (sample_hdr type sector))"
    using r by (simp add: sample_mapped sample_lengths)
  have "load_bytes (hmem (sample_blk_ram type sector)) 0x100000010000 64 = load_bytes (hmem ?m) 0x100000010000 64"
    unfolding sample_blk_ram_def using h r
    by (intro load_hput_other) (auto simp: sample_mapped apart_def sample_lengths)
  then show "load_bytes (hmem (sample_blk_ram type sector)) 0x100000010000 64 = Some sample_ring_bytes"
    using load_hput_same [OF r] by (simp add: sample_lengths)
  show "load_bytes (hmem (sample_blk_ram type sector)) 0x100000040000 16 = Some (sample_hdr type sector)"
    using load_hput_same [OF h] by (simp add: sample_lengths sample_blk_ram_def)
qed

lemma sample_ring_sub:
  "a + n \<le> 64 \<Longrightarrow> load_bytes (hmem (sample_blk_ram type sector)) (0x100000010000 + a) n = Some (take n (drop a sample_ring_bytes))"
  using host_store.rd_sub [OF sample_ram_mapped sample_ram_loads(1), of "0x100000010000 + a" n type sector] by simp

lemma sample_blk_at: "blk_at (sample_blk type sector) 0 sample_blk_vq 0"
proof -
  have "vq_at sample_blk_vq 0" "info_size sample_blk_vq = 4"
    using sample_virtq_at by (auto simp: vq_at_def sample_blk_vq_def info_size_def wrap_of_def)
  then show ?thesis
    using sample_ram_mapped [of "0x100000010000" 64 type sector]
    by (simp add: blk_at_def sample_blk_def get_vq_def ring_mapped_def) (simp add: sample_blk_vq_def sample_virtq_def)
qed

lemma sample_desc_fields:
  "desc_flags (sample_blk_ram t c) (desc_at sample_blk_vq 0) = Some 0x0081"
  "desc_flags (sample_blk_ram t c) (desc_at sample_blk_vq (Suc 0)) = Some 0x0083"
  "desc_flags (sample_blk_ram t c) (desc_at sample_blk_vq (Suc (Suc 0))) = Some 0x0082"
  "desc_addr (sample_blk_ram t c) (desc_at sample_blk_vq 0) = Some 0x40000"
  "desc_addr (sample_blk_ram t c) (desc_at sample_blk_vq (Suc 0)) = Some 0x50000"
  "desc_addr (sample_blk_ram t c) (desc_at sample_blk_vq (Suc (Suc 0))) = Some 0x60000"
  "desc_len (sample_blk_ram t c) (desc_at sample_blk_vq 0) = Some 16"
  "desc_len (sample_blk_ram t c) (desc_at sample_blk_vq (Suc 0)) = Some 4"
proof -
  have d: "desc_at sample_blk_vq 0 = 0x100000010000" "desc_at sample_blk_vq (Suc 0) = 0x100000010010" "desc_at sample_blk_vq (Suc (Suc 0)) = 0x100000010020"
    using sample_virtq_at(2)
    by (simp_all add: desc_at_def sample_blk_vq_def info_size_def) (simp_all add: sample_virtq_def)
  have ex: "host_load (sample_blk_ram t c) p n = Some (of_le (take n (drop (unat p - 0x100000010000) sample_ring_bytes)))"
    if "0x100000010000 \<le> unat p" "unat p + n \<le> 0x100000010040" for p n
    using sample_ring_sub [of "unat p - 0x100000010000" n t c] that by (simp add: host_load_def)
  show "desc_flags (sample_blk_ram t c) (desc_at sample_blk_vq 0) = Some 0x0081"
    "desc_flags (sample_blk_ram t c) (desc_at sample_blk_vq (Suc 0)) = Some 0x0083"
    "desc_flags (sample_blk_ram t c) (desc_at sample_blk_vq (Suc (Suc 0))) = Some 0x0082"
    "desc_addr (sample_blk_ram t c) (desc_at sample_blk_vq 0) = Some 0x40000"
    "desc_addr (sample_blk_ram t c) (desc_at sample_blk_vq (Suc 0)) = Some 0x50000"
    "desc_addr (sample_blk_ram t c) (desc_at sample_blk_vq (Suc (Suc 0))) = Some 0x60000"
    "desc_len (sample_blk_ram t c) (desc_at sample_blk_vq 0) = Some 16"
    "desc_len (sample_blk_ram t c) (desc_at sample_blk_vq (Suc 0)) = Some 4"
    unfolding d desc_flags_def desc_addr_def desc_len_def
    by (simp_all add: ex sample_ring_bytes_def sample_desc_def)
qed

lemma sample_userspace:
  "a < 0x20000000 \<Longrightarrow> get_userspace_addr (sample_blk_ram t c) a = Some (0x100000000000 + a)"
  by (simp add: sample_blk_ram_def)
    (simp add: get_userspace_addr_def find_mapper_index_def in_mapper_def sample_memory_def RAM_SIZE_def add.commute)

lemma sample_blk_chain:
  "blk_chain (sample_blk type sector) sample_blk_vq 0 0x0081 type sector 0x100000050000 4 0x100000060000"
proof -
  have e: "ring_extent sample_blk_vq = (0x100000010000, 64)" "info_size sample_blk_vq = 4"
    using sample_virtq_at(2)
    by (simp_all add: ring_extent_def sample_blk_vq_def info_size_def) (simp add: sample_virtq_def)
  have l: "load_bytes (hmem (sample_blk_ram type sector)) 0x100000040000 16 = Some (le_bytes 4 type @ [0, 0, 0, 0] @ le_bytes 8 sector)"
    using sample_ram_loads(2) by (simp add: sample_hdr_def)
  have r: "ram (sample_blk type sector) = sample_blk_ram type sector" by (simp add: sample_blk_def)
  show ?thesis
    unfolding blk_chain_def Let_def e r
    by (rule exI [of _ "0x0083"], rule exI [of _ "0x0082"], rule exI [of _ "0x40000"], rule exI [of _ "0x50000"],
        rule exI [of _ "0x60000"], rule exI [of _ "0x100000040000"], rule exI [of _ "[0, 0, 0, 0]"], rule exI [of _ 4],
        intro conjI sample_desc_fields)
      (simp_all add: sample_userspace l sample_ram_mapped apart_def avail_flags_def wrap_of_def del: load_bytes.simps)
qed

theorem virtio_blk_read_request_witness:
  "\<exists>req' s'. blk_loop sample_blk_env 0 (replicate 24 0) (sample_blk VIRTIO_BLK_T_IN 0) = blk_loop sample_blk_env 0 req' s' \<and>
     load_bytes (hmem (ram s')) 0x100000050000 4 = Some [1, 2, 3, 4]"
proof -
  have "disk (sample_blk VIRTIO_BLK_T_IN 0) = [1, 2, 3, 4, 5, 6]" "disk_size (sample_blk VIRTIO_BLK_T_IN 0) = 6"
    by (simp_all add: sample_blk_def)
  then have bs: "take 4 (drop (unat (0 * 512 :: u64)) (disk (sample_blk VIRTIO_BLK_T_IN 0))) = [1, 2, 3, 4]"
    "0 * 512 < disk_size (sample_blk VIRTIO_BLK_T_IN 0)" "length [1, 2, 3, 4 :: u8] = 4" by simp_all
  have "length (replicate 24 (0 :: u8)) = BLK_REQ_SIZE" "\<forall>t. \<not> io_error sample_blk_env t"
    by (simp_all add: BLK_REQ_SIZE_def sample_blk_env_def)
  from virtio_blk_read_request [OF sample_blk_at sample_blk_chain this bs(2), unfolded bs(1,3)]
  show ?thesis by (simp only: unat_numeral) auto
qed

theorem virtio_blk_write_request_witness:
  "\<exists>req' s' bs. blk_loop sample_blk_env 0 (replicate 24 0) (sample_blk VIRTIO_BLK_T_OUT 0) = blk_loop sample_blk_env 0 req' s' \<and>
     take 4 (drop 0 (disk s')) = bs \<and> drop 4 (disk s') = [5, 6]"
proof -
  have "disk (sample_blk VIRTIO_BLK_T_OUT 0) = [1, 2, 3, 4, 5, 6]" "disk_size (sample_blk VIRTIO_BLK_T_OUT 0) = 6"
    by (simp_all add: sample_blk_def)
  then show ?thesis
    using virtio_blk_write_request [OF sample_blk_at sample_blk_chain, of "replicate 24 0" sample_blk_env 0]
    by (auto simp: const_simps sample_blk_env_def)
qed

theorem virtio_blk_request_errors_witness:
  "\<exists>req' s'. blk_loop sample_blk_env 0 (replicate 24 0) (sample_blk VIRTIO_BLK_T_IN 1) = blk_loop sample_blk_env 0 req' s' \<and>
     load_bytes (hmem (ram s')) 0x100000060000 1 = Some [VIRTIO_BLK_S_IOERR]"
proof -
  have "disk_size (sample_blk VIRTIO_BLK_T_IN 1) \<le> 1 * 512" by (simp add: sample_blk_def)
  then show ?thesis
    using conjunct1 [OF virtio_blk_request_errors [OF sample_blk_at [of VIRTIO_BLK_T_IN 1], of sample_blk_env],
        rule_format, of "0x0081" VIRTIO_BLK_T_IN 1 "0x100000050000" 4 "0x100000060000" "replicate 24 0"]
      sample_blk_chain [of VIRTIO_BLK_T_IN 1] by (auto simp: BLK_REQ_SIZE_def)
qed

section \<open>The device the guest finds\<close>

definition blk_ids :: bytes where
  "blk_ids = [0xF4, 0x1A, 0x42, 0x10, 0, 0, 0x18, 0, 0, 0, 0x80, 1] @ replicate 40 0 @ [0x40] @ replicate 7 0 @ [15, 1, 0, 0] @
     replicate 192 0"

definition blk_header :: bytes where
  "blk_header = take 64 blk_ids @
     [9, 0x50, 16, 1, 0, 0, 0, 0, 0, 0, 0, 0, 56, 0, 0, 0] @
     [9, 0x64, 20, 2, 0, 0, 0, 0, 60, 0, 0, 0, 4, 0, 0, 0, 0, 0, 0, 0] @
     [9, 0x74, 16, 3, 0, 0, 0, 0, 56, 0, 0, 0, 4, 0, 0, 0] @
     [9, 0x84, 16, 4, 0, 0, 0, 0, 64, 0, 0, 0, 0, 0, 0, 0] @
     [9, 0x98, 20, 5] @ replicate 120 0"

definition blk_pci_dev :: pci_dev where
  "blk_pci_dev = zero_dev\<lparr>cfg_space := blk_ids, bar_size := (bar_size zero_dev)[0 := 0x100],
     bar_is_io_space := (bar_is_io_space zero_dev)[0 := False]\<rparr>"

lemma blk_ids_written:
  "virtio_pci_ids VIRTIO_PCI_DEVICE_ID_BLK VIRTIO_BLK_PCI_CLASS VIRTIO_BLK_DEVICE_IRQ 0x40 zero_dev = Some (zero_dev\<lparr>cfg_space := blk_ids\<rparr>)"
  by code_simp

lemma blk_bar_written:
  "PCI_HDR_WRITE (PCI_BAR_OFFSET 0) (0 :: u32) 32 (zero_dev\<lparr>cfg_space := blk_ids\<rparr>) = Some (zero_dev\<lparr>cfg_space := blk_ids\<rparr>)"
  by code_simp

lemma blk_caps_written: "virtio_pci_set_cap 0x40 blk_pci_dev = Some (0x50, 0x74, blk_pci_dev\<lparr>cfg_space := blk_header\<rparr>)"
  by code_simp

text \<open>A capability as the driver reads it: id, next, length, type, BAR, and offset and length of the
  structure.\<close>

definition cap_at :: "bytes \<Rightarrow> nat \<Rightarrow> u8 \<times> u8 \<times> u8 \<times> u8 \<times> u8 \<times> u32 \<times> u32" where
  "cap_at c p = (field c p 1, field c (p + 1) 1, field c (p + 2) 1, field c (p + 3) 1, field c (p + 4) 1,
     field c (p + 8) 4, field c (p + 12) 4)"

lemma blk_header_fields:
  "length blk_header = 256"
  "field blk_header 0 2 = (0x1AF4 :: u16)" "field blk_header 2 2 = (0x1042 :: u16)" "field blk_header 8 4 = (0x01800000 :: u32)"
  "field blk_header 0x34 1 = (0x40 :: u8)" "field blk_header 0x3c 1 = (15 :: u8)"
  "cap_at blk_header 0x40 = (9, 0x50, 16, 1, 0, 0, 56)" "cap_at blk_header 0x50 = (9, 0x64, 20, 2, 0, 60, 4)"
  "cap_at blk_header 0x64 = (9, 0x74, 16, 3, 0, 56, 4)" "cap_at blk_header 0x74 = (9, 0x84, 16, 4, 0, 64, 0)"
  "cap_at blk_header 0x84 = (9, 0x98, 20, 5, 0, 0, 0)" "field blk_header 0x98 1 = (0 :: u8)"
  by code_simp+

definition blk_vq :: virtq where
  "blk_vq = zero_virtq\<lparr>info := [128, 0] @ replicate 30 0, used_wrap_count := True\<rparr>"

lemma virtq_init_zero: "virtq_init VIRTQUEUE_SIZE zero_virtq = Some blk_vq"
  by code_simp

lemma blk_vq: "vq_at blk_vq 0" "info_size blk_vq = VIRTQUEUE_SIZE" "info_enable blk_vq = 0" "length (info blk_vq) = VIRTQ_INFO_SIZE"
  by code_simp+

lemma virtio_pci_init_blk:
  assumes "bus_repr (io (pci s)) l" "\<And>b. ConfigRegion d \<notin> set (l b)" "\<And>b i. BarRegion d i \<notin> set (l b)"
  shows "\<exists>p. virtio_pci_init d VIRTIO_PCI_DEVICE_ID_BLK VIRTIO_BLK_PCI_CLASS VIRTIO_BLK_DEVICE_IRQ s =
      Some (s\<lparr>pci := p, vdev := (zero_virtio_dev d)\<lparr>notify_cap := 0x50, dev_cfg_cap := 0x74,
        device_feature := 2 ^ VIRTIO_F_RING_PACKED OR 2 ^ VIRTIO_F_VERSION_1\<rparr>\<rparr>) \<and>
    bars_synced d p (l(PciBus := ConfigRegion d # l PciBus)) \<and> pci_addr p = pci_addr (pci s) \<and>
    pci_devs p = (pci_devs (pci s))(d := blk_pci_dev\<lparr>cfg_space := blk_header\<rparr>) \<and>
    io p = region_init (BarRegion d 0) 0 0x100 (PciDev d) Virtio_pci_iospace_handle_io (io (pci_dev_init d (pci s)))"
proof -
  let ?l = "l(PciBus := ConfigRegion d # l PciBus)"
  define p1 where "p1 = pci_dev_init d (pci s)"
  have dev: "pci_devs p1 d = zero_dev" by (simp add: p1_def pci_dev_init_def pcibus_register_dev_def Let_def)
  have sync1: "bars_synced d p1 ?l" unfolding p1_def by (rule pci_dev_init_synced [OF assms])
  define p1' where "p1' = upd_dev d (\<lambda>_. zero_dev\<lparr>cfg_space := blk_ids\<rparr>) p1"
  have "p1' = upd_dev d (\<lambda>dev. dev\<lparr>cfg_space := blk_ids\<rparr>) p1" by (simp add: p1'_def upd_dev_def dev)
  moreover have "length blk_ids = PCI_CFG_SPACE_SIZE" by (simp add: blk_ids_def const_simps)
  ultimately have sync2: "bars_synced d p1' ?l" using bars_synced_cfg [OF sync1] by simp
  have dev1: "pci_devs p1' d = zero_dev\<lparr>cfg_space := blk_ids\<rparr>" by (simp add: p1'_def)
  have na: "unat (0 :: u8) < PCI_STD_NUM_BARS" "\<not> bar_active (pci_devs p1' d) ! unat (0 :: u8)"
    by (simp_all add: dev1 zero_dev_def const_simps)
  define p2 where "p2 = upd_dev d (\<lambda>_. blk_pci_dev)
    (p1'\<lparr>io := region_init (BarRegion d 0) 0 0x100 (PciDev d) Virtio_pci_iospace_handle_io (io p1')\<rparr>)"
  have bar: "pci_init_bar d 0 0x100 False Virtio_pci_iospace_handle_io p1' = Some p2"
    by (simp add: pci_init_bar_def dev1 blk_bar_written p2_def blk_pci_dev_def PCI_STD_NUM_BARS_def)
  have sync3: "bars_synced d p2 ?l" using pci_init_bar_synced [OF sync2 na, of "0x100" False Virtio_pci_iospace_handle_io] bar by auto
  define p where "p = upd_dev d (\<lambda>_. blk_pci_dev\<lparr>cfg_space := blk_header\<rparr>) p2"
  have dev2: "pci_devs p2 d = blk_pci_dev" by (simp add: p2_def)
  have "p = upd_dev d (\<lambda>dev. dev\<lparr>cfg_space := blk_header\<rparr>) p2" by (simp add: p_def upd_dev_def dev2)
  then have "bars_synced d p ?l" using bars_synced_cfg [OF sync3] blk_header_fields(1) by (simp add: const_simps)
  moreover have "virtio_pci_init d VIRTIO_PCI_DEVICE_ID_BLK VIRTIO_BLK_PCI_CLASS VIRTIO_BLK_DEVICE_IRQ s =
      Some (s\<lparr>pci := p, vdev := (zero_virtio_dev d)\<lparr>notify_cap := 0x50, dev_cfg_cap := 0x74,
        device_feature := 2 ^ VIRTIO_F_RING_PACKED OR 2 ^ VIRTIO_F_VERSION_1\<rparr>\<rparr>)"
    using blk_ids_written bar dev2 blk_caps_written
    by (simp add: virtio_pci_init_def p1_def [symmetric] dev p1'_def [symmetric] p_def)
  moreover have "pci_addr p = pci_addr (pci s)" "pci_devs p = (pci_devs (pci s))(d := blk_pci_dev\<lparr>cfg_space := blk_header\<rparr>)"
    "io p = region_init (BarRegion d 0) 0 0x100 (PciDev d) Virtio_pci_iospace_handle_io (io (pci_dev_init d (pci s)))"
    by (simp_all add: p_def p2_def p1'_def p1_def pci_dev_init_def pcibus_register_dev_def Let_def)
  ultimately show ?thesis by blast
qed

text \<open>The header of the disk: the length of the device's own configuration is in the capability at 74.\<close>

definition disk_header :: "u8 \<Rightarrow> bytes" where
  "disk_header n = take 0x80 blk_header @ le_bytes 4 (ucast n :: u32) @ drop 0x84 blk_header"

lemma length_disk_header [simp]: "length (disk_header n) = 256"
  by (simp add: disk_header_def blk_header_fields(1))

lemma disk_header_written:
  "PCI_HDR_WRITE 0x80 (ucast n :: u32) 32 (blk_pci_dev\<lparr>cfg_space := blk_header\<rparr>) = Some (blk_pci_dev\<lparr>cfg_space := disk_header n\<rparr>)"
  by (simp add: PCI_HDR_WRITE_def obj_write_def disk_header_def blk_header_fields(1))

text \<open>The device after \<open>virtio_blk_init_pci\<close>.\<close>

definition disk_vdev :: "nat \<Rightarrow> u64 \<Rightarrow> virtio_pci_dev \<Rightarrow> bool" where
  "disk_vdev d a v \<longleftrightarrow> vdev_wf v \<and> vp_dev v = d \<and> vq v = [blk_vq] \<and> cfg_num_queues v = 1 \<and> cfg_dev_cfg v = a \<and>
     notify_cap v = 0x50 \<and> dev_cfg_cap v = 0x74 \<and> guest_feature v = 0 \<and>
     device_feature v = 2 ^ VIRTIO_F_RING_PACKED OR 2 ^ VIRTIO_F_VERSION_1"

lemma virtio_blk_init_found:
  assumes "bus_repr (io (pci s)) l" "\<And>b. ConfigRegion d \<notin> set (l b)" "\<And>b i. BarRegion d i \<notin> set (l b)" "8 \<le> n"
  shows "\<exists>p v. virtio_blk_init_pci n d s =
      Some (s\<lparr>dev_cfg_obj := le_bytes 8 (disk_size s div 512) @ replicate (n - 8) 0, pci := p, vdev := v\<rparr>) \<and>
    disk_vdev d (dev_cfg_addr s) v \<and> bars_synced d p (l(PciBus := ConfigRegion d # l PciBus)) \<and> pci_addr p = pci_addr (pci s) \<and>
    pci_devs p = (pci_devs (pci s))(d := blk_pci_dev\<lparr>cfg_space := disk_header (of_nat n)\<rparr>) \<and>
    io p = region_init (BarRegion d 0) 0 0x100 (PciDev d) Virtio_pci_iospace_handle_io (io (pci_dev_init d (pci s)))"
proof -
  let ?l = "l(PciBus := ConfigRegion d # l PciBus)" and ?obj = "le_bytes 8 (disk_size s div 512) @ replicate (n - 8) 0"
  define s1 where "s1 = s\<lparr>dev_cfg_obj := ?obj\<rparr>"
  have st: "virtio_blk_setup (s\<lparr>dev_cfg_obj := replicate n 0\<rparr>) = Some ([blk_vq], s1)"
    using assms(4) by (simp add: virtio_blk_setup_def virtq_init_zero obj_write_def s1_def VIRTIO_BLK_VIRTQUEUE_NUM_def)
  have "bus_repr (io (pci s1)) l" using assms(1) by (simp add: s1_def)
  from virtio_pci_init_blk [OF this assms(2,3)] obtain p where
    p: "virtio_pci_init d VIRTIO_PCI_DEVICE_ID_BLK VIRTIO_BLK_PCI_CLASS VIRTIO_BLK_DEVICE_IRQ s1 =
      Some (s1\<lparr>pci := p, vdev := (zero_virtio_dev d)\<lparr>notify_cap := 0x50, dev_cfg_cap := 0x74,
        device_feature := 2 ^ VIRTIO_F_RING_PACKED OR 2 ^ VIRTIO_F_VERSION_1\<rparr>\<rparr>)"
    "bars_synced d p ?l" "pci_addr p = pci_addr (pci s)" "pci_devs p = (pci_devs (pci s))(d := blk_pci_dev\<lparr>cfg_space := blk_header\<rparr>)"
    "io p = region_init (BarRegion d 0) 0 0x100 (PciDev d) Virtio_pci_iospace_handle_io (io (pci_dev_init d (pci s)))"
    by (auto simp: s1_def)
  define v0 where "v0 = (zero_virtio_dev d)\<lparr>notify_cap := 0x50, dev_cfg_cap := 0x74,
        device_feature := 2 ^ VIRTIO_F_RING_PACKED OR 2 ^ VIRTIO_F_VERSION_1\<rparr>"
  let ?ab = "le_bytes 8 (dev_cfg_addr s)" and ?nb = "le_bytes 2 (of_nat VIRTIO_BLK_VIRTQUEUE_NUM :: u16)"
  have wf0: "vdev_wf v0" and le: "DEV_CFG + length ?ab \<le> VIRTIO_PCI_CONFIG_SIZE" "VIRTIO_PCI_COMMON_NUMQ + length ?nb \<le> VIRTIO_PCI_CONFIG_SIZE"
    by (simp_all add: v0_def zero_virtio_dev_def vdev_wf_def const_simps)
  obtain c1 where c1: "config_put DEV_CFG ?ab v0 = Some (v0\<lparr>config := c1\<rparr>)" "vdev_wf (v0\<lparr>config := c1\<rparr>)"
    "take (length ?ab) (drop DEV_CFG c1) = ?ab"
    using config_put_ok [OF wf0 le(1)] by blast
  obtain c2 where c2: "config_put VIRTIO_PCI_COMMON_NUMQ ?nb (v0\<lparr>config := c1\<rparr>) = Some (v0\<lparr>config := c2\<rparr>)" "vdev_wf (v0\<lparr>config := c2\<rparr>)"
    "take (length ?nb) (drop VIRTIO_PCI_COMMON_NUMQ c2) = ?nb"
    "\<forall>b k. b + k \<le> VIRTIO_PCI_CONFIG_SIZE \<longrightarrow> apart (VIRTIO_PCI_COMMON_NUMQ, length ?nb) (b, k) \<longrightarrow> take k (drop b c2) = take k (drop b c1)"
    using config_put_ok [OF c1(2) le(2)] by auto
  define v where "v = v0\<lparr>config := c2, vq := [blk_vq]\<rparr>"
  have "take 8 (drop 64 c2) = ?ab" using c2(4) [rule_format, of 64 8] c1(3) by (simp add: const_simps apart_def)
  then have "disk_vdev d (dev_cfg_addr s) v"
    using c2(2,3) blk_vq(4)
    by (simp add: disk_vdev_def v_def v0_def zero_virtio_dev_def vdev_wf_def cfg_dev_cfg_def cfg_num_queues_def field_le_bytes const_simps)
  moreover define p' where "p' = upd_dev d (\<lambda>_. blk_pci_dev\<lparr>cfg_space := disk_header (of_nat n)\<rparr>) p"
  have "p' = upd_dev d (\<lambda>dev. dev\<lparr>cfg_space := disk_header (of_nat n)\<rparr>) p" by (simp add: p'_def upd_dev_def p(4))
  then have "bars_synced d p' ?l" using bars_synced_cfg [OF p(2)] by (simp add: const_simps)
  moreover have "virtio_blk_init_pci n d s = Some (s\<lparr>dev_cfg_obj := ?obj, pci := p', vdev := v\<rparr>)"
    using p(1) c1(1) c2(1) disk_header_written [of "of_nat n"]
    by (simp add: virtio_blk_init_pci_def st v0_def [symmetric] virtio_pci_set_dev_cfg_def virtio_pci_set_virtq_cfg_def on_dev_def Let_def)
      (simp add: v0_def zero_virtio_dev_def s1_def p(4) p'_def v_def)
  ultimately show ?thesis
    using p(3-5) by (intro exI [of _ p'] exI [of _ v]) (simp add: p'_def)
qed

end
