(* ===== verification/Serial.thy ===== *)
theory Serial
  imports Iobus Uapi
begin

text \<open>
  \<open>src/serial.c\<close>: the 16550-style serial port. The state is the struct \<open>Serial\<close> with its
  receive FIFO, together with the two effects the code has: writes to the interrupt eventfd and
  characters on standard error. The FIFO implements the interface \<open>ring_queue\<close> as long as
  it is not overrun; the port is a state machine stepped by the guest's port accesses and by
  the input thread, with an invariant over its reachable states.
\<close>

section \<open>State\<close>

definition UART_IER_RDI :: u8 where "UART_IER_RDI = 0x01"
definition UART_IER_THRI :: u8 where "UART_IER_THRI = 0x02"
definition UART_IIR_NO_INT :: u8 where "UART_IIR_NO_INT = 0x01"
definition UART_IIR_THRI :: u8 where "UART_IIR_THRI = 0x02"
definition UART_IIR_RDI :: u8 where "UART_IIR_RDI = 0x04"
definition UART_LCR_DLAB :: u8 where "UART_LCR_DLAB = 0x80"
definition UART_LSR_DR :: u8 where "UART_LSR_DR = 0x01"
definition UART_LSR_THRE :: u8 where "UART_LSR_THRE = 0x20"
definition UART_LSR_TEMT :: u8 where "UART_LSR_TEMT = 0x40"
definition UART_MCR_OUT2 :: u8 where "UART_MCR_OUT2 = 0x08"
definition UART_MCR_LOOP :: u8 where "UART_MCR_LOOP = 0x10"
definition UART_MSR_CTS :: u8 where "UART_MSR_CTS = 0x10"
definition UART_MSR_DSR :: u8 where "UART_MSR_DSR = 0x20"
definition UART_MSR_DCD :: u8 where "UART_MSR_DCD = 0x80"
definition UART_FIFO_LENGTH :: nat where "UART_FIFO_LENGTH = 16"

lemmas uart_consts [const_simps] =
  UART_IER_RDI_def UART_IER_THRI_def UART_IIR_NO_INT_def UART_IIR_THRI_def UART_IIR_RDI_def
  UART_LCR_DLAB_def UART_LSR_DR_def UART_LSR_THRE_def UART_LSR_TEMT_def UART_MCR_OUT2_def
  UART_MCR_LOOP_def UART_MSR_CTS_def UART_MSR_DSR_def UART_MSR_DCD_def UART_FIFO_LENGTH_def

record SerialFIFO =
  f_data :: bytes
  f_count :: u8
  f_itl :: u8
  f_tail :: u8
  f_head :: u8

record Serial =
  rbr :: u8
  thr :: u8
  ier :: u8
  iir :: u8
  fcr :: u8
  lcr :: u8
  mcr :: u8
  lsr :: u8
  msr :: u8
  scr :: u8
  divisor :: u16
  thr_pending :: u32
  interrupt_evt :: u32
  recv_fifo :: SerialFIFO

text \<open>What the code prints on standard error while it handles the port.\<close>

datatype err_out = Char u8 | FifoOverflow

record serial_state =
  ser :: Serial
  irqs :: nat
  err :: "err_out list"

definition Serial_0 :: Serial where
  "Serial_0 = \<lparr>rbr = 0, thr = 0, ier = 0, iir = UART_IIR_NO_INT, fcr = 0, lcr = 0x03,
     mcr = UART_MCR_OUT2, lsr = UART_LSR_TEMT OR UART_LSR_THRE,
     msr = UART_MSR_DCD OR UART_MSR_DSR OR UART_MSR_CTS, scr = 0, divisor = 0x0c,
     thr_pending = 0, interrupt_evt = 0,
     recv_fifo = \<lparr>f_data = replicate 16 0, f_count = 0, f_itl = 0, f_tail = 0, f_head = 0\<rparr>\<rparr>"

definition serial_0 :: serial_state where
  "serial_0 = \<lparr>ser = Serial_0, irqs = 0, err = []\<rparr>"

section \<open>The FIFO\<close>

definition fifo_clear :: "SerialFIFO \<Rightarrow> SerialFIFO" where
  "fifo_clear f = f\<lparr>f_data := replicate UART_FIFO_LENGTH 0, f_count := 0, f_head := 0, f_tail := 0\<rparr>"

definition fifo_put :: "u8 \<Rightarrow> SerialFIFO \<Rightarrow> SerialFIFO option" where
  "fifo_put chr f =
     (if unat (f_head f) < length (f_data f)
      then let f1 = f\<lparr>f_data := (f_data f)[unat (f_head f) := chr], f_head := f_head f + 1\<rparr>;
               f2 = (if f_head f1 = of_nat UART_FIFO_LENGTH then f1\<lparr>f_head := 0\<rparr> else f1)
           in Some (f2\<lparr>f_count := f_count f2 + 1\<rparr>)
      else None)"

definition fifo_get :: "SerialFIFO \<Rightarrow> (u8 \<times> SerialFIFO) option" where
  "fifo_get f =
     (if f_count f = 0 then Some (0, f)
      else if unat (f_tail f) < length (f_data f)
      then let c = f_data f ! unat (f_tail f);
               f1 = f\<lparr>f_tail := f_tail f + 1\<rparr>;
               f2 = (if f_tail f1 = of_nat UART_FIFO_LENGTH then f1\<lparr>f_tail := 0\<rparr> else f1)
           in Some (c, f2\<lparr>f_count := f_count f2 - 1\<rparr>)
      else None)"

section \<open>The port\<close>

definition update_serial_iir :: "serial_state \<Rightarrow> serial_state" where
  "update_serial_iir s =
     (let iir0 = UART_IIR_NO_INT;
          iir1 = (if ier (ser s) AND UART_IER_RDI \<noteq> 0 \<and> lsr (ser s) AND UART_LSR_DR \<noteq> 0
                  then (iir0 AND NOT UART_IIR_NO_INT) OR UART_IIR_RDI
                  else if ier (ser s) AND UART_IER_THRI \<noteq> 0 \<and> thr_pending (ser s) > 0
                  then (iir0 AND NOT UART_IIR_NO_INT) OR UART_IIR_THRI
                  else iir0);
          s1 = s\<lparr>ser := (ser s)\<lparr>iir := iir1\<rparr>\<rparr>
      in if iir1 \<noteq> UART_IIR_NO_INT then s1\<lparr>irqs := irqs s1 + 1\<rparr> else s1)"

text \<open>The overrun check, which only warns, and the insertion that follows it in both callers.\<close>

definition put_received :: "u8 \<Rightarrow> serial_state \<Rightarrow> serial_state option" where
  "put_received data s =
     (let s1 = (if unat (f_count (recv_fifo (ser s))) \<ge> UART_FIFO_LENGTH
                then s\<lparr>err := err s @ [FifoOverflow]\<rparr> else s)
      in do { f \<leftarrow> fifo_put data (recv_fifo (ser s1));
              Some (s1\<lparr>ser := (ser s1)\<lparr>recv_fifo := f, lsr := lsr (ser s1) OR UART_LSR_DR\<rparr>\<rparr>) })"

definition receive_serial_input :: "u8 \<Rightarrow> serial_state \<Rightarrow> serial_state option" where
  "receive_serial_input data s =
     (if mcr (ser s) AND UART_MCR_LOOP = 0
      then do { s1 \<leftarrow> put_received data s; Some (update_serial_iir s1) }
      else Some s)"

text \<open>The first part of \<open>serial_thread_fn\<close> on the local modes \<open>c_lflag\<close> of the terminal: \<open>rd\<close> and \<open>wr\<close> are the results
  of \<open>tcgetattr\<close> and \<open>tcsetattr\<close>, \<open>t0\<close> the indeterminate initial value of the local variable \<open>t\<close>. A failure is
  only reported.\<close>

definition serial_raw_mode :: "int \<Rightarrow> u32 \<Rightarrow> int \<Rightarrow> u32 \<Rightarrow> u32" where
  "serial_raw_mode rd t0 wr tty =
     (let t = (if rd < 0 then t0 else tty);
          t = t AND NOT ICANON;
          t = t AND NOT ECHO
      in if wr < 0 then tty else t)"

text \<open>One event of \<open>serial_thread_fn\<close>: \<open>n\<close> is what \<open>read\<close> returned and \<open>b\<close> the byte it
  delivered; \<open>read_buf\<close> has one element, \<open>b0\<close> before the read, and the code stores 0 at index
  \<open>n\<close> of it before it passes element 0 on.\<close>

definition serial_thread_event :: "u8 \<Rightarrow> int \<Rightarrow> u8 \<Rightarrow> serial_state \<Rightarrow> (u8 \<times> serial_state) option" where
  "serial_thread_event b0 n b s =
     (let read_buf = (if n = 1 then [b] else [b0]) in
      if 0 \<le> n \<and> n < int (length read_buf)
      then let read_buf' = read_buf[nat n := 0]
           in do { s' \<leftarrow> receive_serial_input (read_buf' ! 0) s; Some (read_buf' ! 0, s') }
      else None)"

primrec serial_thread_events :: "(int \<times> u8) list \<Rightarrow> u8 \<times> serial_state \<Rightarrow> (u8 \<times> serial_state) option" where
  "serial_thread_events [] bs = Some bs"
| "serial_thread_events (r # rs) bs =
     do { bs' \<leftarrow> serial_thread_event (fst bs) (fst r) (snd r) (snd bs); serial_thread_events rs bs' }"

text \<open>The endless loop of the thread over the \<open>epoll_wait\<close> calls so far, \<open>None\<close> for a failed one and
  otherwise what \<open>read\<close> gives for each event.\<close>

primrec serial_thread_fn :: "(int \<times> u8) list option list \<Rightarrow> u8 \<times> serial_state \<Rightarrow> (u8 \<times> serial_state) option" where
  "serial_thread_fn [] bs = Some bs"
| "serial_thread_fn (e # es) bs =
     do { bs' \<leftarrow> (case e of None \<Rightarrow> Some bs | Some rs \<Rightarrow> serial_thread_events rs bs); serial_thread_fn es bs' }"

text \<open>\<open>ret0\<close> is the indeterminate initial value of the local variable \<open>ret\<close>.\<close>

definition read_serial_reg :: "u8 \<Rightarrow> u64 \<Rightarrow> serial_state \<Rightarrow> (u8 \<times> serial_state) option" where
  "read_serial_reg ret0 reg s =
     (let r = ser s in
      if reg = 0 then
        if lcr r AND UART_LCR_DLAB \<noteq> 0 then Some (ucast (divisor r), s)
        else do {
          (ret, f) \<leftarrow> (if f_count (recv_fifo r) \<noteq> 0 then fifo_get (recv_fifo r)
                         else Some (ret0, recv_fifo r));
          let r1 = r\<lparr>recv_fifo := f\<rparr>;
              r2 = (if f_count f = 0 then r1\<lparr>lsr := lsr r1 AND NOT UART_LSR_DR\<rparr> else r1)
          in Some (ret, update_serial_iir (s\<lparr>ser := r2\<rparr>)) }
      else if reg = 1 then
        Some (if lcr r AND UART_LCR_DLAB \<noteq> 0 then ucast (drop_bit 8 (divisor r)) else ier r, s)
      else if reg = 2 then
        Some (iir r OR 0xc0, s\<lparr>ser := r\<lparr>thr_pending := 0, iir := UART_IIR_NO_INT\<rparr>\<rparr>)
      else if reg = 3 then Some (lcr r, s)
      else if reg = 4 then Some (mcr r, s)
      else if reg = 5 then Some (lsr r, s)
      else if reg = 6 then
        Some (if mcr r AND UART_MCR_LOOP \<noteq> 0
              then push_bit 4 (mcr r AND 0x0c) OR push_bit 3 (mcr r AND 0x02) OR push_bit 5 (mcr r AND 0x01)
              else msr r, s)
      else if reg = 7 then Some (scr r, s)
      else Some (ret0, s))"

definition write_serial_reg :: "u64 \<Rightarrow> u8 \<Rightarrow> serial_state \<Rightarrow> serial_state option" where
  "write_serial_reg reg data s =
     (let r = ser s in
      if reg = 0 then
        if lcr r AND UART_LCR_DLAB \<noteq> 0
        then Some (s\<lparr>ser := r\<lparr>divisor := (divisor r AND 0xff00) OR ucast data\<rparr>\<rparr>)
        else let s1 = s\<lparr>ser := r\<lparr>thr_pending := 1\<rparr>\<rparr> in
          do { s2 \<leftarrow> (if mcr r AND UART_MCR_LOOP \<noteq> 0 then put_received data s1
                      else Some (s1\<lparr>err := err s1 @ [Char data]\<rparr>));
               Some (update_serial_iir s2) }
      else if reg = 1 then
        if lcr r AND UART_LCR_DLAB \<noteq> 0
        then Some (s\<lparr>ser := r\<lparr>divisor := (divisor r AND 0x00ff) OR push_bit 8 (ucast data)\<rparr>\<rparr>)
        else let changed = (ier r XOR data) AND 0x0f;
                 s1 = s\<lparr>ser := r\<lparr>ier := data AND 0x0f\<rparr>\<rparr>
             in Some (if changed \<noteq> 0 then update_serial_iir s1 else s1)
      else if reg = 3 then Some (s\<lparr>ser := r\<lparr>lcr := data\<rparr>\<rparr>)
      else if reg = 4 then Some (s\<lparr>ser := r\<lparr>mcr := data\<rparr>\<rparr>)
      else if reg = 7 then Some (s\<lparr>ser := r\<lparr>scr := data\<rparr>\<rparr>)
      else Some s)"

definition serial_handle_io :: "u8 \<Rightarrow> u64 \<Rightarrow> bytes \<Rightarrow> bool \<Rightarrow> serial_state \<Rightarrow> (bytes \<times> serial_state) option" where
  "serial_handle_io ret0 port data is_write s =
     (if data = [] then None
      else if is_write then do { s' \<leftarrow> write_serial_reg port (hd data) s; Some (data, s') }
      else do { (c, s') \<leftarrow> read_serial_reg ret0 port s; Some (data[0 := c], s') })"

text \<open>\<open>evt\<close> is the descriptor of the new eventfd; the ioctl and thread creation only report
  failure on standard error.\<close>

definition create_serial_dev :: "u32 \<Rightarrow> serial_state \<Rightarrow> iobus \<Rightarrow> serial_state \<times> iobus" where
  "create_serial_dev evt s h =
     (s\<lparr>ser := (ser s)\<lparr>interrupt_evt := evt\<rparr>\<rparr>,
      iobus_register_region PioBus SerialRegion
        (region_init SerialRegion IO_SERIAL_START IO_SERIAL_SIZE NoOwner Serial_handle_io h))"

section \<open>The interface of a bounded queue\<close>

text \<open>\<open>items\<close> abstracts the queue to the list of its elements, oldest first; the laws hold
  below the capacity.\<close>

datatype 'a queue_op = Put 'a | Get

primrec run_ops ::
    "('a \<Rightarrow> 'q \<Rightarrow> 'q option) \<Rightarrow> ('q \<Rightarrow> ('a \<times> 'q) option) \<Rightarrow> 'a queue_op list \<Rightarrow> 'q \<Rightarrow> ('a list \<times> 'q) option" where
  "run_ops put get [] q = Some ([], q)"
| "run_ops put get (op # ops) q =
     (case op of
        Put x \<Rightarrow> do { q' \<leftarrow> put x q; run_ops put get ops q' }
      | Get \<Rightarrow> do { (x, q') \<leftarrow> get q; (xs, q'') \<leftarrow> run_ops put get ops q'; Some (x # xs, q'') })"

primrec puts :: "'a queue_op list \<Rightarrow> 'a list" where
  "puts [] = []"
| "puts (op # ops) = (case op of Put x \<Rightarrow> x # puts ops | Get \<Rightarrow> puts ops)"

text \<open>The operations never overrun or underrun a queue of capacity \<open>cap\<close> that holds \<open>n\<close>.\<close>

primrec within :: "nat \<Rightarrow> nat \<Rightarrow> 'a queue_op list \<Rightarrow> bool" where
  "within cap n [] = True"
| "within cap n (op # ops) =
     (case op of Put x \<Rightarrow> n < cap \<and> within cap (n + 1) ops | Get \<Rightarrow> 0 < n \<and> within cap (n - 1) ops)"

locale ring_queue =
  fixes put :: "'a \<Rightarrow> 'q \<Rightarrow> 'q option"
    and get :: "'q \<Rightarrow> ('a \<times> 'q) option"
    and items :: "'q \<Rightarrow> 'a list"
    and invar :: "'q \<Rightarrow> bool"
    and cap :: nat
  assumes put_items: "invar q \<Longrightarrow> length (items q) < cap \<Longrightarrow>
        \<exists>q'. put x q = Some q' \<and> invar q' \<and> items q' = items q @ [x]"
    and get_items: "invar q \<Longrightarrow> items q \<noteq> [] \<Longrightarrow>
        \<exists>q'. get q = Some (hd (items q), q') \<and> invar q' \<and> items q' = tl (items q)"
begin

lemma run_ops_fifo:
  "invar q \<Longrightarrow> within cap (length (items q)) ops \<Longrightarrow>
   \<exists>out q'. run_ops put get ops q = Some (out, q') \<and> invar q' \<and> items q @ puts ops = out @ items q'"
proof (induction ops arbitrary: q)
  case (Cons op ops)
  show ?case
  proof (cases op)
    case (Put x)
    then obtain q1 where "put x q = Some q1" "invar q1" "items q1 = items q @ [x]"
      using put_items [of q x] Cons.prems by auto
    then show ?thesis using Cons.IH [of q1] Cons.prems Put by auto
  next
    case Get
    then have ne: "items q \<noteq> []" using Cons.prems by auto
    obtain q1 where q1: "get q = Some (hd (items q), q1)" "invar q1" "items q1 = tl (items q)"
      using get_items [OF Cons.prems(1) ne] by blast
    have "within cap (length (items q1)) ops" using Cons.prems(2) Get q1(3) by simp
    then obtain out q' where "run_ops put get ops q1 = Some (out, q')" "invar q'"
      "items q1 @ puts ops = out @ items q'" using Cons.IH q1(2) by blast
    then show ?thesis using q1 ne Get by (cases "items q") auto
  qed
qed simp

end

definition fifo_inv :: "SerialFIFO \<Rightarrow> bool" where
  "fifo_inv f \<longleftrightarrow> length (f_data f) = 16 \<and> unat (f_head f) < 16 \<and> unat (f_tail f) < 16 \<and>
     unat (f_head f) = (unat (f_tail f) + unat (f_count f)) mod 16"

definition fifo_ok :: "SerialFIFO \<Rightarrow> bool" where
  "fifo_ok f \<longleftrightarrow> fifo_inv f \<and> unat (f_count f) \<le> 16"

definition fifo_items :: "SerialFIFO \<Rightarrow> bytes" where
  "fifo_items f = map (\<lambda>i. f_data f ! ((unat (f_tail f) + i) mod 16)) [0..<unat (f_count f)]"

lemma length_fifo_items [simp]: "length (fifo_items f) = unat (f_count f)"
  by (simp add: fifo_items_def)

lemma unat_inc_mod16:
  "unat (x :: u8) < 16 \<Longrightarrow> unat (if x + 1 = 16 then 0 else x + 1) = (unat x + 1) mod 16"
proof -
  assume x: "unat x < 16"
  then have s: "unat (x + 1) = unat x + 1" by (simp add: unat_word_ariths)
  show ?thesis
  proof (cases "x + 1 = 16")
    case True
    then have "unat x + 1 = 16" using s by simp
    with True show ?thesis by simp
  next
    case False
    then have "unat x + 1 \<noteq> unat (16 :: u8)" using s by (metis word_unat_eq_iff)
    with False x s show ?thesis by simp
  qed
qed

lemma unat_count_inc: "unat (c + 1 :: u8) = (unat c + 1) mod 256"
  by (simp add: unat_word_ariths)

lemma mod_256_16: "(a + b mod 256) mod 16 = (a + b) mod (16 :: nat)"
proof -
  have "b mod 256 mod 16 = b mod (16 :: nat)" by (rule mod_mod_cancel) simp
  then show ?thesis by (metis mod_add_right_eq)
qed

lemma mod_16_neq: "i < n \<Longrightarrow> n < 16 \<Longrightarrow> (t + i) mod 16 \<noteq> (t + n) mod (16 :: nat)"
proof
  assume "i < n" "n < 16" "(t + i) mod 16 = (t + n) mod 16"
  then have "16 dvd t + n - (t + i)" by (metis mod_eq_dvd_iff_nat add_le_cancel_left less_imp_le)
  then have "16 dvd n - i" by simp
  with \<open>i < n\<close> have "16 \<le> n - i" by (intro dvd_imp_le) auto
  with \<open>n < 16\<close> show False by simp
qed

lemma fifo_put_eq:
  "fifo_inv f \<Longrightarrow> \<exists>f'. fifo_put c f = Some f' \<and> f_data f' = (f_data f)[unat (f_head f) := c] \<and>
     unat (f_head f') = (unat (f_head f) + 1) mod 16 \<and> f_tail f' = f_tail f \<and> f_count f' = f_count f + 1"
  using unat_inc_mod16 [of "f_head f"]
  by (auto simp: fifo_inv_def fifo_put_def Let_def const_simps)

lemma fifo_get_eq:
  "fifo_inv f \<Longrightarrow> f_count f \<noteq> 0 \<Longrightarrow>
   \<exists>f'. fifo_get f = Some (f_data f ! unat (f_tail f), f') \<and> f_data f' = f_data f \<and>
     unat (f_tail f') = (unat (f_tail f) + 1) mod 16 \<and> f_head f' = f_head f \<and> f_count f' = f_count f - 1"
  using unat_inc_mod16 [of "f_tail f"]
  by (auto simp: fifo_inv_def fifo_get_def Let_def const_simps)

lemma fifo_put_inv: "fifo_inv f \<Longrightarrow> \<exists>f'. fifo_put c f = Some f' \<and> fifo_inv f' \<and> f_count f' = f_count f + 1"
proof -
  assume f: "fifo_inv f"
  obtain f' where f': "fifo_put c f = Some f'" "f_data f' = (f_data f)[unat (f_head f) := c]"
    "unat (f_head f') = (unat (f_head f) + 1) mod 16" "f_tail f' = f_tail f" "f_count f' = f_count f + 1"
    using fifo_put_eq [OF f] by blast
  have "unat (f_head f') = (unat (f_tail f') + unat (f_count f')) mod 16"
    using f f'(3,4,5) by (simp add: fifo_inv_def unat_count_inc mod_256_16 mod_Suc_eq)
  then show ?thesis using f f' by (auto simp: fifo_inv_def)
qed

lemma fifo_get_inv:
  "fifo_inv f \<Longrightarrow> \<exists>c f'. fifo_get f = Some (c, f') \<and> fifo_inv f' \<and>
     f_count f' = (if f_count f = 0 then 0 else f_count f - 1)"
proof (cases "f_count f = 0")
  case True
  assume "fifo_inv f"
  then show ?thesis using True by (simp add: fifo_get_def)
next
  case False
  assume f: "fifo_inv f"
  obtain f' where f': "fifo_get f = Some (f_data f ! unat (f_tail f), f')" "f_data f' = f_data f"
    "unat (f_tail f') = (unat (f_tail f) + 1) mod 16" "f_head f' = f_head f" "f_count f' = f_count f - 1"
    using fifo_get_eq [OF f False] by blast
  have "0 < unat (f_count f)" using False by (simp add: unat_gt_0)
  then have c: "unat (f_count f) = unat (f_count f') + 1"
    using f'(5) by (simp add: unat_sub word_le_nat_alt)
  have "unat (f_head f') = (unat (f_tail f') + unat (f_count f')) mod 16"
    using f c f'(3,4) by (simp add: fifo_inv_def mod_simps)
  then show ?thesis using f f' False by (auto simp: fifo_inv_def)
qed

lemma fifo_items_put:
  assumes "fifo_inv f" "unat (f_count f) < 16" "fifo_put c f = Some f'"
  shows "fifo_items f' = fifo_items f @ [c]"
proof -
  let ?t = "unat (f_tail f)" and ?n = "unat (f_count f)"
  have f': "f_data f' = (f_data f)[unat (f_head f) := c]" "f_tail f' = f_tail f" "unat (f_count f') = ?n + 1"
    using fifo_put_eq [OF assms(1), of c] assms(2,3) by (auto simp: unat_count_inc)
  have h: "unat (f_head f) = (?t + ?n) mod 16" "length (f_data f) = 16" using assms(1) by (auto simp: fifo_inv_def)
  have "(f_data f)[unat (f_head f) := c] ! ((?t + i) mod 16) = f_data f ! ((?t + i) mod 16)" if "i < ?n" for i
  proof -
    have "(?t + i) mod 16 \<noteq> (?t + ?n) mod 16" using that assms(2) by (rule mod_16_neq)
    then show ?thesis using h by simp
  qed
  then show ?thesis using f' h by (auto simp: fifo_items_def)
qed

lemma fifo_items_get:
  assumes "fifo_inv f" "f_count f \<noteq> 0" "fifo_get f = Some (c, f')"
  shows "fifo_items f = c # fifo_items f'"
proof -
  have f': "c = f_data f ! unat (f_tail f)" "f_data f' = f_data f" "unat (f_tail f') = (unat (f_tail f) + 1) mod 16"
    "f_count f' = f_count f - 1"
    using fifo_get_eq [OF assms(1,2)] assms(3) by auto
  have "0 < unat (f_count f)" using assms(2) by (simp add: unat_gt_0)
  then have n: "unat (f_count f) = Suc (unat (f_count f'))"
    using f'(4) by (simp add: unat_sub word_le_nat_alt)
  have "unat (f_tail f) < 16" using assms(1) by (simp add: fifo_inv_def)
  then show ?thesis using f'(1-3) n
    by (auto simp: fifo_items_def map_upt_Suc mod_simps simp del: upt_Suc)
qed

interpretation sf: ring_queue fifo_put fifo_get fifo_items fifo_ok 16
proof unfold_locales
  fix f :: SerialFIFO and x :: u8
  show "\<exists>f'. fifo_put x f = Some f' \<and> fifo_ok f' \<and> fifo_items f' = fifo_items f @ [x]"
    if "fifo_ok f" "length (fifo_items f) < 16"
  proof -
    have i: "fifo_inv f" using that by (simp add: fifo_ok_def)
    obtain f' where f': "fifo_put x f = Some f'" "fifo_inv f'" "f_count f' = f_count f + 1"
      using fifo_put_inv [OF i] by blast
    moreover have "fifo_items f' = fifo_items f @ [x]"
      using fifo_items_put [OF i _ f'(1)] that(2) by simp
    ultimately show ?thesis using that(2) by (auto simp: fifo_ok_def unat_count_inc)
  qed
  show "\<exists>f'. fifo_get f = Some (hd (fifo_items f), f') \<and> fifo_ok f' \<and> fifo_items f' = tl (fifo_items f)"
    if "fifo_ok f" "fifo_items f \<noteq> []"
  proof -
    have i: "fifo_inv f" using that by (simp add: fifo_ok_def)
    have c: "f_count f \<noteq> 0" using that(2) by (metis length_0_conv length_fifo_items unsigned_0)
    obtain x f' where f': "fifo_get f = Some (x, f')" "fifo_inv f'" "f_count f' = f_count f - 1"
      using fifo_get_inv [OF i] c by auto
    have it: "fifo_items f = x # fifo_items f'" using fifo_items_get [OF i c f'(1)] .
    have "unat (f_count f) = Suc (unat (f_count f'))" using arg_cong [OF it, of length] by simp
    then show ?thesis using f'(1,2) it that(1) by (simp add: fifo_ok_def)
  qed
qed

section \<open>The port as a state machine\<close>

definition serial_inv :: "serial_state \<Rightarrow> bool" where
  "serial_inv s \<longleftrightarrow> fifo_inv (recv_fifo (ser s)) \<and>
     (f_count (recv_fifo (ser s)) \<noteq> 0 \<longrightarrow> lsr (ser s) AND UART_LSR_DR \<noteq> 0) \<and>
     ier (ser s) AND 0x0f = ier (ser s) \<and>
     iir (ser s) \<in> {UART_IIR_NO_INT, UART_IIR_THRI, UART_IIR_RDI}"

text \<open>A step is one call by the vcpu thread (a port read or write) or by the input thread.\<close>

inductive serial_step :: "serial_state \<Rightarrow> serial_state \<Rightarrow> bool" where
  recv: "receive_serial_input b s = Some s' \<Longrightarrow> serial_step s s'"
| rd: "read_serial_reg ret0 port s = Some (c, s') \<Longrightarrow> serial_step s s'"
| wr: "write_serial_reg port b s = Some s' \<Longrightarrow> serial_step s s'"

inductive serial_reach :: "serial_state \<Rightarrow> bool" where
  init: "serial_reach (serial_0\<lparr>ser := Serial_0\<lparr>interrupt_evt := evt\<rparr>\<rparr>)"
| step: "serial_reach s \<Longrightarrow> serial_step s s' \<Longrightarrow> serial_reach s'"

lemma update_iir_fields [simp]:
  "recv_fifo (ser (update_serial_iir s)) = recv_fifo (ser s)"
  "lsr (ser (update_serial_iir s)) = lsr (ser s)"
  "ier (ser (update_serial_iir s)) = ier (ser s)"
  "lcr (ser (update_serial_iir s)) = lcr (ser s)"
  "mcr (ser (update_serial_iir s)) = mcr (ser s)"
  by (auto simp: update_serial_iir_def Let_def)

lemma update_iir_value:
  "iir (ser (update_serial_iir s)) =
     (if ier (ser s) AND UART_IER_RDI \<noteq> 0 \<and> lsr (ser s) AND UART_LSR_DR \<noteq> 0 then UART_IIR_RDI
      else if ier (ser s) AND UART_IER_THRI \<noteq> 0 \<and> thr_pending (ser s) > 0 then UART_IIR_THRI
      else UART_IIR_NO_INT)"
  by (simp add: update_serial_iir_def Let_def const_simps)

lemma update_iir_irqs:
  "irqs (update_serial_iir s) =
     irqs s + (if iir (ser (update_serial_iir s)) = UART_IIR_NO_INT then 0 else 1)"
  by (simp add: update_serial_iir_def Let_def const_simps)

lemma update_iir_inv:
  "fifo_inv (recv_fifo (ser s)) \<Longrightarrow> (f_count (recv_fifo (ser s)) \<noteq> 0 \<Longrightarrow> lsr (ser s) AND UART_LSR_DR \<noteq> 0) \<Longrightarrow>
   ier (ser s) AND 0x0f = ier (ser s) \<Longrightarrow> serial_inv (update_serial_iir s)"
  by (auto simp: serial_inv_def update_iir_value)

lemma dr_set: "(x OR UART_LSR_DR) AND UART_LSR_DR \<noteq> 0"
proof -
  have "bit ((x OR UART_LSR_DR) AND UART_LSR_DR) 0" by (simp add: bit_simps const_simps)
  then show ?thesis by auto
qed

lemma put_received_inv:
  assumes "serial_inv s"
  shows "\<exists>s' f. put_received b s = Some s' \<and> serial_inv s' \<and> fifo_put b (recv_fifo (ser s)) = Some f \<and>
    ser s' = (ser s)\<lparr>recv_fifo := f, lsr := lsr (ser s) OR UART_LSR_DR\<rparr> \<and> irqs s' = irqs s"
proof -
  obtain f where f: "fifo_put b (recv_fifo (ser s)) = Some f" "fifo_inv f"
    using fifo_put_inv assms by (metis serial_inv_def)
  then show ?thesis using assms dr_set [of "lsr (ser s)"]
    by (auto simp: put_received_def serial_inv_def Let_def)
qed

lemma update_iir_keeps: "serial_inv s \<Longrightarrow> serial_inv (update_serial_iir s)"
  by (rule update_iir_inv) (simp_all add: serial_inv_def)

lemma receive_inv: "serial_inv s \<Longrightarrow> \<exists>s'. receive_serial_input b s = Some s' \<and> serial_inv s'"
  using put_received_inv [of s b] update_iir_keeps
  by (cases "mcr (ser s) AND UART_MCR_LOOP = 0") (auto simp: receive_serial_input_def)

lemma read_data_reg:
  assumes "serial_inv s" "lcr (ser s) AND UART_LCR_DLAB = 0"
  shows "\<exists>c f s'. read_serial_reg ret0 0 s = Some (c, s') \<and> serial_inv s' \<and> recv_fifo (ser s') = f \<and>
    lcr (ser s') = lcr (ser s) \<and> mcr (ser s') = mcr (ser s) \<and>
    (if f_count (recv_fifo (ser s)) = 0 then c = ret0 \<and> f = recv_fifo (ser s)
     else fifo_get (recv_fifo (ser s)) = Some (c, f))"
proof (cases "f_count (recv_fifo (ser s)) = 0")
  case True
  then have "serial_inv (update_serial_iir (s\<lparr>ser := (ser s)\<lparr>lsr := lsr (ser s) AND NOT UART_LSR_DR\<rparr>\<rparr>))"
    using assms(1) by (intro update_iir_inv) (auto simp: serial_inv_def)
  then show ?thesis using assms True by (simp add: read_serial_reg_def Let_def)
next
  case False
  have "fifo_inv (recv_fifo (ser s))" using assms(1) by (simp add: serial_inv_def)
  then obtain c f where f: "fifo_get (recv_fifo (ser s)) = Some (c, f)" "fifo_inv f"
    using fifo_get_inv by blast
  have "serial_inv (update_serial_iir (s\<lparr>ser := if f_count f = 0
      then (ser s)\<lparr>recv_fifo := f, lsr := lsr (ser s) AND NOT UART_LSR_DR\<rparr> else (ser s)\<lparr>recv_fifo := f\<rparr>\<rparr>))"
    using f(2) False assms(1) by (intro update_iir_inv) (auto simp: serial_inv_def)
  then show ?thesis using f(1) False assms by (auto simp: read_serial_reg_def Let_def)
qed

lemma read_inv:
  assumes "serial_inv s"
  shows "\<exists>c s'. read_serial_reg ret0 port s = Some (c, s') \<and> serial_inv s'"
proof (cases "port = 0 \<and> lcr (ser s) AND UART_LCR_DLAB = 0")
  case False
  then show ?thesis using assms by (auto simp: read_serial_reg_def Let_def serial_inv_def)
next
  case True
  then show ?thesis using read_data_reg [OF assms, of ret0] by blast
qed

lemma write_inv:
  assumes "serial_inv s"
  shows "\<exists>s'. write_serial_reg port b s = Some s' \<and> serial_inv s'"
proof -
  let ?s1 = "s\<lparr>ser := (ser s)\<lparr>thr_pending := 1\<rparr>\<rparr>"
  have s1: "serial_inv ?s1" "serial_inv (?s1\<lparr>err := e\<rparr>)" for e using assms by (simp_all add: serial_inv_def)
  obtain s2 where s2: "put_received b ?s1 = Some s2" "serial_inv s2"
    using put_received_inv [OF s1(1)] by blast
  have ier: "serial_inv (s\<lparr>ser := (ser s)\<lparr>ier := b AND 15\<rparr>\<rparr>)"
    using assms by (simp add: serial_inv_def and.assoc)
  have div: "serial_inv (s\<lparr>ser := (ser s)\<lparr>divisor := d\<rparr>\<rparr>)" for d using assms by (simp add: serial_inv_def)
  note upd = update_iir_keeps [OF s2(2)] update_iir_keeps [OF s1(2)] update_iir_keeps [OF ier]
  consider "port = 0" | "port = 1" | "port \<noteq> 0" "port \<noteq> 1" by blast
  then show ?thesis
  proof cases
    case 1
    then show ?thesis using s2 upd div by (auto simp: write_serial_reg_def Let_def)
  next
    case 2
    then show ?thesis using ier upd div by (auto simp: write_serial_reg_def Let_def)
  next
    case 3
    then show ?thesis using assms by (simp add: write_serial_reg_def Let_def) (auto simp: serial_inv_def)
  qed
qed

lemma serial_step_inv: "serial_step s s' \<Longrightarrow> serial_inv s \<Longrightarrow> serial_inv s'"
proof (induction rule: serial_step.induct)
  case (recv b s s')
  then show ?case using receive_inv [of s b] by auto
next
  case (rd ret0 port s c s')
  then show ?case using read_inv [of s ret0 port] by auto
next
  case (wr port b s s')
  then show ?case using write_inv [of s port b] by auto
qed

lemma serial_0_inv: "serial_inv (serial_0\<lparr>ser := Serial_0\<lparr>interrupt_evt := evt\<rparr>\<rparr>)"
  by (simp add: serial_inv_def serial_0_def Serial_0_def fifo_inv_def)

lemma serial_reach_inv: "serial_reach s \<Longrightarrow> serial_inv s"
  by (induction rule: serial_reach.induct) (auto intro: serial_0_inv serial_step_inv)

text \<open>The terminal in raw mode: input is passed on byte by byte and not echoed, the other modes are those it had; after a
  failed \<open>tcgetattr\<close> they are whatever the variable held.\<close>

lemma serial_raw_mode_bits:
  assumes "0 \<le> wr"
  shows "bit (serial_raw_mode rd t0 wr tty) k \<longleftrightarrow> k \<noteq> 1 \<and> k \<noteq> 3 \<and> bit (if rd < 0 then t0 else tty) k"
proof -
  have "bit ICANON k \<longleftrightarrow> k = 1" "bit ECHO k \<longleftrightarrow> k = 3"
    using bit_push_bit_iff [of 1 "1 :: u32" k] bit_push_bit_iff [of 3 "1 :: u32" k] by (auto simp: push_bit_eq_mult bit_1_iff const_simps)
  moreover have "bit x k \<Longrightarrow> k < 32" for x :: u32 using bit_imp_le_length [of x k] by simp
  ultimately show ?thesis
    using assms by (auto simp: serial_raw_mode_def Let_def bit_and_iff bit_not_iff)
qed

section \<open>Properties\<close>

text \<open>The line status register says exactly whether the FIFO holds data. The 8-bit count makes this fail when it wraps.\<close>

definition announced :: "serial_state \<Rightarrow> bool" where
  "announced s \<longleftrightarrow> (lsr (ser s) AND UART_LSR_DR \<noteq> 0 \<longleftrightarrow> f_count (recv_fifo (ser s)) \<noteq> 0)"

lemma dr_bit: "(x AND NOT UART_LSR_DR) AND UART_LSR_DR = 0" "(x OR UART_LSR_DR) AND UART_LSR_DR \<noteq> 0"
proof -
  have "bit ((x OR UART_LSR_DR) AND UART_LSR_DR) 0" by (simp add: UART_LSR_DR_def bit_simps)
  then show "(x OR UART_LSR_DR) AND UART_LSR_DR \<noteq> 0" by auto
qed (simp add: and.assoc)

lemma announced_put:
  assumes "put_received b s = Some s'" "f_count (recv_fifo (ser s)) \<noteq> 255"
  shows "announced s'"
proof -
  have "f_count (recv_fifo (ser s)) = 255" if "f_count (recv_fifo (ser s)) + 1 = 0"
  proof -
    have "(- 1 :: u8) = 255" by simp
    then show ?thesis using add.inverse_unique [of 1 "f_count (recv_fifo (ser s))"] that by (simp only: add.commute)
  qed
  then have "f_count (recv_fifo (ser s)) + 1 \<noteq> 0" using assms(2) by blast
  then show ?thesis
    using assms(1) dr_bit(2) by (auto simp: put_received_def fifo_put_def announced_def Let_def split: Option.bind_splits if_splits)
qed

lemma announced_iir [simp]: "announced (update_serial_iir s) = announced s"
  by (simp add: announced_def update_serial_iir_def Let_def)

lemma announced_read:
  "announced s \<Longrightarrow> read_serial_reg ret0 port s = Some (c, s') \<Longrightarrow> announced s'"
  using dr_bit(1)
  by (auto simp: read_serial_reg_def announced_def Let_def fifo_get_def split: Option.bind_splits if_splits)

lemma announced_step:
  assumes "serial_step s s'" "announced s" "f_count (recv_fifo (ser s)) \<noteq> 255"
  shows "announced s'"
  using assms
proof (induction rule: serial_step.induct)
  case (recv b s s')
  then show ?case by (auto simp: receive_serial_input_def split: Option.bind_splits if_splits dest: announced_put)
next
  case (rd ret0 port s c s')
  then show ?case by (blast intro: announced_read)
next
  case (wr port b s s')
  then show ?case
    by (auto simp: write_serial_reg_def Let_def split: Option.bind_splits if_splits dest: announced_put) (auto simp: announced_def)
qed

lemma announced_0: "announced (serial_0\<lparr>ser := Serial_0\<lparr>interrupt_evt := evt\<rparr>\<rparr>)"
  by (simp add: announced_def serial_0_def Serial_0_def const_simps)

lemma announced_wrap:
  assumes "serial_inv s" "f_count (recv_fifo (ser s)) = 255" "mcr (ser s) AND UART_MCR_LOOP = 0"
  shows "\<exists>s'. receive_serial_input b s = Some s' \<and> f_count (recv_fifo (ser s')) = 0 \<and> \<not> announced s'"
proof -
  obtain s1 f where s1: "put_received b s = Some s1" "fifo_put b (recv_fifo (ser s)) = Some f"
    "ser s1 = (ser s)\<lparr>recv_fifo := f, lsr := lsr (ser s) OR UART_LSR_DR\<rparr>"
    using put_received_inv [OF assms(1)] by blast
  moreover have "f_count f = 0" using s1(2) assms(2) by (auto simp: fifo_put_def Let_def split: if_splits)
  ultimately show ?thesis using assms(3) dr_bit(2) by (simp add: receive_serial_input_def announced_def)
qed

text \<open>Property C19. In every state the port can reach, under any interleaving of guest accesses and
  input bytes, every operation stays inside the FIFO array and returns; head, tail and count
  agree modulo the FIFO length; a FIFO whose count is not zero is always announced in the line status
  register; and the enable and identification registers hold legal values. At the start the register announces exactly whether the FIFO holds data, and every operation keeps it so, except that the 256th unread byte wraps the count to zero and leaves the FIFO announced as filled.\<close>

theorem serial_reachable_safe:
  assumes "serial_reach s"
  shows "serial_inv s \<and> (\<exists>s'. receive_serial_input b s = Some s') \<and>
    (\<exists>c s'. read_serial_reg ret0 port s = Some (c, s')) \<and> (\<exists>s'. write_serial_reg port b s = Some s') \<and>
    announced (serial_0\<lparr>ser := Serial_0\<lparr>interrupt_evt := evt\<rparr>\<rparr>) \<and>
    (announced s \<and> f_count (recv_fifo (ser s)) \<noteq> 255 \<longrightarrow> (\<forall>s'. serial_step s s' \<longrightarrow> announced s')) \<and>
    (f_count (recv_fifo (ser s)) = 255 \<and> mcr (ser s) AND UART_MCR_LOOP = 0 \<longrightarrow>
      (\<exists>s'. receive_serial_input b s = Some s' \<and> f_count (recv_fifo (ser s')) = 0 \<and> \<not> announced s'))"
proof -
  note inv = serial_reach_inv [OF assms]
  have "announced s \<and> f_count (recv_fifo (ser s)) \<noteq> 255 \<longrightarrow> (\<forall>s'. serial_step s s' \<longrightarrow> announced s')"
    by (intro impI allI) (elim conjE, rule announced_step)
  then show ?thesis using inv receive_inv [OF inv] read_inv [OF inv] write_inv [OF inv] announced_0 announced_wrap [OF inv] by blast
qed

theorem serial_reachable_safe_witness:
  "serial_inv (serial_0\<lparr>ser := Serial_0\<lparr>interrupt_evt := 7\<rparr>\<rparr>) \<and>
   (\<exists>s'. receive_serial_input 65 (serial_0\<lparr>ser := Serial_0\<lparr>interrupt_evt := 7\<rparr>\<rparr>) = Some s')"
  using serial_reachable_safe [OF serial_reach.init [of 7], of 65] by blast

text \<open>The port as a queue of input bytes: \<open>receive_serial_input\<close> against reads of the receiver
  buffer register.\<close>

definition serial_ok :: "serial_state \<Rightarrow> bool" where
  "serial_ok s \<longleftrightarrow> serial_inv s \<and> unat (f_count (recv_fifo (ser s))) \<le> 16 \<and>
     lcr (ser s) AND UART_LCR_DLAB = 0 \<and> mcr (ser s) AND UART_MCR_LOOP = 0"

definition serial_items :: "serial_state \<Rightarrow> bytes" where
  "serial_items s = fifo_items (recv_fifo (ser s))"

interpretation sp: ring_queue receive_serial_input "read_serial_reg ret0 0" serial_items serial_ok 16
proof unfold_locales
  fix s :: serial_state and x :: u8
  show "\<exists>s'. receive_serial_input x s = Some s' \<and> serial_ok s' \<and> serial_items s' = serial_items s @ [x]"
    if "serial_ok s" "length (serial_items s) < 16"
  proof -
    have inv: "serial_inv s" using that by (simp add: serial_ok_def)
    then obtain s1 f where s1: "put_received x s = Some s1" "serial_inv s1"
      "fifo_put x (recv_fifo (ser s)) = Some f" "ser s1 = (ser s)\<lparr>recv_fifo := f, lsr := lsr (ser s) OR UART_LSR_DR\<rparr>"
      using put_received_inv by blast
    have "fifo_items f = serial_items s @ [x]"
      using fifo_items_put [OF _ _ s1(3)] inv that(2) by (simp add: serial_inv_def serial_items_def)
    moreover from this have "unat (f_count f) \<le> 16"
      using that(2) by (metis Suc_leI length_append_singleton length_fifo_items)
    ultimately show ?thesis
      using s1 that(1) update_iir_keeps [OF s1(2)]
      by (simp add: receive_serial_input_def serial_ok_def serial_items_def)
  qed
  show "\<exists>s'. read_serial_reg ret0 0 s = Some (hd (serial_items s), s') \<and> serial_ok s' \<and> serial_items s' = tl (serial_items s)"
    if "serial_ok s" "serial_items s \<noteq> []"
  proof -
    have inv: "serial_inv s" "lcr (ser s) AND UART_LCR_DLAB = 0" using that(1) by (simp_all add: serial_ok_def)
    have c: "f_count (recv_fifo (ser s)) \<noteq> 0"
      using that(2) by (metis length_0_conv length_fifo_items serial_items_def unsigned_0)
    then obtain x s' where s': "read_serial_reg ret0 0 s = Some (x, s')" "serial_inv s'"
      "fifo_get (recv_fifo (ser s)) = Some (x, recv_fifo (ser s'))"
      "lcr (ser s') = lcr (ser s)" "mcr (ser s') = mcr (ser s)"
      using read_data_reg [OF inv, of ret0] by auto
    have it: "serial_items s = x # serial_items s'"
      unfolding serial_items_def using fifo_items_get [OF _ c s'(3)] inv(1) by (simp add: serial_inv_def)
    have "unat (f_count (recv_fifo (ser s))) = Suc (unat (f_count (recv_fifo (ser s'))))"
      using arg_cong [OF it, of length] by (simp add: serial_items_def)
    then show ?thesis using s' it that(1) by (simp add: serial_ok_def)
  qed
qed

text \<open>Property C20. As long as at most 16 bytes are waiting, input reaches the guest unchanged, complete
  and in order: for any interleaving of received bytes and reads of the receiver buffer, what
  was waiting followed by what was received is what the guest read followed by what is still
  waiting.\<close>

theorem serial_input_in_order:
  assumes "serial_ok s" "within 16 (length (serial_items s)) ops"
  shows "\<exists>out s'. run_ops receive_serial_input (read_serial_reg ret0 0) ops s = Some (out, s') \<and> serial_ok s' \<and>
    serial_items s @ puts ops = out @ serial_items s'"
  by (rule sp.run_ops_fifo [OF assms])

theorem serial_input_in_order_witness:
  "\<exists>out s'. run_ops receive_serial_input (read_serial_reg 0 0) [Put 1, Put 2, Get, Put 3, Get, Get] serial_0 =
     Some (out, s') \<and> [1, 2, 3] = out @ serial_items s'"
proof -
  have "serial_ok serial_0" "serial_items serial_0 = []"
    using serial_0_inv [of 0]
    by (auto simp: serial_ok_def serial_items_def fifo_items_def serial_0_def Serial_0_def const_simps)
  then show ?thesis
    using serial_input_in_order [of serial_0 "[Put 1, Put 2, Get, Put 3, Get, Get]" 0] by auto
qed

text \<open>Interrupts: outside loopback mode an input byte is announced (data ready), and the
  eventfd is written exactly when receive interrupts are enabled or a transmit interrupt is
  pending and enabled; the identification register says which, receive first.\<close>

theorem serial_receive_interrupt:
  assumes "serial_inv s" "mcr (ser s) AND UART_MCR_LOOP = 0"
  shows "\<exists>s'. receive_serial_input b s = Some s' \<and> lsr (ser s') AND UART_LSR_DR \<noteq> 0 \<and>
    irqs s' = irqs s + (if ier (ser s) AND UART_IER_RDI \<noteq> 0 \<or>
                          ier (ser s) AND UART_IER_THRI \<noteq> 0 \<and> thr_pending (ser s) > 0 then 1 else 0) \<and>
    iir (ser s') = (if ier (ser s) AND UART_IER_RDI \<noteq> 0 then UART_IIR_RDI
                    else if ier (ser s) AND UART_IER_THRI \<noteq> 0 \<and> thr_pending (ser s) > 0 then UART_IIR_THRI
                    else UART_IIR_NO_INT)"
proof -
  obtain s1 f where s1: "put_received b s = Some s1"
    "ser s1 = (ser s)\<lparr>recv_fifo := f, lsr := lsr (ser s) OR UART_LSR_DR\<rparr>" "irqs s1 = irqs s"
    using put_received_inv [OF assms(1)] by blast
  have "UART_IIR_RDI \<noteq> UART_IIR_NO_INT" "UART_IIR_THRI \<noteq> UART_IIR_NO_INT" by (simp_all add: const_simps)
  then show ?thesis using s1 assms(2) dr_set [of "lsr (ser s)"]
    by (simp add: receive_serial_input_def update_iir_irqs update_iir_value)
qed

theorem serial_receive_interrupt_witness:
  "\<exists>s'. receive_serial_input 65 (serial_0\<lparr>ser := Serial_0\<lparr>ier := 1\<rparr>\<rparr>) = Some s' \<and> irqs s' = 1 \<and>
     iir (ser s') = UART_IIR_RDI"
proof -
  have "serial_inv (serial_0\<lparr>ser := Serial_0\<lparr>ier := 1\<rparr>\<rparr>)"
    by (simp add: serial_inv_def serial_0_def Serial_0_def fifo_inv_def)
  from serial_receive_interrupt [OF this, of 65] show ?thesis
    by (auto simp: serial_0_def Serial_0_def const_simps)
qed

text \<open>An overrun is not handled, only reported: with 16 bytes waiting, one more byte
  overwrites the oldest one, the count becomes 17, and the next read returns the newest byte
  instead of the oldest.\<close>

theorem serial_overrun_corrupts:
  assumes "serial_ok s" "unat (f_count (recv_fifo (ser s))) = 16"
  shows "\<exists>s' s''. receive_serial_input b s = Some s' \<and> unat (f_count (recv_fifo (ser s'))) = 17 \<and>
    last (err s') = FifoOverflow \<and> read_serial_reg ret0 0 s' = Some (b, s'')"
proof -
  have inv: "serial_inv s" "fifo_inv (recv_fifo (ser s))" using assms(1) by (simp_all add: serial_ok_def serial_inv_def)
  obtain f where f: "fifo_put b (recv_fifo (ser s)) = Some f" "fifo_inv f"
    "f_data f = (f_data (recv_fifo (ser s)))[unat (f_head (recv_fifo (ser s))) := b]"
    "f_tail f = f_tail (recv_fifo (ser s))" "f_count f = f_count (recv_fifo (ser s)) + 1"
    using fifo_put_eq [OF inv(2), of b] fifo_put_inv [OF inv(2), of b] by auto
  define s1 where "s1 = s\<lparr>err := err s @ [FifoOverflow],
    ser := (ser s)\<lparr>recv_fifo := f, lsr := lsr (ser s) OR UART_LSR_DR\<rparr>\<rparr>"
  have r: "receive_serial_input b s = Some (update_serial_iir s1)"
    using assms f(1) by (simp add: receive_serial_input_def put_received_def Let_def serial_ok_def s1_def const_simps)
  have inv': "serial_inv (update_serial_iir s1)" using receive_inv [OF inv(1), of b] r by simp
  have n: "unat (f_count f) = 17" using assms(2) f(5) by (simp add: unat_count_inc)
  then have c: "f_count f \<noteq> 0" by auto
  have "unat (f_head (recv_fifo (ser s))) = unat (f_tail f)"
    using inv(2) assms(2) f(4) by (simp add: fifo_inv_def)
  then have "f_data f ! unat (f_tail f) = b"
    using f(3) inv(2) by (simp add: fifo_inv_def)
  then obtain f' where "fifo_get f = Some (b, f')" using fifo_get_eq [OF f(2) c] by auto
  moreover have "recv_fifo (ser (update_serial_iir s1)) = f" by (simp add: s1_def)
  moreover have "lcr (ser (update_serial_iir s1)) AND UART_LCR_DLAB = 0"
    using assms(1) by (simp add: s1_def serial_ok_def)
  ultimately have "\<exists>s''. read_serial_reg ret0 0 (update_serial_iir s1) = Some (b, s'')"
    using read_data_reg [OF inv', of ret0] c by auto
  moreover have "err (update_serial_iir s1) = err s @ [FifoOverflow]"
    by (simp add: update_serial_iir_def Let_def s1_def)
  ultimately show ?thesis using r n by (auto simp: s1_def)
qed

theorem serial_overrun_corrupts_witness:
  "\<exists>s' s''. receive_serial_input 65 (serial_0\<lparr>ser := Serial_0\<lparr>lsr := 0x61,
      recv_fifo := \<lparr>f_data = replicate 16 66, f_count = 16, f_itl = 0, f_tail = 0, f_head = 0\<rparr>\<rparr>\<rparr>) = Some s' \<and>
    read_serial_reg 0 0 s' = Some (65, s'')"
proof -
  let ?s = "serial_0\<lparr>ser := Serial_0\<lparr>lsr := 0x61,
      recv_fifo := \<lparr>f_data = replicate 16 66, f_count = 16, f_itl = 0, f_tail = 0, f_head = 0\<rparr>\<rparr>\<rparr>"
  have "serial_ok ?s"
    by (simp add: serial_ok_def serial_inv_def serial_0_def Serial_0_def fifo_inv_def const_simps)
  from serial_overrun_corrupts [OF this, of 65 0] show ?thesis by (auto simp: serial_0_def)
qed

text \<open>The input thread stores behind its one-byte buffer whenever \<open>read\<close> delivers a byte or fails, so it is undefined from
  the first byte typed on; only end of file, which delivers NUL bytes, is defined.\<close>

lemma serial_thread_event_overrun: "n \<noteq> 0 \<Longrightarrow> serial_thread_event b0 n b s = None"
  by (auto simp: serial_thread_event_def Let_def)

lemma serial_thread_events_overrun: "\<exists>r \<in> set rs. fst r \<noteq> 0 \<Longrightarrow> serial_thread_events rs bs = None"
  by (induction rs arbitrary: bs) (auto simp: serial_thread_event_overrun split: Option.bind_split)

lemma serial_thread_overrun:
  "\<exists>rs. Some rs \<in> set es \<and> (\<exists>r \<in> set rs. fst r \<noteq> 0) \<Longrightarrow> serial_thread_fn es bs = None"
proof (induction es arbitrary: bs)
  case (Cons e es)
  show ?case
  proof (cases "\<exists>rs. e = Some rs \<and> (\<exists>r \<in> set rs. fst r \<noteq> 0)")
    case True
    then obtain rs where "e = Some rs" "serial_thread_events rs bs = None" using serial_thread_events_overrun by blast
    then show ?thesis by simp
  next
    case False
    then have "\<exists>rs. Some rs \<in> set es \<and> (\<exists>r \<in> set rs. fst r \<noteq> 0)" using Cons.prems by auto
    then have "serial_thread_fn es bs' = None" for bs' by (rule Cons.IH)
    then show ?thesis by (auto split: Option.bind_split)
  qed
qed simp

text \<open>With an empty FIFO a read of the receiver buffer returns whatever the local variable held.\<close>

lemma serial_empty_read_indeterminate:
  "lcr (ser s) AND UART_LCR_DLAB = 0 \<Longrightarrow> f_count (recv_fifo (ser s)) = 0 \<Longrightarrow>
     map_option fst (read_serial_reg ret0 0 s) = Some ret0"
  by (simp add: read_serial_reg_def Let_def)

end
