(* ===== verification/Machine.thy ===== *)
theory Machine
  imports Boot Virtio_blk Serial
begin

text \<open>
  \<open>src/main.c\<close>: the devices put together. The handler table that the buses call, the loop of the
  vcpu thread over the exits KVM reports, the start-up sequence of \<open>main\<close>, and the machine as a
  state machine whose steps are the guest's accesses, the arrival of terminal input and the
  notifications the event thread dispatches.
\<close>

section \<open>The machine\<close>

datatype kvm_create = KVM_CREATE_IRQCHIP | KVM_SET_TSS_ADDR u64 | KVM_CREATE_PIT2 u32 | KVM_CREATE_PIT

record machine =
  m_blk :: blk_state
  m_serial :: serial_state
  m_initrd :: "u64 \<times> u64"
  m_vcpu :: vcpu_globals
  m_created :: "kvm_create list"
  m_sets :: "kvm_set list"

text \<open>\<open>m_created\<close> and \<open>m_sets\<close> are the calls made to KVM for the interrupt controller, the timer and
  the state of the vcpu, in order.\<close>

text \<open>\<open>me_ret0\<close> is the indeterminate variable of the serial port's register read.\<close>

record machine_env =
  me_blk :: blk_env
  me_ret0 :: u8

definition m_io :: "machine \<Rightarrow> iobus" where
  "m_io m = io (pci (m_blk m))"

definition on_pci :: "pci_state handler \<Rightarrow> machine handler" where
  "on_pci h offset sz data w own m =
     do { (data', p) \<leftarrow> h offset sz data w own (pci (m_blk m));
          Some (data', m\<lparr>m_blk := (m_blk m)\<lparr>pci := p\<rparr>\<rparr>) }"

definition on_blk :: "blk_state handler \<Rightarrow> machine handler" where
  "on_blk h offset sz data w own m =
     do { (data', b) \<leftarrow> h offset sz data w own (m_blk m); Some (data', m\<lparr>m_blk := b\<rparr>) }"

definition on_serial :: "u8 \<Rightarrow> machine handler" where
  "on_serial ret0 offset sz data w own m =
     do { (data', s) \<leftarrow> serial_handle_io ret0 offset data w (m_serial m); Some (data', m\<lparr>m_serial := s\<rparr>) }"

text \<open>The functions the regions point to. The data port of the PCI bus calls another handler, so the
  table has a depth; with depth two every handler but the data port itself is reached through
  the data port.\<close>

primrec io_call :: "machine_env \<Rightarrow> nat \<Rightarrow> io_fn \<Rightarrow> machine handler" where
  "io_call env 0 fn = (\<lambda>_ _ _ _ _ _. None)"
| "io_call env (Suc n) fn =
     (case fn of
        Pcibus_addr_io \<Rightarrow> on_pci pcibus_addr_io
      | Pcibus_data_io \<Rightarrow> pcibus_data_io (io_call env n) (\<lambda>m. pci (m_blk m))
      | Serial_handle_io \<Rightarrow> on_serial (me_ret0 env)
      | Pci_config_handle_io \<Rightarrow> on_pci pci_config_handle_io
      | Virtio_pci_iospace_handle_io \<Rightarrow>
          on_blk (virtio_pci_iospace_handle_io (events (me_blk env)) (virtio_blk_handle_output (me_blk env))))"

section \<open>The vcpu thread\<close>

datatype kvm_exit =
    RunFailed
  | KVM_EXIT_HLT
  | KVM_EXIT_IO kvm_run_io
  | KVM_EXIT_MMIO kvm_run_mmio
  | KVM_EXIT_IRQ_WINDOW_OPEN
  | KVM_EXIT_SHUTDOWN
  | KVM_EXIT_UNKNOWN
  | KVM_EXIT_INTERNAL_ERROR
  | KVM_EXIT_SYSTEM_EVENT
  | KVM_EXIT_OTHER nat

text \<open>One round of the loop of \<open>vcpu_exec\<close>: \<open>Inl\<close> returns from the function, \<open>Inr\<close> goes on to the loop
  condition. \<open>ret\<close> is \<open>None\<close> as long as the variable is uninitialised. \<open>run_ok\<close> says
  whether the \<open>kvm_run\<close> structure is mapped.\<close>

definition vcpu_exit ::
    "machine_env \<Rightarrow> bool \<Rightarrow> kvm_exit \<Rightarrow> int option \<Rightarrow> machine \<Rightarrow> ((int \<times> machine) + (int option \<times> machine)) option" where
  "vcpu_exit env run_ok e ret m =
     (if e = RunFailed then Some (Inl (- 1, m))
      else if \<not> run_ok then None
      else case e of
        KVM_EXIT_HLT \<Rightarrow> Some (Inl (0, m))
      | KVM_EXIT_IO run \<Rightarrow>
          do { (run', m') \<leftarrow> iobus_handle_pio (io_call env 2) m_io run m; Some (Inr (Some 0, m')) }
      | KVM_EXIT_MMIO run \<Rightarrow>
          do { (run', m') \<leftarrow> iobus_handle_mmio (io_call env 2) m_io run m; Some (Inr (Some 0, m')) }
      | KVM_EXIT_IRQ_WINDOW_OPEN \<Rightarrow> Some (Inr (Some (- 1), m))
      | KVM_EXIT_SHUTDOWN \<Rightarrow> Some (Inr (Some (- 1), m))
      | KVM_EXIT_UNKNOWN \<Rightarrow> Some (Inr (Some (- 1), m))
      | _ \<Rightarrow> Some (Inr (ret, m)))"

datatype 's running = Returned int 's | Running "int option" 's

text \<open>The loop over the exits KVM has reported so far; \<open>Running\<close> waits for the next one. The test of
  an uninitialised \<open>ret\<close> is undefined.\<close>

primrec vcpu_exec ::
    "machine_env \<Rightarrow> bool \<Rightarrow> kvm_exit list \<Rightarrow> int option \<Rightarrow> machine \<Rightarrow> machine running option" where
  "vcpu_exec env run_ok [] ret m = Some (Running ret m)"
| "vcpu_exec env run_ok (e # es) ret m =
     do { r \<leftarrow> vcpu_exit env run_ok e ret m;
          case r of
            Inl (c, m') \<Rightarrow> Some (Returned c m')
          | Inr (ret', m') \<Rightarrow>
              do { c \<leftarrow> ret';
                   if c = 0 then vcpu_exec env run_ok es ret' m' else Some (Returned c m') } }"

text \<open>The vcpu object of \<open>main\<close>: its descriptor, and whether the \<open>kvm_run\<close> structure is mapped. Failures of
  the calls are only reported; \<open>iv_mmap\<close> says whether mapping that descriptor with that
  length succeeds.\<close>

record VCPUState =
  vcpu_fd :: int
  kvm_run :: bool

record init_vcpu_env =
  iv_create :: int
  iv_mmap_size :: int
  iv_mmap :: "int \<Rightarrow> int \<Rightarrow> bool"
  iv_munmap :: int

definition init_vcpu :: "init_vcpu_env \<Rightarrow> VCPUState" where
  "init_vcpu env =
     (let fd = iv_create env; mmap_size = iv_mmap_size env
      in \<lparr>vcpu_fd = fd, kvm_run = iv_mmap env fd mmap_size\<rparr>)"

definition destroy_vcpu :: "init_vcpu_env \<Rightarrow> VCPUState \<Rightarrow> VCPUState" where
  "destroy_vcpu env vcpu = (if iv_munmap env < 0 then vcpu else vcpu\<lparr>kvm_run := False\<rparr>)"

definition vcpu_thread_fn ::
    "machine_env \<Rightarrow> init_vcpu_env \<Rightarrow> VCPUState \<Rightarrow> kvm_exit list \<Rightarrow> machine \<Rightarrow> (machine running \<times> VCPUState) option" where
  "vcpu_thread_fn env ienv cpu exits m =
     do { r \<leftarrow> vcpu_exec env (kvm_run cpu) exits None m;
          case r of Returned c m' \<Rightarrow> Some (r, destroy_vcpu ienv cpu) | Running ret m' \<Rightarrow> Some (r, cpu) }"

section \<open>Start-up\<close>

text \<open>The ioctls of \<open>create_base_dev\<close>, whose failures are only reported; \<open>pit2\<close> is the answer to
  \<open>KVM_CHECK_EXTENSION\<close>.\<close>

definition create_base_dev :: "int \<Rightarrow> kvm_create list" where
  "create_base_dev pit2 =
     [KVM_CREATE_IRQCHIP, KVM_SET_TSS_ADDR (0xfffbc000 + 0x1000),
      if pit2 \<noteq> 0 then KVM_CREATE_PIT2 1 else KVM_CREATE_PIT]"

datatype getopt = OptK string | OptI string | OptD string | OptH | OptOther

record options =
  kernel_file :: "string option"
  initrd_file :: "string option"
  disk_file :: "string option"

text \<open>The loop over the options \<open>getopt_long\<close> returns; \<open>Inl\<close> is \<open>exit (1)\<close> after the usage text.\<close>

primrec parse_options :: "getopt list \<Rightarrow> options \<Rightarrow> int + options" where
  "parse_options [] opt = Inr opt"
| "parse_options (c # cs) opt =
     (case c of
        OptK s \<Rightarrow> parse_options cs (opt\<lparr>kernel_file := Some s\<rparr>)
      | OptI s \<Rightarrow> parse_options cs (opt\<lparr>initrd_file := Some s\<rparr>)
      | OptD s \<Rightarrow> parse_options cs (opt\<lparr>disk_file := Some s\<rparr>)
      | OptH \<Rightarrow> Inl 1
      | OptOther \<Rightarrow> parse_options cs opt)"

text \<open>The loop that retries \<open>KVM_CREATE_VM\<close> while it returns \<open>-EINTR\<close>, over the results of its calls.\<close>

fun create_vm :: "int list \<Rightarrow> int option" where
  "create_vm [] = None"
| "create_vm (r # rs) = (if r = - 4 then create_vm rs else Some r)"

record main_env =
  e_open_kvm :: int
  e_api_version :: int
  e_create_vm :: "int list"
  e_pit2 :: int
  e_mm :: mm_env
  e_files :: files
  e_ioeventfd :: init_env
  e_serial_evt :: u32
  e_cfg_len :: nat
  e_vcpu :: vcpu_env
  e_code0 :: kvm_segment
  e_data0 :: kvm_segment
  e_init_vcpu :: init_vcpu_env
  e_thread :: int
  e_machine :: machine_env
  e_exits :: "kvm_exit list"

definition KVM_API_VERSION :: int where "KVM_API_VERSION = 12"

text \<open>The result of the program: \<open>MainReturn\<close> from \<open>main\<close>, \<open>MainExit\<close> through \<open>exit\<close>,
  \<open>MainRunning\<close> while the guest runs. The device initialisation between memory set-up and the
  start of the vcpu is \<open>create_devices\<close>: the ioeventfd thread, the buses, the serial port and the
  disk; \<open>Inl\<close> is the early return when the image cannot be opened.\<close>

datatype main_result = MainReturn int | MainExit int | MainRunning machine

definition create_devices :: "main_env \<Rightarrow> string option \<Rightarrow> machine \<Rightarrow> (int + machine) option" where
  "create_devices env disk_path m =
     (let b = m_blk m;
          b1 = b\<lparr>ioev := snd (ioeventfd_init (e_ioeventfd env) (ioev b)),
                 pci := pcibus_init ((pci b)\<lparr>io := iobus_init (io (pci b))\<rparr>)\<rparr>;
          (s, h) = create_serial_dev (e_serial_evt env) (m_serial m) (io (pci b1));
          m1 = m\<lparr>m_serial := s, m_blk := b1\<lparr>pci := (pci b1)\<lparr>io := h\<rparr>\<rparr>\<rparr>
      in case disk_path of
           None \<Rightarrow> Some (Inr m1)
         | Some path \<Rightarrow>
             (let (r, b2) = diskimg_init (e_files env path) (m_blk m1)
              in if r < 0 then Some (Inl (- 1))
                 else do { b3 \<leftarrow> virtio_blk_init_pci (e_cfg_len env) 0 b2; Some (Inr (m1\<lparr>m_blk := b3\<rparr>)) }))"

definition main :: "main_env \<Rightarrow> getopt list \<Rightarrow> machine \<Rightarrow> main_result option" where
  "main env opts m =
     (case parse_options opts \<lparr>kernel_file = None, initrd_file = None, disk_file = None\<rparr> of
        Inl c \<Rightarrow> Some (MainExit c)
      | Inr opt \<Rightarrow>
        case (kernel_file opt, initrd_file opt) of
          (Some kf, Some rf) \<Rightarrow>
            if e_open_kvm env < 0 then Some (MainReturn (- 1))
            else if e_api_version env \<noteq> KVM_API_VERSION then Some (MainReturn (- 1))
            else do {
              vm \<leftarrow> create_vm (e_create_vm env);
              if vm < 0 then Some (MainReturn (- 1))
              else do {
                (ret, st) \<leftarrow> init_memory_map (e_mm env) RAM_SIZE (ram (m_blk m));
                b \<leftarrow> init_linux_boot (e_files env) kf rf \<lparr>b_mem = st, InitrdSize = 0, InitrdAddr = 0\<rparr>;
                case b of
                  Inl c \<Rightarrow> Some (MainExit c)
                | Inr b \<Rightarrow> do {
                    d \<leftarrow> create_devices env (disk_file opt)
                          (m\<lparr>m_blk := (m_blk m)\<lparr>ram := b_mem b\<rparr>, m_initrd := (InitrdAddr b, InitrdSize b),
                             m_created := create_base_dev (e_pit2 env)\<rparr>);
                    case d of
                      Inl c \<Rightarrow> Some (MainReturn c)
                    | Inr m1 \<Rightarrow>
                        (let v = setup_vcpu (e_vcpu env) (e_code0 env) (e_data0 env) VCPU_ID (m_vcpu m1)
                         in do {
                           calls \<leftarrow> reset_vcpu (e_vcpu env) VCPU_COUNT VCPU_ID v;
                           if e_thread env \<noteq> 0 then Some (MainExit 1)
                           else do {
                             (r, cpu) \<leftarrow> vcpu_thread_fn (e_machine env) (e_init_vcpu env) (init_vcpu (e_init_vcpu env)) (e_exits env)
                                           (m1\<lparr>m_vcpu := v, m_sets := calls\<rparr>);
                             case r of Returned c m' \<Rightarrow> Some (MainReturn 0) | Running ret m' \<Rightarrow> Some (MainRunning m') } }) } } }
        | _ \<Rightarrow> Some (MainReturn (- 1)))"

section \<open>What the device handlers keep of guest memory\<close>

lemma host_write_keeps: "host_write st p bs = Some st' \<Longrightarrow> ram_keeps st st'"
  by (auto simp: host_write_def store_bytes_eq upd_bytes_keeps split: Option.bind_splits if_splits)

text \<open>A property of every result of a computation, through the \<open>do\<close> notation.\<close>

lemma pred_bindI: "(\<And>y. x = Some y \<Longrightarrow> pred_option P (f y)) \<Longrightarrow> pred_option P (x \<bind> f)"
  by (cases x) auto

lemma pred_optionD: "pred_option P x \<Longrightarrow> x = Some y \<Longrightarrow> P y"
  by simp

definition either :: "'a + 'a \<Rightarrow> 'a" where
  "either r = (case r of Inl x \<Rightarrow> x | Inr x \<Rightarrow> x)"

lemma either_simps [simp]: "either (Inl x) = x" "either (Inr x) = x"
  by (simp_all add: either_def)

text \<open>What the request handler does to the state is made of five kinds of steps: taking a descriptor, writing guest
  memory, the two transfers, and the interrupt. A transitive relation that holds over each of them holds
  over the handler.\<close>

locale blk_relation =
  fixes R :: "blk_state \<Rightarrow> blk_state \<Rightarrow> bool"
  assumes refl: "R s s" and trans: "R s s' \<Longrightarrow> R s' s'' \<Longrightarrow> R s s''"
    and get_avail: "blk_get_avail i s = Some (d, s') \<Longrightarrow> R s s'"
    and mem: "host_write (ram s) p bs = Some m \<Longrightarrow> R s (s\<lparr>ram := m\<rparr>)"
    and rd: "R s (snd (virtio_blk_read env data sector n s))"
    and wr: "R s (snd (virtio_blk_write env data sector n s))"
    and interrupt: "blk_interrupt i s = Some s' \<Longrightarrow> R s s'"
begin

lemma mem_first: "R s s1 \<Longrightarrow> host_write (ram s1) p bs = Some m \<Longrightarrow> R s (s1\<lparr>ram := m\<rparr>)"
  using trans mem by blast

lemma mem_again: "R s (s1\<lparr>ram := m\<rparr>) \<Longrightarrow> host_write m p bs = Some m' \<Longrightarrow> R s (s1\<lparr>ram := m'\<rparr>)"
  using trans mem [of "s1\<lparr>ram := m\<rparr>" p bs m'] by fastforce

lemma finish: "pred_option (\<lambda>r. R s (either r)) (blk_finish i used_desc desc r status s)"
  unfolding blk_finish_def
  by (auto intro!: pred_bindI refl) (rule mem_again, rule mem_again, rule mem_first, erule get_avail, assumption+)

lemma request: "pred_option (\<lambda>r. R s (case r of Inl s' \<Rightarrow> s' | Inr rs \<Rightarrow> snd rs)) (blk_request env i desc req s)"
proof -
  have fin: "R s (case map_sum id (\<lambda>s. (req', s)) r of Inl s' \<Rightarrow> s' | Inr rs \<Rightarrow> snd rs)"
    if "blk_finish i u d c st s2 = Some r" "R s s2" for r u d c st s2 and req' :: bytes
    using pred_optionD [OF finish that(1)] trans [OF that(2)] by (cases r) (simp_all add: either_def)
  have xfer: "R s (snd (virtio_blk_read env data sector n s1))" "R s (snd (virtio_blk_write env data sector n s1))"
    if "blk_get_avail i s = Some (d, s1)" for d s1 data sector n
    using trans [OF get_avail [OF that]] rd wr by blast+
  show ?thesis
    unfolding blk_request_def Let_def
    by (auto intro!: pred_bindI simp: case_prod_unfold refl split: if_splits)
      (erule fin, (erule xfer | simp add: refl))+
qed

lemma loop:
  assumes "blk_loop env i req s = Some r"
  shows "R s (snd r)"
proof (rule blk_loop.raw_induct [where P = "\<lambda>env i req s r. R s (snd r)", OF _ assms])
  fix rec env i req s r
  assume IH: "\<And>env i req s r. rec env i req s = Some r \<Longrightarrow> R s (snd r)"
    and body: "(do { (d, s1) \<leftarrow> blk_get_avail i s;
          case d of None \<Rightarrow> Some (True, s1)
          | Some desc \<Rightarrow>
              do { res \<leftarrow> blk_request env i desc req s1;
                   case res of Inl s2 \<Rightarrow> Some (False, s2) | Inr rs \<Rightarrow> rec env i (fst rs) (snd rs) } }) = Some r"
  obtain d s1 where d: "blk_get_avail i s = Some (d, s1)" using body by (auto split: Option.bind_splits)
  note s1 = get_avail [OF d]
  show "R s (snd r)"
  proof (cases d)
    case None
    then show ?thesis using body d s1 by auto
  next
    case (Some desc)
    then obtain res where res: "blk_request env i desc req s1 = Some res"
      "(case res of Inl s2 \<Rightarrow> Some (False, s2) | Inr rs \<Rightarrow> rec env i (fst rs) (snd rs)) = Some r"
      using body d by (auto split: Option.bind_splits)
    have k: "R s1 (case res of Inl s' \<Rightarrow> s' | Inr rs \<Rightarrow> snd rs)"
      by (rule pred_optionD [OF request res(1)])
    have "R s1 (snd r)"
    proof (cases res)
      case (Inr rs)
      with res(2) have "R (snd rs) (snd r)" by (intro IH) simp
      then show ?thesis using k Inr by (auto intro: trans)
    qed (use res(2) k in auto)
    with s1 show ?thesis by (rule trans)
  qed
qed

lemma handle_output: "virtio_blk_handle_output env i s = Some s' \<Longrightarrow> R s s'"
  by (auto simp: virtio_blk_handle_output_def dest!: loop interrupt split: Option.bind_splits if_splits intro: trans)

end

text \<open>The same for the register window: its steps are the commands on the device, enabling a queue, a write into the
  device's own configuration, and the handler of a queue.\<close>

definition dev_command :: "(virtio_pci_dev \<Rightarrow> virtio_pci_dev option) \<Rightarrow> bool" where
  "dev_command f \<longleftrightarrow> f \<in> {virtio_pci_cmd_select_device_feature, virtio_pci_cmd_write_guest_feature, virtio_pci_cmd_select_virtq} \<or>
     (\<exists>off bs. f = config_put off bs) \<or> (\<exists>off bs. f = queue_write off bs)"

locale window_relation =
  fixes R :: "'m virtio_state_scheme \<Rightarrow> 'm virtio_state_scheme \<Rightarrow> bool"
    and handle :: "nat \<Rightarrow> 'm virtio_state_scheme \<Rightarrow> 'm virtio_state_scheme option"
  assumes refl: "R s s" and trans: "R s s' \<Longrightarrow> R s' s'' \<Longrightarrow> R s s''"
    and handle: "handle i s = Some s' \<Longrightarrow> R s s'"
    and command: "dev_command f \<Longrightarrow> on_dev f s = Some s' \<Longrightarrow> R s s'"
    and enable: "virtio_pci_cmd_enable_virtq env s = Some s' \<Longrightarrow> R s s'"
    and dev_cfg: "obj_write (dev_cfg_obj s) k bs = Some ob \<Longrightarrow> R s (s\<lparr>dev_cfg_obj := ob\<rparr>)"
begin

lemma callback: "virtio_pci_ioevent_callback handle i s = Some s' \<Longrightarrow> R s s'"
  by (auto simp: virtio_pci_ioevent_callback_def virtq_notify_def refl dest: handle
      split: Option.bind_splits if_splits)

lemma commands:
  "on_dev (config_put off bs) s = Some s' \<Longrightarrow> R s s'" "on_dev (queue_write o' bs) s = Some s' \<Longrightarrow> R s s'"
  "on_dev virtio_pci_cmd_select_device_feature s = Some s' \<Longrightarrow> R s s'" "on_dev virtio_pci_cmd_write_guest_feature s = Some s' \<Longrightarrow> R s s'"
  "on_dev virtio_pci_cmd_select_virtq s = Some s' \<Longrightarrow> R s s'"
  by (erule command [rotated], auto simp: dev_command_def)+

lemma iospace_write:
  assumes "virtio_pci_iospace_write env handle data offset sz s = Some s'"
  shows "R s s'"
  using assms unfolding virtio_pci_iospace_write_def Let_def
  by (auto split: Option.bind_splits if_splits dest!: commands callback enable intro: trans dev_cfg)

lemma iospace: "virtio_pci_iospace_handle_io env handle offset sz data w own s = Some (data', s') \<Longrightarrow> R s s'"
  by (auto simp: virtio_pci_iospace_handle_io_def virtio_pci_iospace_read_def Let_def refl
      dest: iospace_write commands split: Option.bind_splits if_splits)

lemma events:
  "ioeventfd_events (virtio_pci_ioevent_callback handle) ds e b = Some (stop, e', b') \<Longrightarrow> R b b'"
proof (induction ds arbitrary: e b)
  case (Cons d ds)
  then show ?case
    by (auto simp: refl split: Option.bind_splits if_splits dest!: callback intro: trans)
qed (simp add: refl)

end

text \<open>Guest memory is one such relation.\<close>

definition blk_keeps :: "'m virtio_state_scheme \<Rightarrow> 'm virtio_state_scheme \<Rightarrow> bool" where
  "blk_keeps s s' \<longleftrightarrow> ram_keeps (ram s) (ram s')"

lemma blk_keeps_upd [simp]:
  "blk_keeps s s" "blk_keeps s (s\<lparr>vdev := d\<rparr>)" "blk_keeps s (s\<lparr>ioev := e\<rparr>)" "blk_keeps s (s\<lparr>dev_cfg_obj := ob\<rparr>)" "blk_keeps s (s\<lparr>pci := p\<rparr>)"
  by (simp_all add: blk_keeps_def)

lemma blk_keeps_trans: "blk_keeps s s' \<Longrightarrow> blk_keeps s' s'' \<Longrightarrow> blk_keeps s s''"
  unfolding blk_keeps_def by (rule ram_keeps_trans)

interpretation keeps: blk_relation blk_keeps
proof unfold_locales
  fix s s' s'' :: blk_state and i d p bs m env data sector n
  show "blk_keeps s s' \<Longrightarrow> blk_keeps s' s'' \<Longrightarrow> blk_keeps s s''" by (rule blk_keeps_trans)
  show "blk_get_avail i s = Some (d, s') \<Longrightarrow> blk_keeps s s'" by (auto simp: blk_get_avail_def split: Option.bind_splits)
  show "host_write (ram s) p bs = Some m \<Longrightarrow> blk_keeps s (s\<lparr>ram := m\<rparr>)" by (simp add: blk_keeps_def host_write_keeps)
  show "blk_keeps s (snd (virtio_blk_read env data sector n s))" "blk_keeps s (snd (virtio_blk_write env data sector n s))"
    by (auto simp: virtio_blk_read_def virtio_blk_write_def diskimg_read_def diskimg_write_def blk_keeps_def
        upd_bytes_keeps Let_def split: option.splits)
  show "blk_interrupt i s = Some s' \<Longrightarrow> blk_keeps s s'"
    by (auto simp: blk_interrupt_def blk_keeps_def split: Option.bind_splits if_splits)
qed simp

interpretation keepw: window_relation blk_keeps "virtio_blk_handle_output env" for env
proof unfold_locales
  fix s s' s'' :: blk_state and i f k bs ob and eenv :: "blk_state \<Rightarrow> event_env"
  show "blk_keeps s s' \<Longrightarrow> blk_keeps s' s'' \<Longrightarrow> blk_keeps s s''" by (rule blk_keeps_trans)
  show "virtio_blk_handle_output env i s = Some s' \<Longrightarrow> blk_keeps s s'" by (rule keeps.handle_output)
  show "on_dev f s = Some s' \<Longrightarrow> blk_keeps s s'" by (auto simp: on_dev_def split: Option.bind_splits)
  show "virtio_pci_cmd_enable_virtq eenv s = Some s' \<Longrightarrow> blk_keeps s s'"
    by (auto simp: virtio_pci_cmd_enable_virtq_def virtio_pci_init_ioeventfd_def Let_def blk_keeps_def split: Option.bind_splits)
qed simp_all

section \<open>The machine invariant\<close>

definition machine_inv :: "memory \<Rightarrow> machine \<Rightarrow> bool" where
  "machine_inv st m \<longleftrightarrow> serial_inv (m_serial m) \<and> ram_keeps st (ram (m_blk m))"

lemma machine_inv_blk: "machine_inv st m \<Longrightarrow> blk_keeps (m_blk m) b \<Longrightarrow> machine_inv st (m\<lparr>m_blk := b\<rparr>)"
  by (auto simp: machine_inv_def blk_keeps_def intro: ram_keeps_trans)

lemma serial_handle_io_inv:
  "serial_inv s \<Longrightarrow> serial_handle_io ret0 port data w s = Some (data', s') \<Longrightarrow> serial_inv s'"
  by (auto simp: serial_handle_io_def split: Option.bind_splits if_splits
      intro: serial_step_inv serial_step.wr serial_step.rd)

lemma io_call_keeps:
  "machine_inv st m \<Longrightarrow> io_call env n fn off sz data w own m = Some (data', m') \<Longrightarrow> machine_inv st m'"
proof (induction n arbitrary: fn off sz data w own m data' m')
  case (Suc n)
  have "handler_inv (io_call env n) (machine_inv st)"
    by unfold_locales (rule Suc.IH)
  note sub = handler_inv.bus_handle_io_keeps [OF this]
  show ?case
    using Suc.prems
    by (cases fn)
      (auto simp: on_pci_def on_blk_def on_serial_def pcibus_data_io_def Let_def
        intro: machine_inv_blk keepw.iospace sub split: Option.bind_splits,
       auto simp: machine_inv_def intro: serial_handle_io_inv)
qed simp

interpretation mach: handler_inv "io_call env n" m_io "machine_inv st" for env n st
  by unfold_locales (rule io_call_keeps)


text \<open>The steps of the running machine: an access of the vcpu thread, a byte of terminal input, and a
  round of the event thread. The input step is the call of \<open>receive_serial_input\<close>; that the thread before it also
  stores behind its buffer is the subject of \<open>serial_thread_overrun\<close>, not of this relation.\<close>

inductive machine_step :: "machine_env \<Rightarrow> machine \<Rightarrow> machine \<Rightarrow> bool" for env where
  pio: "iobus_handle_pio (io_call env 2) m_io run m = Some (run', m') \<Longrightarrow> machine_step env m m'"
| mmio: "iobus_handle_mmio (io_call env 2) m_io mrun m = Some (mrun', m') \<Longrightarrow> machine_step env m m'"
| recv: "receive_serial_input b (m_serial m) = Some s \<Longrightarrow> machine_step env m (m\<lparr>m_serial := s\<rparr>)"
| event: "ioeventfd_events (virtio_pci_ioevent_callback (virtio_blk_handle_output (me_blk env))) ds
      (ioev (m_blk m)) (m_blk m) = Some (stop, e, b) \<Longrightarrow> machine_step env m (m\<lparr>m_blk := b\<lparr>ioev := e\<rparr>\<rparr>)"

inductive machine_reach :: "machine_env \<Rightarrow> machine \<Rightarrow> machine \<Rightarrow> bool" for env m0 where
  start: "machine_reach env m0 m0"
| step: "machine_reach env m0 m \<Longrightarrow> machine_step env m m' \<Longrightarrow> machine_reach env m0 m'"

lemma machine_step_inv: "machine_step env m m' \<Longrightarrow> machine_inv st m \<Longrightarrow> machine_inv st m'"
proof (induction rule: machine_step.induct)
  case (pio run m run' m')
  then show ?case by (blast intro: mach.handle_pio_keeps)
next
  case (mmio mrun m mrun' m')
  then show ?case by (blast intro: mach.handle_mmio_keeps)
next
  case (recv b m s)
  then show ?case by (auto simp: machine_inv_def intro: serial_step_inv serial_step.recv)
next
  case (event ds m stop e b)
  then show ?case
    by (intro machine_inv_blk) (auto simp: blk_keeps_def dest!: keepw.events)
qed

lemma machine_reach_inv: "machine_reach env m0 m \<Longrightarrow> machine_inv st m0 \<Longrightarrow> machine_inv st m"
  by (induction rule: machine_reach.induct) (auto intro: machine_step_inv)

lemma vcpu_exec_append:
  "vcpu_exec env ok (xs @ ys) ret m =
     do { r \<leftarrow> vcpu_exec env ok xs ret m;
          case r of Returned c m' \<Rightarrow> Some (Returned c m') | Running ret' m' \<Rightarrow> vcpu_exec env ok ys ret' m' }"
proof (induction xs arbitrary: ret m)
  case (Cons x xs)
  show ?case
    by (auto simp: Cons.IH split: Option.bind_splits sum.splits)
qed simp

definition is_io :: "kvm_exit \<Rightarrow> bool" where
  "is_io e \<longleftrightarrow> (\<exists>run. e = KVM_EXIT_IO run) \<or> (\<exists>mrun. e = KVM_EXIT_MMIO mrun)"

lemma vcpu_exec_io:
  assumes "\<forall>e \<in> set ios. is_io e" "vcpu_exec env True ios ret m = Some r"
  shows "\<exists>m'. r = Running (if ios = [] then ret else Some 0) m' \<and> machine_reach env m m'"
  using assms
proof (induction ios arbitrary: r rule: rev_induct)
  case Nil
  then show ?case by (auto intro: machine_reach.start)
next
  case (snoc e ios)
  from snoc.prems(2) obtain r1 where r1: "vcpu_exec env True ios ret m = Some r1"
    by (auto simp: vcpu_exec_append split: Option.bind_splits)
  from snoc.IH [OF _ r1] snoc.prems(1) obtain m1 ret1 where m1: "r1 = Running ret1 m1" "machine_reach env m m1" by auto
  have "is_io e" using snoc.prems(1) by simp
  then obtain m2 where "r = Running (Some 0) m2" "machine_step env m1 m2"
    using snoc.prems(2) r1 m1(1) machine_step.pio [of env _ m1] machine_step.mmio [of env _ m1]
    by (auto simp: vcpu_exec_append is_io_def vcpu_exit_def split: Option.bind_splits)
  then show ?case using machine_reach.step [OF m1(2)] by simp
qed

section \<open>Properties\<close>

text \<open>The machine before \<open>main\<close>, with the zeroed static variables of the program.\<close>

definition blk_0 :: blk_state where
  "blk_0 = \<lparr>pci = pci_state_0, ram = memory_0, ioev = ioeventfd_0, vdev = zero_virtio_dev 0, dev_cfg_addr = 0,
     dev_cfg_obj = [], disk = [], disk_size = 0, irqs = 0\<rparr>"

definition machine_0 :: machine where
  "machine_0 = \<lparr>m_blk = blk_0, m_serial = serial_0, m_initrd = (0, 0), m_vcpu = vcpu_0, m_created = [], m_sets = []\<rparr>"

definition no_options :: options where
  "no_options = \<lparr>kernel_file = None, initrd_file = None, disk_file = None\<rparr>"

definition boot_lists :: "bus_id \<Rightarrow> region_id list" where
  "boot_lists = (\<lambda>_. [])(PioBus := [SerialRegion, PciDataRegion, PciAddrRegion])"

definition port_region :: "nat \<Rightarrow> region_id option" where
  "port_region p =
     (if 0x3f8 \<le> p \<and> p < 0x400 then Some SerialRegion
      else if 0xcfc \<le> p \<and> p < 0xd00 then Some PciDataRegion
      else if 0xcf8 \<le> p \<and> p < 0xcfc then Some PciAddrRegion else None)"

definition boot_io :: iobus where
  "boot_io = snd (create_serial_dev 0 serial_0 (io (pcibus_init (pci_state_0\<lparr>io := iobus_init iobus_0\<rparr>))))"

lemma boot_io_repr: "bus_repr boot_io boot_lists"
  by (simp add: boot_io_def create_serial_dev_def pcibus_init_def Let_def bus_repr_def boot_lists_def pci_state_0_def
      iobus_0_def empty_bus_def iobus_init_def region_init_def iobus_register_region_def store_defs zero_io_region_def)

lemma boot_io_find: "iobus_find_region boot_io PioBus p = Some (port_region (unat p))"
proof -
  have "iobus_find_region boot_io PioBus p = Some (List.find (\<lambda>r. bus_hit boot_io r p) (boot_lists PioBus))"
    by (rule ib.find_first [OF boot_io_repr])
  then show ?thesis
    by (simp add: boot_lists_def bus_hit_def region_hit_def boot_io_def create_serial_dev_def pcibus_init_def Let_def
        pci_state_0_def iobus_init_def region_init_def iobus_register_region_def store_defs const_simps
        port_region_def word_le_nat_alt)
qed


text \<open>Property C3. Whatever the guest accesses, whatever arrives on the terminal and whichever notifications the
  event thread dispatches, in any order: the memory slots and the host memory behind them
  stay as \<open>main\<close> set them up, so every guest address that was accessible remains accessible, and the
  serial port keeps its invariant.\<close>

theorem machine_reachable_inv:
  assumes "machine_reach env m0 m" "serial_inv (m_serial m0)" "mm_ok (ram (m_blk m0))"
  shows "serial_inv (m_serial m) \<and> mm_ok (ram (m_blk m)) \<and>
    MemMapper (ram (m_blk m)) = MemMapper (ram (m_blk m0)) \<and>
    get_ram_end (ram (m_blk m)) = get_ram_end (ram (m_blk m0)) \<and>
    (\<forall>a. get_userspace_addr (ram (m_blk m)) a = get_userspace_addr (ram (m_blk m0)) a) \<and>
    (\<forall>a n. guest_ok (ram (m_blk m)) a n = guest_ok (ram (m_blk m0)) a n)"
proof -
  have "machine_inv (ram (m_blk m0)) m"
    by (rule machine_reach_inv [OF assms(1)]) (simp add: machine_inv_def assms(2))
  then have k: "ram_keeps (ram (m_blk m0)) (ram (m_blk m))" and "serial_inv (m_serial m)"
    by (simp_all add: machine_inv_def)
  then show ?thesis
    using ram_keeps_mm_ok [OF k] ram_keeps_guest_ok [OF k] assms(3)
    by (auto simp: ram_keeps_def get_ram_end_def get_userspace_addr_def find_mapper_index_def)
qed

definition sample_machine_env :: machine_env where
  "sample_machine_env = \<lparr>me_blk = sample_blk_env, me_ret0 = 0\<rparr>"

definition sample_machine :: machine where
  "sample_machine = machine_0\<lparr>m_blk := blk_0\<lparr>ram := sample_memory, pci := pci_state_0\<lparr>io := boot_io\<rparr>\<rparr>\<rparr>"

lemma sample_machine_recv:
  "\<exists>s. receive_serial_input 65 (m_serial sample_machine) = Some s \<and>
     machine_reach sample_machine_env sample_machine (sample_machine\<lparr>m_serial := s\<rparr>)"
proof -
  have "serial_inv (m_serial sample_machine)"
    by (simp add: sample_machine_def machine_0_def serial_inv_def serial_0_def Serial_0_def fifo_inv_def)
  then obtain s where "receive_serial_input 65 (m_serial sample_machine) = Some s" using receive_inv by blast
  then show ?thesis by (blast intro: machine_reach.start machine_reach.step machine_step.recv)
qed

theorem machine_reachable_inv_witness:
  "\<exists>s. receive_serial_input 65 (m_serial sample_machine) = Some s \<and> serial_inv s \<and>
     mm_ok (ram (m_blk (sample_machine\<lparr>m_serial := s\<rparr>)))"
proof -
  obtain s where s: "receive_serial_input 65 (m_serial sample_machine) = Some s"
    "machine_reach sample_machine_env sample_machine (sample_machine\<lparr>m_serial := s\<rparr>)"
    using sample_machine_recv by blast
  have "serial_inv (m_serial sample_machine)" "mm_ok (ram (m_blk sample_machine))"
    by (simp_all add: sample_machine_def machine_0_def serial_inv_def serial_0_def Serial_0_def fifo_inv_def)
  then show ?thesis using machine_reachable_inv [OF s(2)] s(1) by auto
qed

text \<open>Property C35. The loop of the vcpu thread after a sequence of I/O exits that were all handled: it is still
  running, \<open>HLT\<close> ends it with 0, a failed \<open>KVM_RUN\<close>, an interrupt window, a shutdown and an unknown
  exit end it with \<open>-1\<close>. An internal error, a system event or any other exit leaves \<open>ret\<close> as it
  was: the loop goes on after an I/O exit, for ever if the error persists, and as the first
  exit it tests an uninitialised variable.\<close>

theorem vcpu_exec_outcome:
  assumes "\<forall>e \<in> set ios. is_io e" "vcpu_exec env True ios None m = Some r"
  shows "\<exists>m'. r = Running (if ios = [] then None else Some 0) m' \<and> machine_reach env m m' \<and>
    (\<forall>es. vcpu_exec env True (ios @ KVM_EXIT_HLT # es) None m = Some (Returned 0 m')) \<and>
    (\<forall>e \<in> {RunFailed, KVM_EXIT_IRQ_WINDOW_OPEN, KVM_EXIT_SHUTDOWN, KVM_EXIT_UNKNOWN}. \<forall>es.
       vcpu_exec env True (ios @ e # es) None m = Some (Returned (- 1) m')) \<and>
    (\<forall>e \<in> {KVM_EXIT_INTERNAL_ERROR, KVM_EXIT_SYSTEM_EVENT} \<union> range KVM_EXIT_OTHER. \<forall>n.
       vcpu_exec env True (ios @ replicate (Suc n) e) None m = (if ios = [] then None else Some (Running (Some 0) m')))"
proof -
  obtain m' where m': "r = Running (if ios = [] then None else Some 0) m'" "machine_reach env m m'"
    using vcpu_exec_io [OF assms] by blast
  have spin: "vcpu_exec env True (replicate n e) (Some 0) m' = Some (Running (Some 0) m')"
    if "e \<in> {KVM_EXIT_INTERNAL_ERROR, KVM_EXIT_SYSTEM_EVENT} \<union> range KVM_EXIT_OTHER" for n e
    using that by (induction n) (auto simp: vcpu_exit_def)
  have tl: "vcpu_exec env True (ios @ es) None m = vcpu_exec env True es (if ios = [] then None else Some 0) m'" for es
    using assms(2) m'(1) by (simp add: vcpu_exec_append)
  show ?thesis
    using m' spin unfolding tl by (intro exI [of _ m']) (auto simp: vcpu_exit_def)
qed


definition sample_out :: kvm_run_io where
  "sample_out = \<lparr>io_out = True, io_size = 1, io_port = 0x3f8, io_count = 1, io_data = [65]\<rparr>"

lemma sample_machine_out:
  "\<exists>r. vcpu_exec sample_machine_env True [KVM_EXIT_IO sample_out] None sample_machine = Some r"
proof -
  obtain s where s: "write_serial_reg 0 65 (m_serial sample_machine) = Some s"
    using write_inv [of "m_serial sample_machine" 0 65]
    by (auto simp: sample_machine_def machine_0_def serial_inv_def serial_0_def Serial_0_def fifo_inv_def)
  have f: "iobus_find_region boot_io PioBus 0x3f8 = Some (Some SerialRegion)"
    by (simp add: boot_io_find port_region_def)
  have serial: "io_call sample_machine_env 2 Serial_handle_io = on_serial (me_ret0 sample_machine_env)"
    by (simp add: numeral_2_eq_2)
  have "regions boot_io SerialRegion = \<lparr>r_bus = Some PioBus, r_base = 0x3f8, r_len = 8, r_owner = NoOwner,
      r_handle_io = Some Serial_handle_io, r_next = Some PciDataRegion\<rparr>"
    by (simp add: boot_io_def create_serial_dev_def pcibus_init_def Let_def pci_state_0_def iobus_init_def
        region_init_def iobus_register_region_def store_defs const_simps)
  then have "bus_handle_io (io_call sample_machine_env 2) m_io PioBus 0x3f8 1 [65] True sample_machine =
      Some ([65], sample_machine\<lparr>m_serial := s\<rparr>)"
    using s f by (simp add: bus_handle_io_def m_io_def sample_machine_def fits_region_def serial on_serial_def
        serial_handle_io_def Let_def)
  then show ?thesis
    by (simp add: vcpu_exit_def iobus_handle_pio_def sample_out_def obj_read_def obj_write_def)
qed

theorem vcpu_exec_outcome_witness:
  "\<exists>m'. vcpu_exec sample_machine_env True [KVM_EXIT_IO sample_out, KVM_EXIT_HLT] None sample_machine = Some (Returned 0 m')"
proof -
  obtain r where r: "vcpu_exec sample_machine_env True [KVM_EXIT_IO sample_out] None sample_machine = Some r"
    using sample_machine_out by blast
  have "\<forall>e \<in> set [KVM_EXIT_IO sample_out]. is_io e" by (simp add: is_io_def)
  from vcpu_exec_outcome [OF this r] show ?thesis by auto
qed


lemma parse_options_help: "OptH \<in> set opts \<Longrightarrow> parse_options opts opt = Inl 1"
  by (induction opts arbitrary: opt) (auto split: getopt.split)

lemma parse_options_keep:
  "OptH \<notin> set opts \<Longrightarrow> \<exists>opt'. parse_options opts opt = Inr opt' \<and>
     ((\<forall>s. OptK s \<notin> set opts) \<longrightarrow> kernel_file opt' = kernel_file opt) \<and>
     ((\<forall>s. OptI s \<notin> set opts) \<longrightarrow> initrd_file opt' = initrd_file opt)"
proof (induction opts arbitrary: opt)
  case (Cons c cs)
  then show ?case
    using Cons.IH [of "opt\<lparr>kernel_file := Some s\<rparr>" for s] Cons.IH [of "opt\<lparr>initrd_file := Some s\<rparr>" for s]
      Cons.IH [of "opt\<lparr>disk_file := Some s\<rparr>" for s]
    by (cases c) fastforce+
qed simp

text \<open>Property C36. How \<open>main\<close> ends before the guest runs: with the usage text, exit code 1, whenever \<open>-h\<close> is
  given; with \<open>-1\<close> when the kernel or the RAM disk is not named, KVM cannot be opened, has another
  version, or creates no VM. An interrupted creation is retried only when the call itself
  returns \<open>-EINTR\<close>.\<close>

theorem main_refuses:
  "(OptH \<in> set opts \<longrightarrow> main env opts m = Some (MainExit 1)) \<and>
   (OptH \<notin> set opts \<longrightarrow> (\<forall>s. OptK s \<notin> set opts) \<or> (\<forall>s. OptI s \<notin> set opts) \<longrightarrow>
      main env opts m = Some (MainReturn (- 1))) \<and>
   (OptH \<notin> set opts \<longrightarrow> e_open_kvm env < 0 \<or> e_api_version env \<noteq> KVM_API_VERSION \<or>
      (\<exists>k r rs. e_create_vm env = replicate k (- 4) @ r # rs \<and> r < 0 \<and> r \<noteq> - 4) \<longrightarrow>
      main env opts m = Some (MainReturn (- 1)))"
proof (intro conjI impI)
  show "main env opts m = Some (MainExit 1)" if "OptH \<in> set opts"
    using that by (simp add: main_def parse_options_help)
  assume "OptH \<notin> set opts"
  then obtain opt where opt: "parse_options opts no_options = Inr opt"
    "(\<forall>s. OptK s \<notin> set opts) \<Longrightarrow> kernel_file opt = None" "(\<forall>s. OptI s \<notin> set opts) \<Longrightarrow> initrd_file opt = None"
    using parse_options_keep [of opts no_options] by (auto simp: no_options_def)
  show "main env opts m = Some (MainReturn (- 1))" if "(\<forall>s. OptK s \<notin> set opts) \<or> (\<forall>s. OptI s \<notin> set opts)"
    using that opt by (auto simp: main_def no_options_def split: option.split)
  have vm: "create_vm (replicate k (- 4) @ r # rs) = Some r" if "r \<noteq> - 4" for k r rs
    using that by (induction k) simp_all
  show "main env opts m = Some (MainReturn (- 1))"
    if "e_open_kvm env < 0 \<or> e_api_version env \<noteq> KVM_API_VERSION \<or>
      (\<exists>k r rs. e_create_vm env = replicate k (- 4) @ r # rs \<and> r < 0 \<and> r \<noteq> - 4)"
    using that opt(1) by (auto simp: main_def no_options_def vm split: option.split)
qed


text \<open>Without a disk, device creation only fills the buses.\<close>

lemma create_devices_plain:
  assumes "io (pci (m_blk m)) = iobus_0" "pci_addr (pci (m_blk m)) = 0" "pci_devs (pci (m_blk m)) = (\<lambda>_. zero_dev)"
    and "m_serial m = serial_0"
  shows "\<exists>m1. create_devices env None m = Some (Inr m1) \<and> ram (m_blk m1) = ram (m_blk m) \<and> m_io m1 = boot_io \<and>
    serial_inv (m_serial m1) \<and> m_initrd m1 = m_initrd m \<and> m_vcpu m1 = m_vcpu m \<and> m_created m1 = m_created m"
proof -
  have "pci (m_blk m) = pci_state_0" using assms(1-3) by (simp add: pci_state_0_def)
  moreover have "pci_state_0\<lparr>io := iobus_init (io pci_state_0)\<rparr> = pci_state_0\<lparr>io := iobus_init iobus_0\<rparr>"
    by (simp add: pci_state_0_def)
  moreover have "snd (create_serial_dev e s h) = snd (create_serial_dev e' s' h)" for e e' s s' h
    by (simp add: create_serial_dev_def)
  moreover have "serial_inv (fst (create_serial_dev e serial_0 h))" for e h
    using serial_0_inv by (simp add: create_serial_dev_def serial_0_def)
  ultimately show ?thesis using assms(4)
    by (simp add: create_devices_def Let_def case_prod_unfold m_io_def boot_io_def)
qed


lemma vcpu_thread_result:
  "(do { (r, cpu') \<leftarrow> vcpu_thread_fn env ienv cpu exits m; f r }) = do { r \<leftarrow> vcpu_exec env (kvm_run cpu) exits None m; f r }"
  by (cases "vcpu_exec env (kvm_run cpu) exits None m") (auto simp: vcpu_thread_fn_def split: running.split)

text \<open>The answers of the host under which \<open>main\<close> reaches the guest.\<close>

definition host_ready :: "main_env \<Rightarrow> memory \<Rightarrow> bool" where
  "host_ready env st \<longleftrightarrow> 0 \<le> e_open_kvm env \<and> e_api_version env = KVM_API_VERSION \<and>
     (\<exists>vm \<ge> 0. create_vm (e_create_vm env) = Some vm) \<and>
     mmap_contract (e_mm env) \<and> init_memory_map (e_mm env) RAM_SIZE memory_0 = Some (None, st) \<and>
     env_malloc_cpuid (e_vcpu env) \<and>
     (\<exists>c. env_supported_cpuid (e_vcpu env) = Some c \<and> length (cpuid_entries c) = 80 \<and> unat (nent c) \<le> 80) \<and>
     e_thread env = 0"

lemma reset_vcpu_ready:
  assumes "env_malloc_cpuid env" "env_supported_cpuid env = Some c" "length (cpuid_entries c) = 80" "unat (nent c) \<le> 80"
  shows "\<exists>calls. reset_vcpu env n i v = Some calls \<and> KVM_SET_REGS (vc_regs v) \<in> set calls \<and> KVM_SET_SREGS (vc_sregs v) \<in> set calls"
  using assms cpuid_loop_map [of 0 "unat (nent c)" "cpuid_entries c" env n "word_of_int i"]
  by (auto simp: reset_vcpu_def setup_cpuid_def Let_def)

text \<open>The machine \<open>main\<close> has when it creates the devices: guest memory \<open>st\<close> holds the boot image.\<close>

definition booted :: "main_env \<Rightarrow> memory \<Rightarrow> bytes \<Rightarrow> nat \<Rightarrow> machine" where
  "booted env st initrd addr = machine_0\<lparr>m_blk := blk_0\<lparr>ram := st\<rparr>, m_initrd := (of_nat addr, of_nat (length initrd)),
     m_created := create_base_dev (e_pit2 env)\<rparr>"

lemma create_devices_exits: "create_devices (env\<lparr>e_exits := exits\<rparr>) df m = create_devices env df m"
  by (cases df) (simp_all add: create_devices_def Let_def case_prod_unfold)

text \<open>From there on, \<open>main\<close> is the creation of the devices and the vcpu loop.\<close>

lemma main_runs:
  assumes "host_ready env st" "parse_options opts no_options = Inr \<lparr>kernel_file = Some kf, initrd_file = Some rf, disk_file = df\<rparr>"
    and "e_files env kf = Some vmlinux" "e_files env rf = Some initrd" "vmlinux \<noteq> []" "initrd \<noteq> []"
    and "0x1000000 + length vmlinux + length initrd + 0xfff \<le> unat RAM_SIZE"
  shows "\<exists>st' addr. boot_image st' vmlinux initrd addr RAM_SIZE \<and> ram_keeps st st' \<and> guest_ok st' 0 (unat RAM_SIZE) \<and>
    (\<forall>m1. create_devices env df (booted env st' initrd addr) = Some (Inr m1) \<longrightarrow> m_vcpu m1 = vcpu_0 \<longrightarrow>
      (\<exists>v calls. (\<forall>exits. main (env\<lparr>e_exits := exits\<rparr>) opts machine_0 =
          map_option (\<lambda>r. case r of Returned c m' \<Rightarrow> MainReturn 0 | Running ret m' \<Rightarrow> MainRunning m')
            (vcpu_exec (e_machine env) (kvm_run (init_vcpu (e_init_vcpu env))) exits None (m1\<lparr>m_vcpu := v, m_sets := calls\<rparr>))) \<and>
        KVM_SET_REGS (zero_regs\<lparr>rflags := 0x0002, rip := VMLINUX_START, rsp := BOOT_LOADER_SP,
          rbp := BOOT_LOADER_SP, rsi := ZERO_PAGE_START\<rparr>) \<in> set calls))"
proof -
  obtain vm c where h: "0 \<le> e_open_kvm env" "e_api_version env = KVM_API_VERSION" "0 \<le> vm" "create_vm (e_create_vm env) = Some vm"
    "mmap_contract (e_mm env)" "init_memory_map (e_mm env) RAM_SIZE memory_0 = Some (None, st)"
    "env_malloc_cpuid (e_vcpu env)" "env_supported_cpuid (e_vcpu env) = Some c" "length (cpuid_entries c) = 80"
    "unat (nent c) \<le> 80" "e_thread env = 0"
    using assms(1) by (auto simp: host_ready_def)
  obtain st' addr where st': "init_linux_boot (e_files env) kf rf \<lparr>b_mem = st, InitrdSize = 0, InitrdAddr = 0\<rparr> =
      Some (Inr \<lparr>b_mem = st', InitrdSize = of_nat (length initrd), InitrdAddr = of_nat addr\<rparr>)"
    "boot_image st' vmlinux initrd addr RAM_SIZE" "ram_keeps st st'" "guest_ok st' 0 (unat RAM_SIZE)"
    using ram_boots [where fs = "e_files env", OF h(5,6) assms(3-7), of 0 0] by (elim exE conjE) (rule that)
  have ram0: "ram (m_blk machine_0) = memory_0" "m_blk machine_0 = blk_0" by (simp_all add: machine_0_def blk_0_def)
  have "\<exists>v calls. (\<forall>exits. main (env\<lparr>e_exits := exits\<rparr>) opts machine_0 =
          map_option (\<lambda>r. case r of Returned c m' \<Rightarrow> MainReturn 0 | Running ret m' \<Rightarrow> MainRunning m')
            (vcpu_exec (e_machine env) (kvm_run (init_vcpu (e_init_vcpu env))) exits None (m1\<lparr>m_vcpu := v, m_sets := calls\<rparr>))) \<and>
        KVM_SET_REGS (zero_regs\<lparr>rflags := 0x0002, rip := VMLINUX_START, rsp := BOOT_LOADER_SP,
          rbp := BOOT_LOADER_SP, rsi := ZERO_PAGE_START\<rparr>) \<in> set calls"
    if m1: "create_devices env df (booted env st' initrd addr) = Some (Inr m1)" "m_vcpu m1 = vcpu_0" for m1
  proof -
    define v where "v = setup_vcpu (e_vcpu env) (e_code0 env) (e_data0 env) VCPU_ID (m_vcpu m1)"
    obtain calls where calls: "reset_vcpu (e_vcpu env) VCPU_COUNT VCPU_ID v = Some calls" "KVM_SET_REGS (vc_regs v) \<in> set calls"
      using reset_vcpu_ready [OF h(7-10), of VCPU_COUNT VCPU_ID v] by blast
    let ?m = "m1\<lparr>m_vcpu := v, m_sets := calls\<rparr>"
    have "main (env\<lparr>e_exits := exits\<rparr>) opts machine_0 =
        do { r \<leftarrow> vcpu_exec (e_machine env) (kvm_run (init_vcpu (e_init_vcpu env))) exits None ?m;
             case r of Returned c m' \<Rightarrow> Some (MainReturn 0) | Running ret m' \<Rightarrow> Some (MainRunning m') }" for exits
    proof -
      have "create_devices (env\<lparr>e_exits := exits\<rparr>) df (booted env st' initrd addr) = Some (Inr m1)"
        using m1(1) by (simp add: create_devices_exits)
      then show ?thesis
        using assms(2) h st'(1) calls(1)
        by (simp add: main_def no_options_def [symmetric] ram0(1) Let_def v_def [symmetric] vcpu_thread_result)
          (simp add: booted_def ram0(2) v_def [symmetric])
    qed
    then have "main (env\<lparr>e_exits := exits\<rparr>) opts machine_0 =
        map_option (\<lambda>r. case r of Returned c m' \<Rightarrow> MainReturn 0 | Running ret m' \<Rightarrow> MainRunning m')
          (vcpu_exec (e_machine env) (kvm_run (init_vcpu (e_init_vcpu env))) exits None ?m)" for exits
      by (cases "vcpu_exec (e_machine env) (kvm_run (init_vcpu (e_init_vcpu env))) exits None ?m") (auto split: running.split)
    moreover have "vc_regs v = zero_regs\<lparr>rflags := 0x0002, rip := VMLINUX_START, rsp := BOOT_LOADER_SP,
        rbp := BOOT_LOADER_SP, rsi := ZERO_PAGE_START\<rparr>"
      unfolding v_def m1(2) by (rule setup_vcpu_fields) (simp add: vcpu_0_def)
    ultimately show ?thesis using calls(2) by (intro exI [of _ v] exI [of _ calls]) simp
  qed
  then show ?thesis using st'(2-4) by blast
qed

text \<open>Property C2. With a host that answers, a kernel and a RAM disk that fit and no disk image, \<open>main\<close> reaches the
  vcpu loop, whatever the exits that follow: guest memory then holds the whole boot image, the
  buses send the ports of the serial line and of the PCI configuration mechanism to their
  handlers and no other port, nothing is mapped in the MMIO space, and KVM has been
  given the registers that start the kernel at its first byte. As long as the vcpu loop runs, so does the program; when
  the loop returns, with whatever code, \<open>main\<close> returns 0.\<close>

theorem main_boots_guest:
  assumes "host_ready env st" "parse_options opts no_options = Inr \<lparr>kernel_file = Some kf, initrd_file = Some rf, disk_file = None\<rparr>"
    and "e_files env kf = Some vmlinux" "e_files env rf = Some initrd" "vmlinux \<noteq> []" "initrd \<noteq> []"
    and "0x1000000 + length vmlinux + length initrd + 0xfff \<le> unat RAM_SIZE"
  shows "\<exists>m1 addr. (\<forall>exits. main (env\<lparr>e_exits := exits\<rparr>) opts machine_0 =
      map_option (\<lambda>r. case r of Returned c m' \<Rightarrow> MainReturn 0 | Running ret m' \<Rightarrow> MainRunning m')
        (vcpu_exec (e_machine env) (kvm_run (init_vcpu (e_init_vcpu env))) exits None m1)) \<and>
    boot_image (ram (m_blk m1)) vmlinux initrd addr RAM_SIZE \<and>
    m_initrd m1 = (of_nat addr, of_nat (length initrd)) \<and>
    m_created m1 = create_base_dev (e_pit2 env) \<and>
    KVM_SET_REGS (zero_regs\<lparr>rflags := 0x0002, rip := VMLINUX_START, rsp := BOOT_LOADER_SP,
      rbp := BOOT_LOADER_SP, rsi := ZERO_PAGE_START\<rparr>) \<in> set (m_sets m1) \<and>
    serial_inv (m_serial m1) \<and>
    (\<forall>p. iobus_find_region (m_io m1) PioBus p = Some (port_region (unat p))) \<and>
    (\<forall>a. iobus_find_region (m_io m1) MmioBus a = Some None)"
proof -
  obtain st' addr where st': "boot_image st' vmlinux initrd addr RAM_SIZE"
    "\<And>m1. create_devices env None (booted env st' initrd addr) = Some (Inr m1) \<Longrightarrow> m_vcpu m1 = vcpu_0 \<Longrightarrow>
      \<exists>v calls. (\<forall>exits. main (env\<lparr>e_exits := exits\<rparr>) opts machine_0 =
          map_option (\<lambda>r. case r of Returned c m' \<Rightarrow> MainReturn 0 | Running ret m' \<Rightarrow> MainRunning m')
            (vcpu_exec (e_machine env) (kvm_run (init_vcpu (e_init_vcpu env))) exits None (m1\<lparr>m_vcpu := v, m_sets := calls\<rparr>))) \<and>
        KVM_SET_REGS (zero_regs\<lparr>rflags := 0x0002, rip := VMLINUX_START, rsp := BOOT_LOADER_SP,
          rbp := BOOT_LOADER_SP, rsi := ZERO_PAGE_START\<rparr>) \<in> set calls"
    using main_runs [OF assms] by (elim exE conjE) (rule that, assumption, blast)
  obtain m1 where m1: "create_devices env None (booted env st' initrd addr) = Some (Inr m1)" "ram (m_blk m1) = st'" "m_io m1 = boot_io"
    "serial_inv (m_serial m1)" "m_initrd m1 = (of_nat addr, of_nat (length initrd))" "m_vcpu m1 = vcpu_0"
    "m_created m1 = create_base_dev (e_pit2 env)"
    using create_devices_plain [of "booted env st' initrd addr" env]
    by (auto simp: booted_def machine_0_def blk_0_def pci_state_0_def)
  obtain v calls where r: "\<forall>exits. main (env\<lparr>e_exits := exits\<rparr>) opts machine_0 =
      map_option (\<lambda>r. case r of Returned c m' \<Rightarrow> MainReturn 0 | Running ret m' \<Rightarrow> MainRunning m')
        (vcpu_exec (e_machine env) (kvm_run (init_vcpu (e_init_vcpu env))) exits None (m1\<lparr>m_vcpu := v, m_sets := calls\<rparr>))"
    "KVM_SET_REGS (zero_regs\<lparr>rflags := 0x0002, rip := VMLINUX_START, rsp := BOOT_LOADER_SP,
      rbp := BOOT_LOADER_SP, rsi := ZERO_PAGE_START\<rparr>) \<in> set calls"
    using st'(2) [OF m1(1,6)] by blast
  have "iobus_find_region boot_io MmioBus a = Some None" for a
    using ib.find_first [OF boot_io_repr, of MmioBus a] by (simp add: boot_lists_def)
  then show ?thesis
    using st'(1) m1(2-7) r boot_io_find
    by (intro exI [of _ "m1\<lparr>m_vcpu := v, m_sets := calls\<rparr>"] exI [of _ addr]) (simp add: m_io_def)
qed


definition sample_main_env :: main_env where
  "sample_main_env = \<lparr>e_open_kvm = 3, e_api_version = 12, e_create_vm = [- 4, 4], e_pit2 = 1, e_mm = sample_env, e_files = sample_fs,
     e_ioeventfd = \<lparr>e_check = 1, e_epoll_create = 5, e_eventfd = 6, e_ctl = 0, e_pthread = 0\<rparr>,
     e_serial_evt = 7, e_cfg_len = 60, e_vcpu = sample_vcpu_env, e_code0 = zero_seg, e_data0 = zero_seg, 
     e_init_vcpu = \<lparr>iv_create = 8, iv_mmap_size = 0x3000, iv_mmap = (\<lambda>fd n. 0 < n), iv_munmap = 0\<rparr>,
     e_thread = 0, e_machine = sample_machine_env, e_exits = []\<rparr>"

theorem main_boots_guest_witness:
  "\<exists>(m1 :: machine) addr. main (sample_main_env\<lparr>e_exits := [KVM_EXIT_HLT]\<rparr>) [OptK ''k'', OptI ''i''] machine_0 = Some (MainReturn 0) \<and>
     boot_image (ram (m_blk m1)) [1, 2, 3] [4, 5] addr RAM_SIZE"
proof -
  have ready: "host_ready sample_main_env sample_memory"
    using sample_mmap_contract init_sample
    by (simp add: host_ready_def sample_main_env_def KVM_API_VERSION_def sample_vcpu_env_def sample_cpuid_def)
  have o: "parse_options [OptK ''k'', OptI ''i''] no_options = Inr \<lparr>kernel_file = Some ''k'', initrd_file = Some ''i'', disk_file = None\<rparr>"
    by (simp add: no_options_def)
  have f: "e_files sample_main_env ''k'' = Some [1, 2, 3]" "e_files sample_main_env ''i'' = Some [4, 5]"
    "0x1000000 + length [1, 2, 3 :: u8] + length [4, 5 :: u8] + 0xfff \<le> unat RAM_SIZE"
    by (simp_all add: const_simps sample_fs_def sample_main_env_def)
  obtain m1 addr where m1: "\<forall>exits. main (sample_main_env\<lparr>e_exits := exits\<rparr>) [OptK ''k'', OptI ''i''] machine_0 =
      map_option (\<lambda>r. case r of Returned c m' \<Rightarrow> MainReturn 0 | Running ret m' \<Rightarrow> MainRunning m')
        (vcpu_exec (e_machine sample_main_env) (kvm_run (init_vcpu (e_init_vcpu sample_main_env))) exits None m1)"
    "boot_image (ram (m_blk m1)) [1, 2, 3] [4, 5] addr RAM_SIZE"
    using main_boots_guest [OF ready o f(1,2) _ _ f(3)] by blast
  then show ?thesis by (intro exI [of _ m1] exI [of _ addr]) (simp add: vcpu_exit_def sample_main_env_def init_vcpu_def)
qed

theorem main_refuses_witness:
  "main (sample_main_env\<lparr>e_create_vm := [- 4, - 4, - 1]\<rparr>) [OptK ''k'', OptI ''i''] machine_0 = Some (MainReturn (- 1)) \<and>
   main sample_main_env [OptK ''k'', OptH] machine_0 = Some (MainExit 1) \<and>
   main sample_main_env [OptK ''k''] machine_0 = Some (MainReturn (- 1))"
proof -
  have "e_create_vm (sample_main_env\<lparr>e_create_vm := [- 4, - 4, - 1]\<rparr>) = replicate 2 (- 4) @ (- 1) # []"
    by (simp add: numeral_2_eq_2)
  then have "\<exists>k r rs. e_create_vm (sample_main_env\<lparr>e_create_vm := [- 4, - 4, - 1]\<rparr>) = replicate k (- 4) @ r # rs \<and> r < 0 \<and> r \<noteq> - 4"
    by (intro exI [of _ 2] exI [of _ "- 1"] exI [of _ "[]"]) simp
  then show ?thesis
    using main_refuses [of "[OptK ''k'', OptI ''i'']" "sample_main_env\<lparr>e_create_vm := [- 4, - 4, - 1]\<rparr>" machine_0]
      main_refuses [of "[OptK ''k'', OptH]" sample_main_env machine_0] main_refuses [of "[OptK ''k'']" sample_main_env machine_0]
    by simp
qed

end
