(* ===== verification/Enumeration.thy ===== *)
theory Enumeration
  imports Machine
begin

text \<open>
  What the guest finds after \<open>main\<close> has set the machine up with a disk: the configuration mechanism at
  ports CF8 and CFC as the guest's port accesses see it, the header of the virtio block device behind
  it, and the programming of its BAR.
\<close>

section \<open>The configuration mechanism\<close>

text \<open>What a lookup and a call use of a region.\<close>

definition region_io :: "region \<Rightarrow> u64 \<times> u64 \<times> owner \<times> io_fn option" where
  "region_io r = (r_base r, r_len r, r_owner r, r_handle_io r)"

text \<open>The port regions and the configuration space of device 0 are on their buses.\<close>

definition config_wired :: "iobus \<Rightarrow> bool" where
  "config_wired h \<longleftrightarrow> chain (regions h) (bus_head (buses h PioBus)) (boot_lists PioBus) \<and>
     chain (regions h) (bus_head (buses h PciBus)) [ConfigRegion 0] \<and>
     (\<forall>r \<in> set (boot_lists PioBus). region_io (regions h r) = region_io (regions boot_io r)) \<and>
     region_io (regions h (ConfigRegion 0)) = (0x80000000, 0x100, PciDev 0, Some Pci_config_handle_io)"

lemma region_hit_io: "region_io r = region_io r' \<Longrightarrow> region_hit r a = region_hit r' a"
  by (simp add: region_io_def region_hit_def)

lemma boot_ports:
  "region_io (regions boot_io PciAddrRegion) = (0xcf8, 4, NoOwner, Some Pcibus_addr_io)"
  "region_io (regions boot_io PciDataRegion) = (0xcfc, 4, NoOwner, Some Pcibus_data_io)"
  "region_io (regions boot_io SerialRegion) = (0x3f8, 8, NoOwner, Some Serial_handle_io)"
  by (simp_all add: region_io_def boot_io_def create_serial_dev_def pcibus_init_def Let_def pci_state_0_def iobus_init_def
      region_init_def iobus_register_region_def store_defs const_simps)

lemma wired_find_pio:
  assumes "config_wired h"
  shows "iobus_find_region h PioBus p = Some (port_region (unat p))"
proof -
  have l: "chain (regions h) (bus_head (buses h PioBus)) (boot_lists PioBus)" using assms by (simp add: config_wired_def)
  have "bus_hit h r p = bus_hit boot_io r p" if "r \<in> set (boot_lists PioBus)" for r
    unfolding bus_hit_def by (rule region_hit_io) (use assms that in \<open>simp add: config_wired_def\<close>)
  then have "List.find (\<lambda>r. bus_hit h r p) (boot_lists PioBus) = List.find (\<lambda>r. bus_hit boot_io r p) (boot_lists PioBus)"
    by (auto intro: find_cong)
  then show ?thesis
    using find_from_chain [OF l, of p] ib.find_first [OF boot_io_repr, of PioBus p] boot_io_find [of p]
    by (simp add: iobus_find_region_def bus_hit_def)
qed

lemma wired_ports:
  assumes "config_wired h"
  shows "region_io (regions h PciAddrRegion) = (0xcf8, 4, NoOwner, Some Pcibus_addr_io)"
    "region_io (regions h PciDataRegion) = (0xcfc, 4, NoOwner, Some Pcibus_data_io)"
    "region_io (regions h (ConfigRegion 0)) = (0x80000000, 0x100, PciDev 0, Some Pci_config_handle_io)"
    "region_io (regions h SerialRegion) = (0x3f8, 8, NoOwner, Some Serial_handle_io)"
  using assms by (simp_all add: config_wired_def boot_lists_def boot_ports)

lemma wired_find_config:
  assumes "config_wired h"
  shows "iobus_find_region h PciBus a = Some (if 0x80000000 \<le> unat a \<and> unat a < 0x80000100 then Some (ConfigRegion 0) else None)"
proof -
  have l: "chain (regions h) (bus_head (buses h PciBus)) [ConfigRegion 0]" using assms by (simp add: config_wired_def)
  have "bus_hit h (ConfigRegion 0) a \<longleftrightarrow> 0x80000000 \<le> unat a \<and> unat a < 0x80000100"
    using wired_ports(3) [OF assms] by (auto simp: region_io_def bus_hit_def region_hit_def word_le_nat_alt)
  then show ?thesis using find_from_chain [OF l, of a] by (simp add: iobus_find_region_def bus_hit_def)
qed

text \<open>The exits of the two instructions: a write of the address port, and an access to \<open>data\<close> at byte
  \<open>k\<close> of the data port.\<close>

definition config_out :: "u32 \<Rightarrow> kvm_run_io" where
  "config_out a = \<lparr>io_out = True, io_size = 4, io_port = 0xcf8, io_count = 1, io_data = le_bytes 4 a\<rparr>"

definition config_data :: "bool \<Rightarrow> nat \<Rightarrow> bytes \<Rightarrow> kvm_run_io" where
  "config_data w k data = \<lparr>io_out = w, io_size = of_nat (length data), io_port = of_nat (0xcfc + k), io_count = 1, io_data = data\<rparr>"

definition set_pci :: "pci_state \<Rightarrow> machine \<Rightarrow> machine" where
  "set_pci p m = m\<lparr>m_blk := (m_blk m)\<lparr>pci := p\<rparr>\<rparr>"

lemma set_pci_simps [simp]:
  "pci (m_blk (set_pci p m)) = p" "m_io (set_pci p m) = io p" "set_pci p (set_pci p' m) = set_pci p m"
  by (simp_all add: set_pci_def m_io_def)

lemma io_call_fns:
  "io_call env 2 Pcibus_addr_io = on_pci pcibus_addr_io"
  "io_call env 2 Pcibus_data_io = pcibus_data_io (io_call env 1) (\<lambda>m. pci (m_blk m))"
  "io_call env 1 Pci_config_handle_io = on_pci pci_config_handle_io"
  "io_call env 2 Serial_handle_io = on_serial (me_ret0 env)"
  "io_call env 2 Virtio_pci_iospace_handle_io =
     on_blk (virtio_pci_iospace_handle_io (events (me_blk env)) (virtio_blk_handle_output (me_blk env)))"
  by (simp_all add: numeral_2_eq_2)

lemma config_out_exit:
  assumes "config_wired (m_io m)"
  shows "iobus_handle_pio (io_call env 2) m_io (config_out a) m =
    Some (config_out a, set_pci ((pci (m_blk m))\<lparr>pci_addr := a AND NOT 3\<rparr>) m)"
proof -
  have r: "r_base (regions (m_io m) PciAddrRegion) = 0xcf8" "r_len (regions (m_io m) PciAddrRegion) = 4"
    "r_handle_io (regions (m_io m) PciAddrRegion) = Some Pcibus_addr_io"
    using wired_ports(1) [OF assms] by (simp_all add: region_io_def)
  have "iobus_find_region (m_io m) PioBus 0xcf8 = Some (Some PciAddrRegion)"
    by (simp add: wired_find_pio [OF assms] port_region_def)
  then show ?thesis
    by (simp add: iobus_handle_pio_def config_out_def bus_handle_io_def r fits_region_def io_call_fns on_pci_def
        pcibus_addr_io_def buf_take_def obj_read_def obj_write_def set_pci_def)
qed

lemma unat_or_low:
  fixes a :: u32
  assumes "k < 4"
  shows "unat ((ucast (a AND NOT 3) :: u64) OR of_nat k) = unat (a AND NOT 3) + k"
proof -
  let ?a = "ucast (a AND NOT 3) :: u64" and ?k = "of_nat k :: u64"
  have k: "k = 0 \<or> k = 1 \<or> k = 2 \<or> k = 3" using assms by auto
  have "?a AND ?k = 0"
    by (rule word_eqI64, simp, unfold upt_0_64) (use k in \<open>auto simp: bit_simps\<close>)
  then have "unat (?a OR ?k) = unat (?a + ?k)" by (simp only: disjunctive_add_eq_or)
  moreover have "unat (a AND NOT 3) < 2 ^ 32" using unsigned_less [of "a AND NOT 3"] by simp
  ultimately show ?thesis using assms by (simp add: unat_word_ariths unsigned_of_nat take_bit_nat_eq_self unsigned_ucast_eq)
qed

lemma aligned_mask:
  fixes a :: u32
  assumes "2 ^ k dvd unat a"
  shows "a AND NOT (mask k) = a"
proof -
  obtain j where "unat a = 2 ^ k * j" using assms by auto
  then have "a = of_nat (2 ^ k * j)" by (metis of_nat_unat ucast_id)
  then have a: "a = push_bit k (of_nat j)" by (simp add: push_bit_eq_mult)
  show ?thesis unfolding a by (rule bit_eqI) (auto simp: bit_simps)
qed

lemma aligned_and: "4 dvd unat (a :: u32) \<Longrightarrow> a AND NOT 3 = a"
  using aligned_mask [of 2 a] by (simp add: mask_eq_exp_minus_1)

lemma aligned_and_bar: "unat (v :: u32) mod 256 = 0 \<Longrightarrow> v AND NOT 0xFF = v"
  using aligned_mask [of 8 v] by (simp add: mask_eq_exp_minus_1 mod_0_imp_dvd)

text \<open>The configuration window of device 0, and the exit for an access to it.\<close>

definition selects_disk :: "u32 \<Rightarrow> bool" where
  "selects_disk a \<longleftrightarrow> 0x80000000 \<le> unat a \<and> unat a < 0x80000100"

lemma config_data_call:
  assumes w: "config_wired (m_io m)" and k: "0 < length data" "k + length data \<le> 4"
    and a: "pci_addr (pci (m_blk m)) = a" "4 dvd unat a"
  shows "bus_handle_io (io_call env 2) m_io PioBus (of_nat (0xcfc + k)) (of_nat (length data)) data out m =
    (if selects_disk a
     then on_pci pci_config_handle_io (of_nat (unat a - 0x80000000 + k)) (of_nat (length data)) data out (PciDev 0) m
     else Some (data, m))"
proof -
  let ?sz = "of_nat (length data) :: u8" and ?addr = "(ucast a :: u64) OR of_nat k"
  have sz: "unat ?sz = length data" "unat (ucast ?sz :: u64) = length data"
    using k by (simp_all add: unsigned_of_nat unsigned_ucast_eq take_bit_nat_eq_self)
  have k4: "k < 4" using k by linarith
  have r: "r_base (regions (m_io m) PciDataRegion) = 0xcfc" "r_len (regions (m_io m) PciDataRegion) = 4"
    "r_handle_io (regions (m_io m) PciDataRegion) = Some Pcibus_data_io"
    "r_base (regions (m_io m) (ConfigRegion 0)) = 0x80000000" "r_len (regions (m_io m) (ConfigRegion 0)) = 0x100"
    "r_handle_io (regions (m_io m) (ConfigRegion 0)) = Some Pci_config_handle_io" "r_owner (regions (m_io m) (ConfigRegion 0)) = PciDev 0"
    using wired_ports [OF w] by (simp_all add: region_io_def)
  have addr: "unat ?addr = unat a + k" using unat_or_low [OF k4, of a] unfolding aligned_and [OF a(2)] .
  have port: "unat (of_nat (0xcfc + k) :: u64) = 0xcfc + k" using k4 by (simp add: unsigned_of_nat take_bit_nat_eq_self del: of_nat_add)
  have sub: "(of_nat (0xcfc + k) :: u64) - 0xcfc = of_nat k" by simp
  have "iobus_find_region (m_io m) PioBus (of_nat (0xcfc + k)) = Some (Some PciDataRegion)"
    using k4 by (simp add: wired_find_pio [OF w] port port_region_def del: of_nat_add)
  moreover have "fits_region (regions (m_io m) PciDataRegion) (of_nat (0xcfc + k)) ?sz"
    using k sz port by (simp add: fits_region_def r word_le_nat_alt unat_add_sub_one del: of_nat_add)
  ultimately have "bus_handle_io (io_call env 2) m_io PioBus (of_nat (0xcfc + k)) ?sz data out m =
      bus_handle_io (io_call env 1) m_io PciBus ?addr ?sz data out m"
    by (simp add: bus_handle_io_def [of _ _ PioBus] r sub io_call_fns pcibus_data_io_def a(1) m_io_def [abs_def, symmetric]
        del: of_nat_add)
  also have "\<dots> = (if selects_disk a
     then on_pci pci_config_handle_io (of_nat (unat a - 0x80000000 + k)) ?sz data out (PciDev 0) m
     else Some (data, m))"
  proof (cases "selects_disk a")
    case True
    then have lo: "0x80000000 \<le> unat a" and hi: "unat a + k + length data \<le> 0x80000100"
      using a(2) k by (auto simp: selects_disk_def)
    have fits: "fits_region (regions (m_io m) (ConfigRegion 0)) ?addr ?sz"
      using lo hi k sz addr by (simp add: fits_region_def r word_le_nat_alt unat_add_sub_one)
    have hit: "0x80000000 \<le> unat ?addr \<and> unat ?addr < 0x80000100" using lo hi k(1) unfolding addr by linarith
    have "?addr = of_nat (unat ?addr)" by simp
    then have "?addr = of_nat (0x80000000 + (unat a - 0x80000000 + k))" using lo unfolding addr by simp
    then have sub: "?addr - 0x80000000 = of_nat (unat a - 0x80000000 + k)" by simp
    have "iobus_find_region (m_io m) PciBus ?addr = Some (Some (ConfigRegion 0))" using hit by (simp only: wired_find_config [OF w] simp_thms if_True)
    then show ?thesis
      using True fits by (simp add: bus_handle_io_def r sub io_call_fns [simplified One_nat_def] del: of_nat_add)
  next
    case False
    then have "\<not> (0x80000000 \<le> unat a + k \<and> unat a + k < 0x80000100)" using a(2) k4 by (auto simp: selects_disk_def)
    then show ?thesis using False by (auto simp: bus_handle_io_def wired_find_config [OF w] addr)
  qed
  finally show ?thesis .
qed

lemma config_data_exit:
  assumes "config_wired (m_io m)" "0 < length data" "k + length data \<le> 4" "pci_addr (pci (m_blk m)) = a" "4 dvd unat a"
  shows "iobus_handle_pio (io_call env 2) m_io (config_data out k data) m =
    (if selects_disk a
     then do { (data', m') \<leftarrow> on_pci pci_config_handle_io (of_nat (unat a - 0x80000000 + k)) (of_nat (length data)) data out (PciDev 0) m;
               buf \<leftarrow> obj_write data 0 data'; Some (config_data out k data\<lparr>io_data := buf\<rparr>, m') }
     else Some (config_data out k data, m))"
proof -
  have "unat (of_nat (length data) :: u8) = length data" "ucast (of_nat (0xcfc + k) :: u16) = (of_nat (0xcfc + k) :: u64)"
    using assms(2,3) by (simp_all add: unsigned_of_nat take_bit_nat_eq_self del: of_nat_add)
  moreover have "obj_read data 0 (length data) = Some data" "obj_write data 0 data = Some data"
    by (simp_all add: obj_read_def obj_write_def)
  ultimately show ?thesis
    using config_data_call [OF assms, of env out]
    by (auto simp: iobus_handle_pio_def config_data_def split: Option.bind_split simp del: of_nat_add)
qed

section \<open>The machine with a disk\<close>

definition disk_io :: iobus where
  "disk_io = region_init (BarRegion 0 0) 0 0x100 (PciDev 0) Virtio_pci_iospace_handle_io (io (pci_dev_init 0 (pci_state_0\<lparr>io := boot_io\<rparr>)))"

definition disk_lists :: "bus_id \<Rightarrow> region_id list" where
  "disk_lists = boot_lists(PciBus := [ConfigRegion 0])"

lemma disk_lists_pio: "disk_lists PioBus = boot_lists PioBus" "disk_lists PciBus = [ConfigRegion 0]" "disk_lists MmioBus = []"
  by (simp_all add: disk_lists_def boot_lists_def)

lemma boot_count: "region_count (buses boot_io PciBus) = 0"
  by (simp add: boot_io_def create_serial_dev_def pcibus_init_def Let_def region_init_def iobus_register_region_def store_defs)

lemma disk_io_regions:
  "region_io (regions disk_io (ConfigRegion 0)) = (0x80000000, 0x100, PciDev 0, Some Pci_config_handle_io)"
  "region_io (regions disk_io (BarRegion 0 0)) = (0, 0x100, PciDev 0, Some Virtio_pci_iospace_handle_io)"
  "r \<in> set (boot_lists PioBus) \<Longrightarrow> region_io (regions disk_io r) = region_io (regions boot_io r)"
  by (auto simp: disk_io_def pci_dev_init_def pcibus_register_dev_def Let_def region_io_def region_init_fields register_fields
      boot_count clear_regions_def pci_config_address_def const_simps boot_lists_def)

text \<open>\<open>create_devices\<close> on a machine whose device state is that of program start, with an image file that can
  be opened: \<open>n\<close> is the size of the device's own configuration structure.\<close>

definition with_disk :: "bytes \<Rightarrow> nat \<Rightarrow> memory \<Rightarrow> machine \<Rightarrow> bool" where
  "with_disk img n st m1 \<longleftrightarrow> ram (m_blk m1) = st \<and> m_io m1 = disk_io \<and> bars_synced 0 (pci (m_blk m1)) disk_lists \<and>
     pci_devs (pci (m_blk m1)) = (\<lambda>_. zero_dev)(0 := blk_pci_dev\<lparr>cfg_space := disk_header (of_nat n)\<rparr>) \<and>
     pci_addr (pci (m_blk m1)) = 0 \<and> disk (m_blk m1) = img \<and> disk_size (m_blk m1) = of_nat (length img) \<and>
     dev_cfg_obj (m_blk m1) = le_bytes 8 (of_nat (length img) div 512 :: u64) @ replicate (n - 8) 0 \<and>
     disk_vdev 0 (dev_cfg_addr (m_blk m1)) (vdev (m_blk m1)) \<and> serial_inv (m_serial m1)"

lemma create_devices_disk:
  assumes dev: "pci (m_blk m) = pci_state_0" "m_serial m = serial_0" and img: "e_files env path = Some img" and n: "8 \<le> e_cfg_len env"
  shows "\<exists>m1. create_devices env (Some path) m = Some (Inr m1) \<and> with_disk img (e_cfg_len env) (ram (m_blk m)) m1 \<and>
    m_initrd m1 = m_initrd m \<and> m_vcpu m1 = m_vcpu m \<and> m_created m1 = m_created m \<and>
    ioev (m_blk m1) = snd (ioeventfd_init (e_ioeventfd env) (ioev (m_blk m)))"
proof -
  have bp: "pcibus_init ((pci (m_blk m))\<lparr>io := iobus_init (io (pci (m_blk m)))\<rparr>) =
      pci_state_0\<lparr>io := io (pcibus_init (pci_state_0\<lparr>io := iobus_init iobus_0\<rparr>))\<rparr>"
    by (simp add: dev pcibus_init_def Let_def pci_state_0_def)
  define e1 where "e1 = snd (ioeventfd_init (e_ioeventfd env) (ioev (m_blk m)))"
  define s where "s = (m_blk m)\<lparr>ioev := e1, pci := pci_state_0\<lparr>io := boot_io\<rparr>, disk := img, disk_size := of_nat (length img)\<rparr>"
  have sio: "io (pci s) = boot_io" "pci s = pci_state_0\<lparr>io := boot_io\<rparr>" by (simp_all add: s_def)
  have no: "ConfigRegion 0 \<notin> set (boot_lists b)" "BarRegion 0 i \<notin> set (boot_lists b)" for b i by (simp_all add: boot_lists_def)
  have "bus_repr (io (pci s)) boot_lists" using boot_io_repr by (simp add: sio)
  from virtio_blk_init_found [OF this no n] obtain p v where pv:
    "virtio_blk_init_pci (e_cfg_len env) 0 s =
      Some (s\<lparr>dev_cfg_obj := le_bytes 8 (disk_size s div 512) @ replicate (e_cfg_len env - 8) 0, pci := p, vdev := v\<rparr>)"
    "disk_vdev 0 (dev_cfg_addr s) v" "bars_synced 0 p (boot_lists(PciBus := ConfigRegion 0 # boot_lists PciBus))"
    "pci_devs p = (\<lambda>_. zero_dev)(0 := blk_pci_dev\<lparr>cfg_space := disk_header (of_nat (e_cfg_len env))\<rparr>)" "pci_addr p = 0"
    "io p = disk_io"
    unfolding sio disk_io_def by (auto simp: pci_state_0_def)
  have l: "boot_lists(PciBus := ConfigRegion 0 # boot_lists PciBus) = disk_lists" by (simp add: disk_lists_def boot_lists_def)
  have io: "snd (create_serial_dev e t (io (pcibus_init (pci_state_0\<lparr>io := iobus_init iobus_0\<rparr>)))) = boot_io" for e t
    by (simp add: boot_io_def create_serial_dev_def)
  have ser: "serial_inv (fst (create_serial_dev e serial_0 h))" for e h
    using serial_0_inv by (simp add: create_serial_dev_def serial_0_def)
  define m1 where "m1 = m\<lparr>m_serial := fst (create_serial_dev (e_serial_evt env) serial_0 (io (pcibus_init (pci_state_0\<lparr>io := iobus_init iobus_0\<rparr>)))),
    m_blk := s\<lparr>dev_cfg_obj := le_bytes 8 (disk_size s div 512) @ replicate (e_cfg_len env - 8) 0, pci := p, vdev := v\<rparr>\<rparr>"
  have "create_devices env (Some path) m = Some (Inr m1)"
    using pv(1) by (simp add: create_devices_def Let_def case_prod_unfold bp io dev(2) diskimg_init_def img m1_def s_def e1_def)
  moreover have "with_disk img (e_cfg_len env) (ram (m_blk m)) m1"
    using pv(2-6) ser unfolding l by (simp add: with_disk_def m1_def m_io_def) (simp add: s_def)
  moreover have "m_initrd m1 = m_initrd m" "m_vcpu m1 = m_vcpu m" "m_created m1 = m_created m" "ioev (m_blk m1) = e1"
    by (simp_all add: m1_def s_def)
  ultimately show ?thesis unfolding e1_def by blast
qed

lemma with_disk_wired: "with_disk img n st m1 \<Longrightarrow> config_wired (m_io m1)"
  using bus_repr_chain [of "m_io m1" disk_lists PioBus] bus_repr_chain [of "m_io m1" disk_lists PciBus]
  by (auto simp: with_disk_def config_wired_def bars_synced_def disk_io_regions disk_lists_pio m_io_def)

lemma disk_header_field: "b + k \<le> 0x80 \<or> 0x84 \<le> b \<Longrightarrow> field (disk_header n) b k = field blk_header b k"
  by (auto simp: field_def disk_header_def blk_header_fields(1) drop_take)

lemma disk_header_fields:
  "field (disk_header n) 0 2 = (0x1AF4 :: u16)" "field (disk_header n) 2 2 = (0x1042 :: u16)"
  "field (disk_header n) 8 4 = (0x01800000 :: u32)" "field (disk_header n) 0x34 1 = (0x40 :: u8)"
  "field (disk_header n) 0x3c 1 = (15 :: u8)"
  "cap_at (disk_header n) 0x40 = (9, 0x50, 16, 1, 0, 0, 56)" "cap_at (disk_header n) 0x50 = (9, 0x64, 20, 2, 0, 60, 4)"
  "cap_at (disk_header n) 0x64 = (9, 0x74, 16, 3, 0, 56, 4)" "cap_at (disk_header n) 0x74 = (9, 0x84, 16, 4, 0, 64, ucast n)"
  "cap_at (disk_header n) 0x84 = (9, 0x98, 20, 5, 0, 0, 0)" "field (disk_header n) 0x98 1 = (0 :: u8)"
proof -
  have n: "field (disk_header n) 0x80 4 = (ucast n :: u32)"
    by (rule field_le_bytes) (simp_all add: disk_header_def blk_header_fields(1))
  show "cap_at (disk_header n) 0x74 = (9, 0x84, 16, 4, 0, 64, ucast n)"
    using blk_header_fields(10) by (simp add: cap_at_def disk_header_field n)
qed (use blk_header_fields in \<open>simp_all add: cap_at_def disk_header_field\<close>)

lemma config_read_exit:
  assumes "config_wired (m_io m)" "0 < length data" "k + length data \<le> 4" "pci_addr (pci (m_blk m)) = a" "4 dvd unat a"
    and "length (cfg_space (pci_devs (pci (m_blk m)) 0)) = 256"
  shows "iobus_handle_pio (io_call env 2) m_io (config_data False k data) m =
    Some (config_data False k
      (if selects_disk a then take (length data) (drop (unat a - 0x80000000 + k) (cfg_space (pci_devs (pci (m_blk m)) 0))) else data), m)"
proof (cases "selects_disk a")
  case True
  then have "unat a - 0x80000000 + k + length data \<le> 256" using assms(3,5) by (auto simp: selects_disk_def)
  moreover have "unat (of_nat (unat a - 0x80000000 + k) :: u64) = unat a - 0x80000000 + k" "unat (of_nat (length data) :: u8) = length data"
    using calculation assms(2,3) by (simp_all add: unsigned_of_nat take_bit_nat_eq_self del: of_nat_add of_nat_diff)
  ultimately show ?thesis
    using True assms(6)
    unfolding config_data_exit [OF assms(1-5)]
    by (simp add: on_pci_def pci_config_handle_io_def pci_config_read_def obj_read_def buf_put_def
        obj_write_def config_data_def del: of_nat_add of_nat_diff)
qed (simp add: config_data_exit [OF assms(1-5)])

section \<open>Programming the BAR\<close>

text \<open>BAR 0 of the block device is decoded at \<open>bas\<close>, and nothing else in the MMIO space.\<close>

definition bar_decoded :: "machine \<Rightarrow> u64 \<Rightarrow> bool" where
  "bar_decoded m bas \<longleftrightarrow>
     (let d = vp_dev (vdev (m_blk m)) in
      (\<forall>a. iobus_find_region (m_io m) MmioBus a =
         Some (if unat bas \<le> unat a \<and> unat a < unat bas + 0x100 then Some (BarRegion d 0) else None)) \<and>
      region_io (regions (m_io m) (BarRegion d 0)) = (bas, 0x100, PciDev d, Some Virtio_pci_iospace_handle_io) \<and>
      unat bas < 2 ^ 32)"

text \<open>The exits by which the driver writes the BAR and then the command register.\<close>

definition map_bar :: "u32 \<Rightarrow> u16 \<Rightarrow> kvm_exit list" where
  "map_bar v cmd = map KVM_EXIT_IO
     [config_out 0x80000010, config_data True 0 (le_bytes 4 v), config_out 0x80000004, config_data True 0 (le_bytes 2 cmd)]"

lemma config_write_exit:
  assumes "config_wired (m_io m)" "0 < length data" "length data \<le> 4" "pci_addr (pci (m_blk m)) = a" "4 dvd unat a" "selects_disk a"
    and "pci_config_write 0 data (of_nat (unat a - 0x80000000)) (of_nat (length data)) (pci (m_blk m)) = Some p"
  shows "iobus_handle_pio (io_call env 2) m_io (config_data True 0 data) m = Some (config_data True 0 data, set_pci p m)"
proof -
  have "0 + length data \<le> 4" using assms(3) by simp
  from config_data_exit [OF assms(1,2) this assms(4,5), of env True] show ?thesis
    using assms(6,7) by (simp add: on_pci_def pci_config_handle_io_def obj_write_def set_pci_def config_data_def del: of_nat_diff)
qed

lemma config_wired_io:
  assumes "config_wired h" "bus_repr h' l" "l PioBus = boot_lists PioBus" "l PciBus = [ConfigRegion 0]"
    and "\<And>r. r \<in> set (boot_lists PioBus) \<or> r = ConfigRegion 0 \<Longrightarrow> region_io (regions h' r) = region_io (regions h r)"
  shows "config_wired h'"
  using assms bus_repr_chain [OF assms(2), of PioBus] bus_repr_chain [OF assms(2), of PciBus] by (simp add: config_wired_def)

text \<open>The configuration writes on the PCI state: \<open>p\<close> is the state with the disk, apart from the address register.\<close>

definition notify_caps :: "bytes \<Rightarrow> bool" where
  "notify_caps c \<longleftrightarrow> obj_read c 0x54 1 = Some [0] \<and> obj_read c 0x58 4 = Some (le_bytes 4 (60 :: u32)) \<and>
     obj_read c 0x60 4 = Some (le_bytes 4 (0 :: u32))"

lemma disk_header_caps: "notify_caps (disk_header n)"
proof -
  have "obj_read (disk_header n) a k = obj_read blk_header a k" if "a + k \<le> 0x80" for a k
    using that by (auto simp: obj_read_def disk_header_def blk_header_fields(1) drop_take)
  moreover have "notify_caps blk_header" by code_simp
  ultimately show ?thesis by (simp add: notify_caps_def)
qed

lemma notify_caps_keep:
  assumes "notify_caps c" "a + n \<le> 0x54"
    and "\<And>b k. b + k \<le> PCI_CFG_SPACE_SIZE \<Longrightarrow> apart (a, n) (b, k) \<Longrightarrow> obj_read c' b k = obj_read c b k"
  shows "notify_caps c'"
  using assms(1,2) by (auto simp: notify_caps_def assms(3) apart_def const_simps)

definition disk_pci :: "pci_state \<Rightarrow> bool" where
  "disk_pci p \<longleftrightarrow> (\<exists>c. pci_devs p 0 = blk_pci_dev\<lparr>cfg_space := c\<rparr> \<and> length c = PCI_CFG_SPACE_SIZE \<and> notify_caps c) \<and>
     bus_repr (io p) disk_lists \<and> config_wired (io p) \<and>
     (\<exists>bas. region_io (regions (io p) (BarRegion 0 0)) = (bas, 0x100, PciDev 0, Some Virtio_pci_iospace_handle_io))"

lemma disk_pci_addr [simp]: "disk_pci (p\<lparr>pci_addr := a\<rparr>) = disk_pci p"
  by (simp add: disk_pci_def)

lemma disk_pci_dev:
  assumes "disk_pci p"
  shows "dev_wf (pci_devs p 0)" "\<forall>i. 0 < i \<and> i < PCI_STD_NUM_BARS \<longrightarrow> bar_size (pci_devs p 0) ! i = 0"
    "\<not> bar_is_io_space (pci_devs p 0) ! 0" "\<not> bar_active (pci_devs p 0) ! 0" "bar_mask (pci_devs p 0) 0 = NOT 0xFF"
  using assms by (auto simp: disk_pci_def blk_pci_dev_def zero_dev_def dev_wf_def bar_mask_def const_simps)

lemma with_disk_pci: "with_disk img n st m \<Longrightarrow> disk_pci (pci (m_blk m))"
  using disk_header_caps with_disk_wired [of img n st m] disk_io_regions(2)
  by (auto simp: with_disk_def disk_pci_def m_io_def bars_synced_def const_simps)

lemma disk_write_bar:
  fixes v :: u32
  assumes p: "disk_pci p" and v: "unat v mod 256 = 0"
  shows "\<exists>p2. pci_config_write 0 (le_bytes 4 v) 0x10 4 p = Some p2 \<and> disk_pci p2 \<and>
    r_base (regions (io p2) (BarRegion 0 0)) = ucast v \<and> obj_read (cfg_space (pci_devs p2 0)) 0x10 4 = Some (le_bytes 4 v)"
proof -
  note d = disk_pci_dev [OF p]
  let ?h = "upd_region (BarRegion 0 0) (r_base_update (\<lambda>_. ucast v)) (io p)"
  have i: "0 < PCI_STD_NUM_BARS" "PCI_BAR_OFFSET 0 = 0x10" by (simp_all add: const_simps PCI_BAR_OFFSET_def)
  have new: "(v AND bar_mask (pci_devs p 0) 0) OR (if bar_is_io_space (pci_devs p 0) ! 0 then 1 else 0) = v"
    using d(3) aligned_and_bar [OF v] by (simp only: d(5) if_False or.right_neutral)
  obtain c where c: "pci_config_write 0 (le_bytes 4 v) 0x10 4 p = Some (p\<lparr>io := ?h, pci_devs := (pci_devs p)(0 := (pci_devs p 0)\<lparr>cfg_space := c\<rparr>)\<rparr>)"
    "length c = PCI_CFG_SPACE_SIZE" "obj_read c 0x10 4 = Some (le_bytes 4 v)"
    "\<And>b k. b + k \<le> PCI_CFG_SPACE_SIZE \<Longrightarrow> apart (0x10, 4) (b, k) \<Longrightarrow> obj_read c b k = obj_read (cfg_space (pci_devs p 0)) b k"
    using config_write_bar [OF d(1) i(1), of v] unfolding new i(2) by auto
  have "notify_caps (cfg_space (pci_devs p 0))" using p by (auto simp: disk_pci_def)
  then have caps: "notify_caps c" by (rule notify_caps_keep [of _ "0x10" 4]) (simp, rule c(4))
  have rep: "bus_repr ?h disk_lists" using p by (simp add: disk_pci_def bus_repr_base)
  have "config_wired (io p)" using p by (simp add: disk_pci_def)
  then have "config_wired ?h" by (rule config_wired_io [OF _ rep disk_lists_pio(1,2)]) (auto simp: boot_lists_def upd_region_def)
  then have "disk_pci (p\<lparr>io := ?h, pci_devs := (pci_devs p)(0 := (pci_devs p 0)\<lparr>cfg_space := c\<rparr>)\<rparr>)"
    using p rep c(2) caps by (auto simp: disk_pci_def region_io_def upd_region_def)
  then show ?thesis using c(1,3) by (simp add: upd_region_def)
qed

lemma disk_write_command:
  fixes v :: u32
  assumes p: "disk_pci p" and bas: "r_base (regions (io p) (BarRegion 0 0)) = ucast v" and v: "unat v mod 256 = 0" "v \<noteq> 0"
    and cmd: "bit (cmd :: u16) 1"
  shows "\<exists>p2. pci_config_write 0 (le_bytes 2 cmd) 4 2 p = Some p2 \<and> io p2 = iobus_register_region MmioBus (BarRegion 0 0) (io p) \<and>
    notify_caps (cfg_space (pci_devs p2 0)) \<and> obj_read (cfg_space (pci_devs p2 0)) 0x10 4 = obj_read (cfg_space (pci_devs p 0)) 0x10 4"
proof -
  note d = disk_pci_dev [OF p]
  have "(ucast v :: u64) AND ucast (NOT 0xFF :: u32) = ucast (v AND NOT 0xFF)" by (simp only: unsigned_and_eq)
  also have "\<dots> = ucast v" by (simp only: aligned_and_bar [OF v(1)])
  also have "\<dots> \<noteq> 0" using v(2) by (simp add: word_unat_eq_iff unsigned_ucast_eq take_bit_nat_eq_self)
  finally have "bar_based p 0 0" by (simp only: bar_based_def bas d(5)) simp
  moreover have "cmd AND PCI_COMMAND_MEMORY \<noteq> 0" using cmd and_exp_eq_0_iff_not_bit [of cmd 1] by (simp add: const_simps)
  moreover have "of_nat PCI_COMMAND = (4 :: u64)" by (simp add: const_simps)
  ultimately obtain p2 c act where p2: "pci_config_write 0 (le_bytes 2 cmd) 4 2 p = Some p2"
      "io p2 = iobus_register_region MmioBus (BarRegion 0 0) (io p)"
      "pci_devs p2 = (pci_devs p)(0 := (pci_devs p 0)\<lparr>cfg_space := c, bar_active := act\<rparr>)"
      "\<And>b k. b + k \<le> PCI_CFG_SPACE_SIZE \<Longrightarrow> apart (PCI_COMMAND, 2) (b, k) \<Longrightarrow> obj_read c b k = obj_read (cfg_space (pci_devs p 0)) b k"
    using single_bar_command(2) [OF d(1-3) _ d(4), of cmd] by auto
  have "notify_caps (cfg_space (pci_devs p 0))" using p by (auto simp: disk_pci_def)
  then have "notify_caps c" by (rule notify_caps_keep [of _ PCI_COMMAND 2]) (simp add: const_simps, rule p2(4))
  moreover have "obj_read c 0x10 4 = obj_read (cfg_space (pci_devs p 0)) 0x10 4"
    by (rule p2(4)) (simp_all add: const_simps apart_def)
  ultimately show ?thesis using p2(1-3) by simp
qed

lemma bar_registered:
  assumes p: "disk_pci p" and bas: "r_base (regions (io p) (BarRegion 0 0)) = bas" and hi: "unat bas + 0x100 \<le> 2 ^ 32"
  defines "h \<equiv> iobus_register_region MmioBus (BarRegion 0 0) (io p)"
  shows "config_wired h" "region_io (regions h (BarRegion 0 0)) = (bas, 0x100, PciDev 0, Some Virtio_pci_iospace_handle_io)"
    "iobus_find_region h MmioBus a = Some (if unat bas \<le> unat a \<and> unat a < unat bas + 0x100 then Some (BarRegion 0 0) else None)"
proof -
  let ?l = "disk_lists(MmioBus := BarRegion 0 0 # disk_lists MmioBus)"
  have "BarRegion 0 0 \<notin> set (disk_lists b)" for b by (simp add: disk_lists_def boot_lists_def)
  then have rep: "bus_repr h ?l" using p unfolding h_def by (intro bus_repr_register) (simp_all add: disk_pci_def)
  have w: "config_wired (io p)" using p by (simp add: disk_pci_def)
  show "config_wired h"
    by (rule config_wired_io [OF w rep]) (simp_all add: disk_lists_pio h_def region_io_def register_fields)
  show reg: "region_io (regions h (BarRegion 0 0)) = (bas, 0x100, PciDev 0, Some Virtio_pci_iospace_handle_io)"
    using p bas by (auto simp: disk_pci_def h_def region_io_def register_fields)
  have "unat (bas + 0x100 - 1) = unat bas + 0xFF" using hi unat_add_sub_one [of "0x100" bas] by simp
  then have "bus_hit h (BarRegion 0 0) a \<longleftrightarrow> unat bas \<le> unat a \<and> unat a < unat bas + 0x100"
    using reg by (auto simp: bus_hit_def region_hit_def region_io_def word_le_nat_alt simp del: diff_add_eq add_diff_eq)
  then show "iobus_find_region h MmioBus a = Some (if unat bas \<le> unat a \<and> unat a < unat bas + 0x100 then Some (BarRegion 0 0) else None)"
    using ib.find_first [OF rep, of MmioBus a] by (simp add: disk_lists_pio)
qed

lemma map_bar_decodes:
  fixes v :: u32
  assumes d: "with_disk img n st m" and v: "unat v mod 256 = 0" "v \<noteq> 0" "unat v + 0x100 \<le> 2 ^ 32" and cmd: "bit cmd 1"
  shows "\<exists>p. vcpu_exec env True (map_bar v cmd) ret m = Some (Running (Some 0) (set_pci p m)) \<and> bar_decoded (set_pci p m) (ucast v) \<and>
    config_wired (io p) \<and> notify_at (m_blk (set_pci p m)) v 60 0"
proof -
  define p1 where "p1 = (pci (m_blk m))\<lparr>pci_addr := 0x80000010\<rparr>"
  have d1: "disk_pci p1" and w: "config_wired (m_io m)" and vd: "vp_dev (vdev (m_blk m)) = 0" "notify_cap (vdev (m_blk m)) = 0x50"
    using with_disk_pci [OF d] with_disk_wired [OF d] d by (simp_all add: p1_def with_disk_def disk_vdev_def)
  obtain p2 where p2: "pci_config_write 0 (le_bytes 4 v) 0x10 4 p1 = Some p2" "disk_pci p2" "r_base (regions (io p2) (BarRegion 0 0)) = ucast v"
      "obj_read (cfg_space (pci_devs p2 0)) 0x10 4 = Some (le_bytes 4 v)"
    using disk_write_bar [OF d1 v(1)] by blast
  define p3 where "p3 = p2\<lparr>pci_addr := 0x80000004\<rparr>"
  have d3: "disk_pci p3" "r_base (regions (io p3) (BarRegion 0 0)) = ucast v" using p2(2,3) by (simp_all add: p3_def)
  obtain p4 where p4: "pci_config_write 0 (le_bytes 2 cmd) 4 2 p3 = Some p4" "io p4 = iobus_register_region MmioBus (BarRegion 0 0) (io p3)"
      "notify_caps (cfg_space (pci_devs p4 0))" "obj_read (cfg_space (pci_devs p4 0)) 0x10 4 = obj_read (cfg_space (pci_devs p3 0)) 0x10 4"
    using disk_write_command [OF d3 v(1,2) cmd] by blast
  have wired: "config_wired (m_io (set_pci p m))" if "disk_pci p" for p using that by (simp add: disk_pci_def)
  have e1: "iobus_handle_pio (io_call env 2) m_io (config_out 0x80000010) m = Some (config_out 0x80000010, set_pci p1 m)"
    using config_out_exit [OF w, of env "0x80000010"] by (simp add: p1_def)
  have e2: "iobus_handle_pio (io_call env 2) m_io (config_data True 0 (le_bytes 4 v)) (set_pci p1 m) =
      Some (config_data True 0 (le_bytes 4 v), set_pci p2 m)"
    using config_write_exit [OF wired [OF d1], of "le_bytes 4 v" "0x80000010" p2] p2(1) by (simp add: p1_def selects_disk_def)
  have e3: "iobus_handle_pio (io_call env 2) m_io (config_out 0x80000004) (set_pci p2 m) = Some (config_out 0x80000004, set_pci p3 m)"
    using config_out_exit [OF wired [OF p2(2)], of env "0x80000004"] by (simp add: p3_def)
  have e4: "iobus_handle_pio (io_call env 2) m_io (config_data True 0 (le_bytes 2 cmd)) (set_pci p3 m) =
      Some (config_data True 0 (le_bytes 2 cmd), set_pci p4 m)"
    using config_write_exit [OF wired [OF d3(1)], of "le_bytes 2 cmd" "0x80000004" p4] p4(1) by (simp add: p3_def selects_disk_def)
  have "vcpu_exec env True (map_bar v cmd) ret m = Some (Running (Some 0) (set_pci p4 m))"
    by (simp add: map_bar_def vcpu_exit_def e1 e2 e3 e4)
  moreover have u: "unat (ucast v :: u64) = unat v" by (simp add: unsigned_ucast_eq take_bit_nat_eq_self)
  have hi: "unat (ucast v :: u64) + 0x100 \<le> 2 ^ 32" using v(3) unfolding u .
  note reg = bar_registered [OF d3 hi, folded p4(2)]
  have vd4: "vp_dev (vdev (m_blk (set_pci p4 m))) = 0" "notify_cap (vdev (m_blk (set_pci p4 m))) = 0x50" using vd by (simp_all add: set_pci_def)
  have "obj_read (cfg_space (pci_devs p4 0)) 0x10 4 = Some (le_bytes 4 v)" using p2(4) by (simp add: p4(4) p3_def)
  then have "notify_at (m_blk (set_pci p4 m)) v 60 0"
    using p4(3) by (simp add: notify_at_def Let_def vd4 PCI_HDR_READ_def notify_caps_def PCI_BAR_OFFSET_def const_simps)
  moreover have "bar_decoded (set_pci p4 m) (ucast v)" using reg(2,3) v(3) vd4 by (simp add: bar_decoded_def u)
  ultimately show ?thesis using reg(1) by blast
qed

section \<open>Properties\<close>

text \<open>Property C6. The disk the guest finds. With an image file that can be opened, device creation succeeds, and an
  access by the configuration mechanism (address to CF8, data of 1 to 4 bytes at CFC) reads, for every
  register of bus 0, device 0, function 0, the bytes of a virtio block device: vendor 1AF4, device 1042, class 01 80, a
  list of five vendor capabilities at 40, 50, 64, 74 and 84 that place the common, notification,
  interrupt-status and device registers in BAR 0; every other address leaves the guest's register as
  it was. The device has the image as its disk, its capacity in sectors of 512 bytes, one queue of 128
  entries, and offers version 1 with packed rings.\<close>

theorem guest_finds_disk:
  assumes "pci (m_blk m) = pci_state_0" "m_serial m = serial_0" "e_files env path = Some img" "8 \<le> e_cfg_len env"
  shows "\<exists>m1 hdr. create_devices env (Some path) m = Some (Inr m1) \<and> ram (m_blk m1) = ram (m_blk m) \<and>
    (\<forall>a k data. 4 dvd unat a \<and> 0 < length data \<and> k + length data \<le> 4 \<longrightarrow>
      (\<exists>m2. iobus_handle_pio (io_call menv 2) m_io (config_out a) m1 = Some (config_out a, m2) \<and>
        iobus_handle_pio (io_call menv 2) m_io (config_data False k data) m2 = Some (config_data False k
          (if 0x80000000 \<le> unat a \<and> unat a < 0x80000100 then take (length data) (drop (unat a - 0x80000000 + k) hdr) else data), m2))) \<and>
    length hdr = 256 \<and> field hdr 0 2 = (0x1AF4 :: u16) \<and> field hdr 2 2 = (0x1042 :: u16) \<and> field hdr 8 4 = (0x01800000 :: u32) \<and>
    field hdr 0x34 1 = (0x40 :: u8) \<and> field hdr 0x3c 1 = (15 :: u8) \<and>
    cap_at hdr 0x40 = (9, 0x50, 16, 1, 0, 0, 56) \<and> cap_at hdr 0x50 = (9, 0x64, 20, 2, 0, 60, 4) \<and>
    cap_at hdr 0x64 = (9, 0x74, 16, 3, 0, 56, 4) \<and> cap_at hdr 0x74 = (9, 0x84, 16, 4, 0, 64, ucast (of_nat (e_cfg_len env) :: u8)) \<and>
    cap_at hdr 0x84 = (9, 0x98, 20, 5, 0, 0, 0) \<and>
    disk (m_blk m1) = img \<and> field (dev_cfg_obj (m_blk m1)) 0 8 = (of_nat (length img) div 512 :: u64) \<and>
    cfg_num_queues (vdev (m_blk m1)) = 1 \<and> map info_size (vq (vdev (m_blk m1))) = [128] \<and>
    device_feature (vdev (m_blk m1)) = 2 ^ VIRTIO_F_RING_PACKED OR 2 ^ VIRTIO_F_VERSION_1"
proof -
  let ?n = "of_nat (e_cfg_len env) :: u8"
  obtain m1 where m1: "create_devices env (Some path) m = Some (Inr m1)" "with_disk img (e_cfg_len env) (ram (m_blk m)) m1"
    using create_devices_disk [OF assms] by blast
  have hdr: "cfg_space (pci_devs (pci (m_blk m1)) 0) = disk_header ?n" using m1(2) by (simp add: with_disk_def)
  have "\<exists>m2. iobus_handle_pio (io_call menv 2) m_io (config_out a) m1 = Some (config_out a, m2) \<and>
      iobus_handle_pio (io_call menv 2) m_io (config_data False k data) m2 = Some (config_data False k
        (if 0x80000000 \<le> unat a \<and> unat a < 0x80000100 then take (length data) (drop (unat a - 0x80000000 + k) (disk_header ?n)) else data), m2)"
    if "4 dvd unat a" "0 < length data" "k + length data \<le> 4" for a k data
  proof -
    define m2 where "m2 = set_pci ((pci (m_blk m1))\<lparr>pci_addr := a AND NOT 3\<rparr>) m1"
    have a: "pci_addr (pci (m_blk m2)) = a" by (simp only: m2_def set_pci_simps aligned_and [OF that(1)]) simp
    have w: "config_wired (m_io m1)" "config_wired (m_io m2)" using with_disk_wired [OF m1(2)] by (simp_all add: m2_def m_io_def)
    have h: "cfg_space (pci_devs (pci (m_blk m2)) 0) = disk_header ?n" by (simp add: m2_def hdr)
    then have l: "length (cfg_space (pci_devs (pci (m_blk m2)) 0)) = 256" by simp
    show ?thesis
      using config_out_exit [OF w(1), of menv a, folded m2_def] config_read_exit [OF w(2) that(2,3) a that(1) l, of menv]
      unfolding h selects_disk_def by blast
  qed
  moreover have "field (dev_cfg_obj (m_blk m1)) 0 8 = (of_nat (length img) div 512 :: u64)"
    by (rule field_le_bytes) (use m1(2) in \<open>simp_all add: with_disk_def\<close>)
  moreover have "map info_size (vq (vdev (m_blk m1))) = [128]" using m1(2) blk_vq(2) by (simp add: with_disk_def disk_vdev_def const_simps)
  ultimately show ?thesis
    using m1 disk_header_fields [of ?n]
    by (intro exI [of _ m1] exI [of _ "disk_header ?n"] conjI) (simp_all add: with_disk_def disk_vdev_def)
qed

text \<open>Property C7. Mapping the device's registers: with the disk of device creation, writing a 256-byte aligned
  address below 4 GiB to BAR 0 and then a command with memory decoding on, all by port exits of the vcpu loop, makes
  exactly the 256 addresses from there on reach the virtio registers of the block device; a queue enabled
  from then on gets its doorbell at the address plus 60, where the notification capability says it is; guest
  memory, the disk and the device are as before.\<close>

theorem guest_maps_registers:
  fixes v :: u32
  assumes "pci (m_blk m) = pci_state_0" "m_serial m = serial_0" "e_files env path = Some img" "8 \<le> e_cfg_len env"
    and "unat v mod 256 = 0" "v \<noteq> 0" "unat v + 0x100 \<le> 2 ^ 32" "bit (cmd :: u16) 1"
  shows "\<exists>m1 m2. create_devices env (Some path) m = Some (Inr m1) \<and>
    vcpu_exec menv True (map_bar v cmd) None m1 = Some (Running (Some 0) m2) \<and>
    (\<forall>a. iobus_find_region (m_io m2) MmioBus a = Some (if unat v \<le> unat a \<and> unat a < unat v + 0x100 then Some (BarRegion 0 0) else None)) \<and>
    region_io (regions (m_io m2) (BarRegion 0 0)) = (ucast v, 0x100, PciDev 0, Some Virtio_pci_iospace_handle_io) \<and>
    notify_at (m_blk m2) v 60 0 \<and> ram (m_blk m2) = ram (m_blk m) \<and> disk (m_blk m2) = img \<and> vdev (m_blk m2) = vdev (m_blk m1)"
proof -
  obtain m1 where m1: "create_devices env (Some path) m = Some (Inr m1)" "with_disk img (e_cfg_len env) (ram (m_blk m)) m1"
    using create_devices_disk [OF assms(1-4)] by blast
  obtain p where p: "vcpu_exec menv True (map_bar v cmd) None m1 = Some (Running (Some 0) (set_pci p m1))" "bar_decoded (set_pci p m1) (ucast v)"
      "notify_at (m_blk (set_pci p m1)) v 60 0"
    using map_bar_decodes [OF m1(2) assms(5-8), of menv None] by blast
  have "unat (ucast v :: u64) = unat v" by (simp add: unsigned_ucast_eq take_bit_nat_eq_self)
  moreover have "vp_dev (vdev (m_blk (set_pci p m1))) = 0" "ram (m_blk (set_pci p m1)) = ram (m_blk m)" "disk (m_blk (set_pci p m1)) = img"
    "vdev (m_blk (set_pci p m1)) = vdev (m_blk m1)"
    using m1(2) by (simp_all add: set_pci_def with_disk_def disk_vdev_def)
  ultimately show ?thesis
    using m1(1) p by (intro exI [of _ m1] exI [of _ "set_pci p m1"]) (simp add: bar_decoded_def)
qed

lemma sample_disk_file: "pci (m_blk machine_0) = pci_state_0" "m_serial machine_0 = serial_0"
    "e_files sample_main_env ''k'' = Some [1, 2, 3]" "8 \<le> e_cfg_len sample_main_env"
  by (simp_all add: machine_0_def blk_0_def sample_main_env_def sample_fs_def)

theorem guest_finds_disk_witness:
  "\<exists>(m1 :: machine) m2 x. create_devices sample_main_env (Some ''k'') machine_0 = Some (Inr m1) \<and>
     iobus_handle_pio (io_call sample_machine_env 2) m_io (config_out 0x80000000) m1 = Some (config_out 0x80000000, m2) \<and>
     iobus_handle_pio (io_call sample_machine_env 2) m_io (config_data False 2 [0, 0]) m2 = Some (config_data False 2 x, m2) \<and>
     of_le x = (0x1042 :: u16)"
proof -
  obtain m1 hdr where m1: "create_devices sample_main_env (Some ''k'') machine_0 = Some (Inr m1)"
    "\<forall>a k data. 4 dvd unat a \<and> 0 < length data \<and> k + length data \<le> 4 \<longrightarrow>
      (\<exists>m2. iobus_handle_pio (io_call sample_machine_env 2) m_io (config_out a) m1 = Some (config_out a, m2) \<and>
        iobus_handle_pio (io_call sample_machine_env 2) m_io (config_data False k data) m2 = Some (config_data False k
          (if 0x80000000 \<le> unat a \<and> unat a < 0x80000100 then take (length data) (drop (unat a - 0x80000000 + k) hdr) else data), m2))"
    "field hdr 2 2 = (0x1042 :: u16)"
    using guest_finds_disk [OF sample_disk_file, of sample_machine_env] by (elim exE conjE) (rule that)
  have "length [0, 0 :: u8] = 2" by simp
  with m1(2) [rule_format, of "0x80000000" "[0, 0]" 2] m1(1,3) show ?thesis
    by (auto simp: field_def numeral_2_eq_2 [symmetric] simp del: list.size)
qed

theorem guest_maps_registers_witness:
  "\<exists>m1 m2. create_devices sample_main_env (Some ''k'') machine_0 = Some (Inr m1) \<and>
    vcpu_exec sample_machine_env True (map_bar 0xFE000000 2) None m1 = Some (Running (Some 0) m2) \<and>
    iobus_find_region (m_io m2) MmioBus 0xFE00003C = Some (Some (BarRegion 0 0))"
  using guest_maps_registers [OF sample_disk_file, of "0xFE000000" 2 sample_machine_env] by (force simp: bit_numeral_rec)

end
