(* ===== verification/Blk_queue.thy ===== *)
theory Blk_queue
  imports Virtio_blk
begin

text \<open>
  The block device as a whole: what one notification of a queue with any number of requests does.
  The abstract specification is a disk on which transfers are made one after the other; the
  theorem says that \<open>virtio_blk_handle_output\<close> drains the ring, ends, and implements it.
\<close>

section \<open>Abstract transfers\<close>

text \<open>A request as the driver describes it: the addresses are those of the buffers in host memory.\<close>

record blk_req =
  br_type :: u32
  br_sector :: u64
  br_hdr :: u64
  br_data :: u64
  br_len :: nat
  br_status :: u64

definition br_offset :: "blk_req \<Rightarrow> nat" where
  "br_offset r = unat (br_sector r * 512)"

text \<open>One transfer: the bytes that go through the data buffer, and the disk afterwards. \<open>pay r\<close> is
  what the driver put into the buffer of a write.\<close>

definition blk_xfer :: "(blk_req \<Rightarrow> bytes) \<Rightarrow> blk_req \<Rightarrow> bytes \<Rightarrow> bytes \<times> bytes" where
  "blk_xfer pay r dk =
     (if br_type r = VIRTIO_BLK_T_IN then (take (br_len r) (drop (br_offset r) dk), dk)
      else (pay r, take (br_offset r) dk @ pay r @ drop (br_offset r + br_len r) dk))"

primrec blk_serve :: "(blk_req \<Rightarrow> bytes) \<Rightarrow> blk_req list \<Rightarrow> bytes \<Rightarrow> bytes list \<times> bytes" where
  "blk_serve pay [] dk = ([], dk)"
| "blk_serve pay (r # rs) dk =
     (let (bs, dk1) = blk_xfer pay r dk; (bss, dk2) = blk_serve pay rs dk1 in (bs # bss, dk2))"

lemma blk_serve_Cons:
  "fst (blk_serve pay (r # rs) dk) = fst (blk_xfer pay r dk) # fst (blk_serve pay rs (snd (blk_xfer pay r dk)))"
  "snd (blk_serve pay (r # rs) dk) = snd (blk_serve pay rs (snd (blk_xfer pay r dk)))"
  by (simp_all add: case_prod_unfold Let_def)

section \<open>Requests in the ring\<close>

definition req_chain :: "memory \<Rightarrow> virtq \<Rightarrow> nat \<Rightarrow> blk_req \<Rightarrow> bool" where
  "req_chain st q p r \<longleftrightarrow>
     (\<exists>f0 f1 f2 a0 a1 a2 h l1. let sz = unat (info_size q) in
        desc_flags st (desc_at q p) = Some f0 \<and> avail_flags sz p f0 \<and> bit f0 0 \<and>
        desc_flags st (desc_at q (Suc p)) = Some f1 \<and> avail_flags sz (Suc p) f1 \<and> bit f1 0 \<and>
        desc_flags st (desc_at q (Suc (Suc p))) = Some f2 \<and> avail_flags sz (Suc (Suc p)) f2 \<and>
        desc_addr st (desc_at q p) = Some a0 \<and> get_userspace_addr st a0 = Some (br_hdr r) \<and>
        desc_len st (desc_at q p) = Some 16 \<and>
        load_bytes (hmem st) (unat (br_hdr r)) 16 = Some (le_bytes 4 (br_type r) @ h @ le_bytes 8 (br_sector r)) \<and> length h = 4 \<and>
        desc_addr st (desc_at q (Suc p)) = Some a1 \<and> get_userspace_addr st a1 = Some (br_data r) \<and>
        desc_len st (desc_at q (Suc p)) = Some l1 \<and> unat l1 = br_len r \<and>
        desc_addr st (desc_at q (Suc (Suc p))) = Some a2 \<and> get_userspace_addr st a2 = Some (br_status r) \<and>
        mapped (hmem st) (unat (br_data r)) (br_len r) \<and> mapped (hmem st) (unat (br_status r)) 1 \<and>
        apart (ring_extent q) (unat (br_data r), br_len r) \<and> apart (ring_extent q) (unat (br_status r), 1) \<and>
        apart (ring_extent q) (unat (br_hdr r), 16) \<and> apart (unat (br_data r), br_len r) (unat (br_status r), 1))"

lemma req_chain_blk_chain:
  assumes "req_chain (ram s) q p r"
  shows "\<exists>f0. blk_chain s q p f0 (br_type r) (br_sector r) (br_data r) (br_len r) (br_status r) \<and>
    desc_flags (ram s) (desc_at q p) = Some f0 \<and> avail_flags (unat (info_size q)) p f0"
  using assms unfolding req_chain_def blk_chain_def Let_def by blast

lemma req_chain_advance [simp]: "req_chain st (virtq_advance q) = req_chain st q"
  by (simp add: req_chain_def advance_ring fun_eq_iff)

text \<open>A chain survives what leaves its descriptors, its header and the memory map alone.\<close>

lemma req_chain_cong:
  assumes "req_chain st q p r"
    and "\<And>k. k < 3 \<Longrightarrow> desc_flags st' (desc_at q (p + k)) = desc_flags st (desc_at q (p + k)) \<and>
        desc_addr st' (desc_at q (p + k)) = desc_addr st (desc_at q (p + k)) \<and>
        desc_len st' (desc_at q (p + k)) = desc_len st (desc_at q (p + k))"
    and "load_bytes (hmem st') (unat (br_hdr r)) 16 = load_bytes (hmem st) (unat (br_hdr r)) 16"
    and "\<And>a n. mapped (hmem st') a n = mapped (hmem st) a n" "\<And>a. get_userspace_addr st' a = get_userspace_addr st a"
  shows "req_chain st' q p r"
  using assms(1) assms(2) [of 0] assms(2) [of 1] assms(2) [of 2] assms(3-5) unfolding req_chain_def Let_def by simp


text \<open>A request that has been carried out: \<open>bs\<close> is in the buffer, the status is OK, and the first
  descriptor is marked used with the length.\<close>

definition req_done :: "memory \<Rightarrow> virtq \<Rightarrow> nat \<Rightarrow> bytes \<Rightarrow> blk_req \<Rightarrow> bool" where
  "req_done st q p bs r \<longleftrightarrow> load_bytes (hmem st) (unat (br_data r)) (length bs) = Some bs \<and>
     load_bytes (hmem st) (unat (br_status r)) 1 = Some [VIRTIO_BLK_S_OK] \<and>
     (\<exists>f. desc_flags st (desc_at q p) = Some f \<and> used_flags (unat (info_size q)) p f) \<and>
     desc_len st (desc_at q p) = Some (of_nat (length bs))"

lemma req_done_advance [simp]: "req_done st (virtq_advance q) = req_done st q"
  by (simp add: req_done_def advance_ring fun_eq_iff)

definition req_bufs :: "blk_req \<Rightarrow> (nat \<times> nat) set" where
  "req_bufs r = {(unat (br_data r), br_len r), (unat (br_status r), 1)}"

text \<open>The buffers of a request are apart from those and from the header of a later one.\<close>

definition req_apart :: "blk_req \<Rightarrow> blk_req \<Rightarrow> bool" where
  "req_apart r r' \<longleftrightarrow> (\<forall>b \<in> req_bufs r. \<forall>c \<in> insert (unat (br_hdr r'), 16) (req_bufs r'). apart b c)"

section \<open>One request\<close>

lemma mod_shift_neq: "0 < d \<Longrightarrow> d < n \<Longrightarrow> (p + d) mod n \<noteq> p mod (n :: nat)"
proof
  assume d: "0 < d" "d < n" and "(p + d) mod n = p mod n"
  then have "n dvd d" by (metis add_diff_cancel_left' mod_eq_dvd_iff_nat le_add1)
  with d show False by (auto dest: dvd_imp_le)
qed

lemma mark_used_other:
  fixes j p :: nat
  assumes r: "ring_mapped st q" "0 < info_size q" and "j mod unat (info_size q) \<noteq> p mod unat (info_size q)"
  shows "desc_flags (mark_used (desc_at q p) flags len st) (desc_at q j) = desc_flags st (desc_at q j)"
    "desc_addr (mark_used (desc_at q p) flags len st) (desc_at q j) = desc_addr st (desc_at q j)"
    "desc_len (mark_used (desc_at q p) flags len st) (desc_at q j) = desc_len st (desc_at q j)"
proof -
  define d where "d = desc_at q p"
  have a: "unat (d + 14) = unat d + 14" "unat (d + 8) = unat d + 8"
    "unat (desc_at q j + 14) = unat (desc_at q j) + 14" "unat (desc_at q j + 8) = unat (desc_at q j) + 8"
    using desc_extent(1) [OF r, of 14 2] desc_extent(1) [OF r, of 8 4] by (simp_all add: d_def)
  have ap: "apart (unat d, 16) (unat (desc_at q j), 16)"
  proof -
    have "unat d = unat (desc_ring q) + 16 * (p mod unat (info_size q))"
      "unat (desc_at q j) = unat (desc_ring q) + 16 * (j mod unat (info_size q))"
      using unat_desc_at(1) [OF r, of 0 p] unat_desc_at(1) [OF r, of 0 j] by (simp_all add: d_def)
    then show ?thesis using assms(3) by (auto simp: apart_def)
  qed
  let ?m = "hput st (d + 14) (le_bytes 2 flags)"
  have m14: "mapped (hmem st) (unat (d + 14)) (length (le_bytes 2 flags))"
    and m8: "mapped (hmem ?m) (unat (d + 8)) (length (le_bytes 4 len))"
    using desc_extent(2) [OF r, of 14 2 p] desc_extent(2) [OF r, of 8 4 p] a by (simp_all add: d_def)
  have l: "load_bytes (hmem (mark_used d flags len st)) (unat (desc_at q j) + k) n = load_bytes (hmem st) (unat (desc_at q j) + k) n"
    if "k + n \<le> 16" for k n
  proof -
    note mj = desc_extent(2) [OF r that, of j]
    have "load_bytes (hmem (mark_used d flags len st)) (unat (desc_at q j) + k) n = load_bytes (hmem ?m) (unat (desc_at q j) + k) n"
      unfolding mark_used_def using mj m14 ap that a by (intro load_hput_other [OF m8]) (auto simp: apart_def)
    also have "\<dots> = load_bytes (hmem st) (unat (desc_at q j) + k) n"
      using mj ap that a by (intro load_hput_other [OF m14]) (auto simp: apart_def)
    finally show ?thesis .
  qed
  show "desc_flags (mark_used (desc_at q p) flags len st) (desc_at q j) = desc_flags st (desc_at q j)"
    using l [of 14 2] a by (simp add: desc_flags_def host_load_def d_def)
  show "desc_addr (mark_used (desc_at q p) flags len st) (desc_at q j) = desc_addr st (desc_at q j)"
    using l [of 0 8] by (simp add: desc_addr_def host_load_def d_def)
  show "desc_len (mark_used (desc_at q p) flags len st) (desc_at q j) = desc_len st (desc_at q j)"
    using l [of 8 4] a by (simp add: desc_len_def host_load_def d_def)
qed

lemma get_userspace_addr_mark_used [simp]: "get_userspace_addr (mark_used d f len st) a = get_userspace_addr st a"
  by (simp add: mark_used_def)


text \<open>Everything of the device a request leaves alone.\<close>

definition blk_rest :: "blk_state \<Rightarrow> pci_state \<times> ioeventfd_state \<times> u64 \<times> bytes \<times> u64 \<times> nat \<times> virtio_pci_dev" where
  "blk_rest s = (pci s, ioev s, dev_cfg_addr s, dev_cfg_obj s, disk_size s, irqs s, (vdev s)\<lparr>vq := []\<rparr>)"

text \<open>The effect of the transfer on memory and disk.\<close>

lemma blk_transfer_xfer:
  assumes "br_type r = VIRTIO_BLK_T_IN \<or> br_type r = VIRTIO_BLK_T_OUT" "br_sector r * 512 < disk_size s" "\<forall>t. \<not> io_error env t"
    and "mapped (hmem (ram s)) (unat (br_data r)) (br_len r)"
    and "br_type r = VIRTIO_BLK_T_OUT \<Longrightarrow> load_bytes (hmem (ram s)) (unat (br_data r)) (br_len r) = Some (pay r)"
  defines "bs \<equiv> fst (blk_xfer pay r (disk s))"
  shows "blk_transfer env (br_type r) (br_sector r) (br_data r) (br_len r) s =
      (int (length bs), s\<lparr>ram := hput (ram s) (br_data r) (if br_type r = VIRTIO_BLK_T_IN then bs else []),
         disk := snd (blk_xfer pay r (disk s))\<rparr>)" "length bs \<le> br_len r"
proof -
  have ne: "VIRTIO_BLK_T_IN \<noteq> VIRTIO_BLK_T_OUT" by (simp add: const_simps)
  have in_len: "length bs \<le> br_len r" if "br_type r = VIRTIO_BLK_T_IN"
    using that by (simp add: bs_def blk_xfer_def)
  have out_len: "length bs = br_len r" if "br_type r = VIRTIO_BLK_T_OUT"
    using that length_load_bytes [OF assms(5)] ne by (simp add: bs_def blk_xfer_def)
  show "length bs \<le> br_len r" using assms(1) in_len out_len by auto
  show "blk_transfer env (br_type r) (br_sector r) (br_data r) (br_len r) s =
      (int (length bs), s\<lparr>ram := hput (ram s) (br_data r) (if br_type r = VIRTIO_BLK_T_IN then bs else []),
         disk := snd (blk_xfer pay r (disk s))\<rparr>)"
  proof (cases "br_type r = VIRTIO_BLK_T_IN")
    case True
    then have "mapped (hmem (ram s)) (unat (br_data r)) (length bs)" using assms(4) in_len mapped_le by blast
    with True assms(2,3) show ?thesis
      by (simp add: blk_transfer_def virtio_blk_read_def diskimg_read_def bs_def blk_xfer_def br_offset_def hput_def Let_def)
  next
    case False
    then have t: "br_type r = VIRTIO_BLK_T_OUT" using assms(1) by simp
    with False assms(2,3) assms(5) [OF t] out_len show ?thesis
      by (simp add: blk_transfer_def virtio_blk_write_def diskimg_write_def bs_def blk_xfer_def br_offset_def)
  qed
qed

definition served_one ::
    "blk_env \<Rightarrow> nat \<Rightarrow> bytes \<Rightarrow> blk_state \<Rightarrow> virtq \<Rightarrow> nat \<Rightarrow> (blk_req \<Rightarrow> bytes) \<Rightarrow> blk_req \<Rightarrow> bytes \<Rightarrow> blk_state \<Rightarrow> bool" where
  "served_one env i req s q p pay r req' s1 \<longleftrightarrow>
     length req' = BLK_REQ_SIZE \<and> blk_loop env i req s = blk_loop env i req' s1 \<and>
     blk_at s1 i (virtq_advance (virtq_advance (virtq_advance q))) (p + 3) \<and>
     disk s1 = snd (blk_xfer pay r (disk s)) \<and> blk_rest s1 = blk_rest s \<and>
     req_done (ram s1) q p (fst (blk_xfer pay r (disk s))) r \<and>
     (\<forall>a n. mapped (hmem (ram s1)) a n = mapped (hmem (ram s)) a n) \<and>
     (\<forall>a. get_userspace_addr (ram s1) a = get_userspace_addr (ram s) a) \<and>
     (\<forall>a k. mapped (hmem (ram s)) a k \<longrightarrow> apart (ring_extent q) (a, k) \<longrightarrow> (\<forall>b \<in> req_bufs r. apart b (a, k)) \<longrightarrow>
        load_bytes (hmem (ram s1)) a k = load_bytes (hmem (ram s)) a k) \<and>
     (\<forall>j. j mod unat (info_size q) \<noteq> p mod unat (info_size q) \<longrightarrow>
        desc_flags (ram s1) (desc_at q j) = desc_flags (ram s) (desc_at q j) \<and>
        desc_addr (ram s1) (desc_at q j) = desc_addr (ram s) (desc_at q j) \<and>
        desc_len (ram s1) (desc_at q j) = desc_len (ram s) (desc_at q j))"

lemma serve_one:
  assumes at: "blk_at s i q p" and ch: "req_chain (ram s) q p r" and req: "length req = BLK_REQ_SIZE"
    and type: "br_type r = VIRTIO_BLK_T_IN \<or> br_type r = VIRTIO_BLK_T_OUT" and io: "\<forall>t. \<not> io_error env t"
    and sec: "br_sector r * 512 < disk_size s"
    and pay0: "br_type r = VIRTIO_BLK_T_OUT \<longrightarrow> load_bytes (hmem (ram s)) (unat (br_data r)) (br_len r) = Some (pay r)"
  shows "\<exists>req' s1. served_one env i req s q p pay r req' s1"
proof -
  note pay = pay0 [rule_format]
  obtain f0 where f0: "blk_chain s q p f0 (br_type r) (br_sector r) (br_data r) (br_len r) (br_status r)"
    "avail_flags (unat (info_size q)) p f0"
    using req_chain_blk_chain [OF ch] by blast
  let ?q2 = "virtq_advance (virtq_advance q)"
  define bs where "bs = fst (blk_xfer pay r (disk s))"
  define ws where "ws = (if br_type r = VIRTIO_BLK_T_IN then bs else [])"
  define fl where "fl = f0 XOR 2 ^ VRING_PACKED_DESC_F_USED"
  note cf = blk_chain_facts [OF f0(1)]
  have tr: "blk_transfer env (br_type r) (br_sector r) (br_data r) (br_len r) (set_vq i ?q2 s) =
      (int (length bs), (set_vq i ?q2 s)\<lparr>ram := hput (ram s) (br_data r) ws, disk := snd (blk_xfer pay r (disk s))\<rparr>)"
    "length bs \<le> br_len r"
    using blk_transfer_xfer [OF type, where s = "set_vq i ?q2 s" and pay = pay] sec io cf(1) [of "br_len r"] pay
    by (simp_all add: bs_def ws_def)
  have wl: "length ws \<le> br_len r" using tr(2) by (simp add: ws_def)
  have st: "blk_status (int (length bs)) = VIRTIO_BLK_S_OK" by (simp add: blk_status_def)
  define m where "m = mark_used (desc_at q p) fl (of_nat (length bs)) (hput (hput (ram s) (br_data r) ws) (br_status r) [VIRTIO_BLK_S_OK])"
  define s1 where "s1 = (set_vq i (virtq_advance ?q2) s)\<lparr>disk := snd (blk_xfer pay r (disk s)), ram := m\<rparr>"
  obtain req' where req': "length req' = BLK_REQ_SIZE"
      "blk_get_avail i s = Some (Some (desc_at q p), set_vq i (virtq_advance q) s)"
      "blk_request env i (desc_at q p) req (set_vq i (virtq_advance q) s) = Some (Inr (req', s1))"
    using blk_chain_request [OF at f0(1) req type tr(1) wl] st unfolding s1_def m_def fl_def by auto
  have loop: "blk_loop env i req s = blk_loop env i req' s1"
    by (subst blk_loop.simps) (simp add: req')
  have ring: "ring_mapped (ram s) q" "0 < info_size q" using at blk_at_size by (auto simp: blk_at_def)
  note mem = blk_memory_after [OF ring cf [OF wl], where p = p and flags = fl and len = "of_nat (length bs)" and b = VIRTIO_BLK_S_OK, folded m_def]
  have v: "vq_at q p" using at by (simp add: blk_at_def)
  have "vq_at (virtq_advance ?q2) (p + 3)"
    using vq_at_advance(1) [OF vq_at_advance(1) [OF vq_at_advance(1) [OF v]]] by (simp add: numeral_3_eq_3)
  then have "blk_at (set_vq i (virtq_advance ?q2) s) i (virtq_advance ?q2) (p + 3)"
    using at ring(1) by (intro blk_at_set_vq [of s i q]) (auto simp: blk_at_def)
  then have at1: "blk_at s1 i (virtq_advance ?q2) (p + 3)"
    by (rule blk_at_frame) (auto simp: s1_def mem(5))
  have r1: "ring_mapped (hput (ram s) (br_data r) ws) q"
    using ring_frame(4) [OF ring cf(1,2) [OF wl]] .
  have s1m: "mapped (hmem (hput (ram s) (br_data r) ws)) (unat (br_status r)) (length [VIRTIO_BLK_S_OK])"
    "apart (ring_extent q) (unat (br_status r), length [VIRTIO_BLK_S_OK])"
    using cf [OF wl] by simp_all
  have r2: "ring_mapped (hput (hput (ram s) (br_data r) ws) (br_status r) [VIRTIO_BLK_S_OK]) q"
    using ring_frame(4) [OF r1 ring(2) s1m] .
  note fr1 = ring_frame(1-3) [OF ring cf(1,2) [OF wl]]
  note fr2 = ring_frame(1-3) [OF r1 ring(2) s1m]
  note mo = mark_used_other [OF r2 ring(2), where p = p and flags = fl and len = "of_nat (length bs)", folded m_def]
  have mp: "mapped (hmem m) a n = mapped (hmem (ram s)) a n" for a n
  proof -
    let ?d = "desc_at q p"
    have "mapped (hmem (hput (hput (ram s) (br_data r) ws) (br_status r) [VIRTIO_BLK_S_OK])) (unat (?d + 14)) (length (le_bytes 2 fl))"
      using desc_extent(1) [OF r2 ring(2), of 14 2 p] desc_extent(2) [OF r2 ring(2), of 14 2 p] by simp
    moreover have "mapped (hmem (hput (hput (ram s) (br_data r) ws) (br_status r) [VIRTIO_BLK_S_OK])) (unat (?d + 8)) 4"
      using desc_extent(1) [OF r2 ring(2), of 8 4 p] desc_extent(2) [OF r2 ring(2), of 8 4 p] by simp
    ultimately show ?thesis using cf [OF wl] s1m(1) by (simp add: m_def mark_used_def)
  qed
  have fr: "load_bytes (hmem m) a k = load_bytes (hmem (ram s)) a k"
    if "mapped (hmem (ram s)) a k" "apart (ring_extent q) (a, k)" "\<forall>b \<in> req_bufs r. apart b (a, k)" for a k
  proof -
    have "apart (unat (br_data r), br_len r) (a, k)" "apart (unat (br_status r), 1) (a, k)"
      using that(3) by (auto simp: req_bufs_def)
    then have "apart (a, k) (unat (br_data r), length ws)" using apart_le wl by (metis apart_sym)
    then show ?thesis using mem(6) [OF that(1,2)] \<open>apart (unat (br_status r), 1) (a, k)\<close> by (simp add: apart_sym)
  qed
  have dn: "req_done (ram s1) q p (fst (blk_xfer pay r (disk s))) r"
  proof -
      have "load_bytes (hmem m) (unat (br_data r)) (length bs) = Some bs"
      proof (cases "br_type r = VIRTIO_BLK_T_IN")
        case True
        then show ?thesis using mem(1) by (simp add: ws_def)
      next
        case False
        then have t: "br_type r = VIRTIO_BLK_T_OUT" "bs = pay r" using type by (auto simp: bs_def blk_xfer_def)
        then have "length bs = br_len r" using length_load_bytes [OF pay] by simp
        then show ?thesis
          using mem(6) [OF cf(1,2) [OF order_refl]] cf(5) [OF order_refl] pay t False
          by (auto simp: ws_def apart_def)
      qed
      moreover have "used_flags (unat (info_size q)) p fl"
        using virtq_descriptor_life [OF _ f0(2)] ring(2) by (simp add: fl_def word_less_nat_alt)
      ultimately show ?thesis using mem(2-4) by (simp add: req_done_def s1_def bs_def)
  qed
  have other: "desc_flags m (desc_at q j) = desc_flags (ram s) (desc_at q j) \<and>
      desc_addr m (desc_at q j) = desc_addr (ram s) (desc_at q j) \<and> desc_len m (desc_at q j) = desc_len (ram s) (desc_at q j)"
    if "j mod unat (info_size q) \<noteq> p mod unat (info_size q)" for j
    using mo [OF that] fr1 [of j] fr2 [of j] by simp
  have "blk_rest s1 = blk_rest s" "disk s1 = snd (blk_xfer pay r (disk s))" "get_userspace_addr m a = get_userspace_addr (ram s) a" for a
    by (simp_all add: s1_def blk_rest_def set_vq_def m_def)
  moreover have "ram s1 = m" by (simp add: s1_def)
  ultimately have "served_one env i req s q p pay r req' s1"
    using req'(1) loop at1 mp fr other dn unfolding served_one_def by simp
  then show ?thesis by blast
qed

section \<open>A queue of requests\<close>

text \<open>The requests \<open>rs\<close> lie in the ring from position \<open>p\<close> on, well formed, inside the image, and with
  buffers of their own.\<close>

definition queued :: "blk_state \<Rightarrow> virtq \<Rightarrow> nat \<Rightarrow> (blk_req \<Rightarrow> bytes) \<Rightarrow> blk_req list \<Rightarrow> bool" where
  "queued s q p pay rs \<longleftrightarrow> 3 * length rs \<le> unat (info_size q) \<and>
     (\<forall>k < length rs. req_chain (ram s) q (p + 3 * k) (rs ! k)) \<and>
     sorted_wrt req_apart rs \<and>
     (\<forall>r \<in> set rs. (br_type r = VIRTIO_BLK_T_IN \<or> br_type r = VIRTIO_BLK_T_OUT) \<and> br_sector r * 512 < disk_size s \<and>
        (br_type r = VIRTIO_BLK_T_OUT \<longrightarrow> load_bytes (hmem (ram s)) (unat (br_data r)) (br_len r) = Some (pay r)))"

lemma req_chain_bufs:
  assumes "req_chain st q p r"
  shows "mapped (hmem st) (unat (br_data r)) (br_len r)" "mapped (hmem st) (unat (br_status r)) 1"
    "mapped (hmem st) (unat (br_hdr r)) 16" "apart (ring_extent q) (unat (br_data r), br_len r)"
    "apart (ring_extent q) (unat (br_status r), 1)" "apart (ring_extent q) (unat (br_hdr r), 16)"
proof -
  show "mapped (hmem st) (unat (br_hdr r)) 16"
    using assms unfolding req_chain_def Let_def by (auto simp: load_bytes_eq split: if_splits)
qed (use assms in \<open>auto simp: req_chain_def Let_def\<close>)

lemma queued_advance [simp]: "queued s (virtq_advance q) = queued s q"
  by (simp add: queued_def advance_ring fun_eq_iff)

text \<open>After the first request the others are still queued.\<close>

lemma queued_step:
  assumes q: "queued s q p pay (r # rs)" and ring: "disk_size s1 = disk_size s"
    and mp: "\<And>a n. mapped (hmem (ram s1)) a n = mapped (hmem (ram s)) a n"
    and gu: "\<And>a. get_userspace_addr (ram s1) a = get_userspace_addr (ram s) a"
    and fr: "\<And>a k. mapped (hmem (ram s)) a k \<Longrightarrow> apart (ring_extent q) (a, k) \<Longrightarrow> \<forall>b \<in> req_bufs r. apart b (a, k) \<Longrightarrow>
       load_bytes (hmem (ram s1)) a k = load_bytes (hmem (ram s)) a k"
    and ds: "\<And>j. j mod unat (info_size q) \<noteq> p mod unat (info_size q) \<Longrightarrow>
       desc_flags (ram s1) (desc_at q j) = desc_flags (ram s) (desc_at q j) \<and>
       desc_addr (ram s1) (desc_at q j) = desc_addr (ram s) (desc_at q j) \<and>
       desc_len (ram s1) (desc_at q j) = desc_len (ram s) (desc_at q j)"
  shows "queued s1 q (p + 3) pay rs"
proof -
  have chain: "req_chain (ram s) q (p + 3 + 3 * k) (rs ! k)" if "k < length rs" for k
    using q that unfolding queued_def by (auto dest!: spec [of _ "Suc k"] simp: ac_simps)
  have ap: "\<forall>b \<in> req_bufs r. \<forall>c \<in> insert (unat (br_hdr r'), 16) (req_bufs r'). apart b c" if "r' \<in> set rs" for r'
    using q that by (auto simp: queued_def req_apart_def)
  have "req_chain (ram s1) q (p + 3 + 3 * k) (rs ! k)" if k: "k < length rs" for k
  proof (rule req_chain_cong [OF chain [OF k] _ _ mp gu])
    note b = req_chain_bufs [OF chain [OF k]]
    show "load_bytes (hmem (ram s1)) (unat (br_hdr (rs ! k))) 16 = load_bytes (hmem (ram s)) (unat (br_hdr (rs ! k))) 16"
      using ap [OF nth_mem [OF k]] by (intro fr b) auto
    fix j :: nat assume "j < 3"
    then have "3 + 3 * k + j < unat (info_size q)" using q k by (auto simp: queued_def)
    then show "desc_flags (ram s1) (desc_at q (p + 3 + 3 * k + j)) = desc_flags (ram s) (desc_at q (p + 3 + 3 * k + j)) \<and>
        desc_addr (ram s1) (desc_at q (p + 3 + 3 * k + j)) = desc_addr (ram s) (desc_at q (p + 3 + 3 * k + j)) \<and>
        desc_len (ram s1) (desc_at q (p + 3 + 3 * k + j)) = desc_len (ram s) (desc_at q (p + 3 + 3 * k + j))"
      using mod_shift_neq [of "3 + 3 * k + j" "unat (info_size q)" p] by (intro ds) (simp add: ac_simps)
  qed
  moreover have "load_bytes (hmem (ram s1)) (unat (br_data r')) (br_len r') = Some (pay r')"
    if r': "r' \<in> set rs" "br_type r' = VIRTIO_BLK_T_OUT" for r'
  proof -
    obtain k where "k < length rs" "r' = rs ! k" using r'(1) by (auto simp: in_set_conv_nth)
    then have "req_chain (ram s) q (p + 3 + 3 * k) r'" using chain by blast
    then have "load_bytes (hmem (ram s1)) (unat (br_data r')) (br_len r') = load_bytes (hmem (ram s)) (unat (br_data r')) (br_len r')"
      using ap [OF r'(1)] by (intro fr req_chain_bufs) (auto simp: req_bufs_def)
    then show ?thesis using q r' by (auto simp: queued_def)
  qed
  ultimately show ?thesis using q ring by (auto simp: queued_def)
qed


definition same_ring :: "virtq \<Rightarrow> virtq \<Rightarrow> bool" where
  "same_ring q q' \<longleftrightarrow> desc_ring q' = desc_ring q \<and> guest_event q' = guest_event q \<and> info q' = info q"

lemma same_ring_advance [simp]: "same_ring (virtq_advance q) q' = same_ring q q'"
  by (auto simp: same_ring_def advance_ring virtq_advance_def Let_def)

lemma same_ring_simps: "same_ring q q' \<Longrightarrow> desc_at q' = desc_at q" "same_ring q q' \<Longrightarrow> info_size q' = info_size q"
  by (auto simp: same_ring_def desc_at_def info_size_def fun_eq_iff)

text \<open>What the later requests leave alone of a finished one.\<close>

lemma req_done_keep:
  assumes d: "req_done st q p bs r" "length bs \<le> br_len r" and b: "req_chain st0 q p r" "\<And>a n. mapped (hmem st) a n = mapped (hmem st0) a n"
    and fr: "\<And>a k. mapped (hmem st) a k \<Longrightarrow> apart (ring_extent q) (a, k) \<Longrightarrow> \<forall>r \<in> set rs. \<forall>b \<in> req_bufs r. apart b (a, k) \<Longrightarrow>
       load_bytes (hmem st') a k = load_bytes (hmem st) a k"
    and ap: "\<forall>r' \<in> set rs. req_apart r r'"
    and ds: "desc_flags st' (desc_at q p) = desc_flags st (desc_at q p)" "desc_len st' (desc_at q p) = desc_len st (desc_at q p)"
  shows "req_done st' q p bs r"
proof -
  note c = req_chain_bufs [OF b(1)]
  have sep: "apart x (unat (br_data r), br_len r)" "apart x (unat (br_status r), 1)"
    if "r' \<in> set rs" "x \<in> req_bufs r'" for r' x
    using ap that by (auto simp: req_apart_def req_bufs_def apart_sym [of x])
  have "load_bytes (hmem st') (unat (br_data r)) (length bs) = load_bytes (hmem st) (unat (br_data r)) (length bs)"
    using c(1,4) d(2) sep(1) b(2) by (intro fr) (auto intro: mapped_le apart_le)
  moreover have "load_bytes (hmem st') (unat (br_status r)) 1 = load_bytes (hmem st) (unat (br_status r)) 1"
    using c(2,5) sep(2) b(2) by (intro fr) auto
  ultimately show ?thesis using d(1) ds by (simp add: req_done_def)
qed

definition serves ::
    "blk_env \<Rightarrow> nat \<Rightarrow> bytes \<Rightarrow> blk_state \<Rightarrow> virtq \<Rightarrow> nat \<Rightarrow> (blk_req \<Rightarrow> bytes) \<Rightarrow> blk_req list \<Rightarrow> bytes \<Rightarrow> blk_state \<Rightarrow> virtq \<Rightarrow> bool" where
  "serves env i req s q p pay rs req' s' q' \<longleftrightarrow>
     length req' = BLK_REQ_SIZE \<and> blk_loop env i req s = blk_loop env i req' s' \<and>
     blk_at s' i q' (p + 3 * length rs) \<and> same_ring q q' \<and>
     disk s' = snd (blk_serve pay rs (disk s)) \<and> blk_rest s' = blk_rest s \<and>
     (\<forall>k < length rs. req_done (ram s') q (p + 3 * k) (fst (blk_serve pay rs (disk s)) ! k) (rs ! k)) \<and>
     (\<forall>a n. mapped (hmem (ram s')) a n = mapped (hmem (ram s)) a n) \<and>
     (\<forall>a k. mapped (hmem (ram s)) a k \<longrightarrow> apart (ring_extent q) (a, k) \<longrightarrow> (\<forall>r \<in> set rs. \<forall>b \<in> req_bufs r. apart b (a, k)) \<longrightarrow>
        load_bytes (hmem (ram s')) a k = load_bytes (hmem (ram s)) a k) \<and>
     (\<forall>j. (\<forall>k < length rs. j mod unat (info_size q) \<noteq> (p + 3 * k) mod unat (info_size q)) \<longrightarrow>
        desc_flags (ram s') (desc_at q j) = desc_flags (ram s) (desc_at q j) \<and>
        desc_len (ram s') (desc_at q j) = desc_len (ram s) (desc_at q j))"

lemma serve_list:
  assumes "\<forall>t. \<not> io_error env t"
  shows "blk_at s i q p \<Longrightarrow> queued s q p pay rs \<Longrightarrow> length req = BLK_REQ_SIZE \<Longrightarrow>
    \<exists>req' s' q'. serves env i req s q p pay rs req' s' q'"
proof (induction rs arbitrary: s q p req)
  case Nil
  then show ?case
    by (intro exI [of _ req] exI [of _ s] exI [of _ q]) (simp add: serves_def same_ring_def)
next
  case (Cons r rs)
  let ?q3 = "virtq_advance (virtq_advance (virtq_advance q))" and ?n = "unat (info_size q)"
  have c0: "req_chain (ram s) q p r" and r: "br_type r = VIRTIO_BLK_T_IN \<or> br_type r = VIRTIO_BLK_T_OUT" "br_sector r * 512 < disk_size s"
    "br_type r = VIRTIO_BLK_T_OUT \<longrightarrow> load_bytes (hmem (ram s)) (unat (br_data r)) (br_len r) = Some (pay r)"
    and ap: "\<forall>r' \<in> set rs. req_apart r r'" and len: "3 * Suc (length rs) \<le> ?n"
    using Cons.prems(2) by (auto simp: queued_def)
  obtain req1 s1 where one: "served_one env i req s q p pay r req1 s1"
    using serve_one [where pay = pay, OF Cons.prems(1) c0 Cons.prems(3) r(1) assms r(2,3)] by (elim exE) (rule that)
  have s1: "length req1 = BLK_REQ_SIZE" "blk_loop env i req s = blk_loop env i req1 s1" "blk_at s1 i ?q3 (p + 3)"
    "disk s1 = snd (blk_xfer pay r (disk s))" "blk_rest s1 = blk_rest s"
    and dn: "req_done (ram s1) q p (fst (blk_xfer pay r (disk s))) r"
    using one by (simp_all add: served_one_def)
  have mp: "mapped (hmem (ram s1)) a n = mapped (hmem (ram s)) a n"
    and gu: "get_userspace_addr (ram s1) x = get_userspace_addr (ram s) x"
    and fr: "mapped (hmem (ram s)) a n \<Longrightarrow> apart (ring_extent q) (a, n) \<Longrightarrow> \<forall>b \<in> req_bufs r. apart b (a, n) \<Longrightarrow>
       load_bytes (hmem (ram s1)) a n = load_bytes (hmem (ram s)) a n"
    and ds: "j mod ?n \<noteq> p mod ?n \<Longrightarrow>
       desc_flags (ram s1) (desc_at q j) = desc_flags (ram s) (desc_at q j) \<and>
       desc_addr (ram s1) (desc_at q j) = desc_addr (ram s) (desc_at q j) \<and>
       desc_len (ram s1) (desc_at q j) = desc_len (ram s) (desc_at q j)" for a n x j
    using one by (simp_all add: served_one_def)
  have dsz: "disk_size s1 = disk_size s" using s1(5) by (simp add: blk_rest_def)
  have "queued s1 q (p + 3) pay rs"
    by (rule queued_step [OF Cons.prems(2) dsz]; (rule mp gu | rule fr ds; assumption))
  then have "queued s1 ?q3 (p + 3) pay rs" by simp
  from Cons.IH [OF s1(3) this s1(1)] obtain req' s' q' where
    ih: "serves env i req1 s1 ?q3 (p + 3) pay rs req' s' q'" by blast
  let ?dk = "snd (blk_xfer pay r (disk s))"
  have k3: "p mod ?n \<noteq> (p + 3 + 3 * k) mod ?n" if "k < length rs" for k
    using mod_shift_neq [of "3 + 3 * k" ?n p] that len by (auto simp: add.assoc)
  have ih_fr: "load_bytes (hmem (ram s')) a k = load_bytes (hmem (ram s1)) a k"
    if "mapped (hmem (ram s1)) a k" "apart (ring_extent q) (a, k)" "\<forall>r \<in> set rs. \<forall>b \<in> req_bufs r. apart b (a, k)" for a k
    using ih that by (simp add: serves_def)
  have ih_ds: "desc_flags (ram s') (desc_at q j) = desc_flags (ram s1) (desc_at q j) \<and> desc_len (ram s') (desc_at q j) = desc_len (ram s1) (desc_at q j)"
    if "\<forall>k < length rs. j mod ?n \<noteq> (p + 3 + 3 * k) mod ?n" for j
    using ih that by (simp add: serves_def advance_ring)
  have bl: "length (fst (blk_xfer pay r (disk s))) \<le> br_len r"
    using r(1) length_load_bytes [OF r(3) [rule_format]] by (auto simp: blk_xfer_def)
  have d0: "req_done (ram s') q p (fst (blk_xfer pay r (disk s))) r"
    using ih_ds [of p] k3 ap by (intro req_done_keep [OF dn bl c0 mp ih_fr]) auto
  have "req_done (ram s') q (p + 3 * k) (fst (blk_serve pay (r # rs) (disk s)) ! k) ((r # rs) ! k)" if "k < Suc (length rs)" for k
  proof (cases k)
    case (Suc k')
    with that have "req_done (ram s') q (p + 3 + 3 * k') (fst (blk_serve pay rs ?dk) ! k') (rs ! k')"
      using ih s1(4) by (simp add: serves_def)
    then show ?thesis using Suc unfolding blk_serve_Cons by (simp add: add.assoc)
  qed (use d0 in \<open>simp add: blk_serve_Cons del: blk_serve.simps\<close>)
  moreover have "load_bytes (hmem (ram s')) a k = load_bytes (hmem (ram s)) a k"
    if "mapped (hmem (ram s)) a k" "apart (ring_extent q) (a, k)" "\<forall>r \<in> set (r # rs). \<forall>b \<in> req_bufs r. apart b (a, k)" for a k
    using ih_fr [of a k] fr [of a k] that mp by simp
  moreover have "desc_flags (ram s') (desc_at q j) = desc_flags (ram s) (desc_at q j) \<and> desc_len (ram s') (desc_at q j) = desc_len (ram s) (desc_at q j)"
    if j: "\<forall>k < Suc (length rs). j mod ?n \<noteq> (p + 3 * k) mod ?n" for j
  proof -
    have "j mod ?n \<noteq> p mod ?n" using j [rule_format, of 0] by simp
    moreover have "j mod ?n \<noteq> (p + 3 + 3 * k) mod ?n" if "k < length rs" for k
      using j [rule_format, of "Suc k"] that by (simp add: add.assoc)
    ultimately show ?thesis using ih_ds [of j] ds [of j] by simp
  qed
  moreover have "blk_at s' i q' (p + 3 * length (r # rs))" "same_ring q q'" "disk s' = snd (blk_serve pay (r # rs) (disk s))"
    "blk_rest s' = blk_rest s" "length req' = BLK_REQ_SIZE" "blk_loop env i req s = blk_loop env i req' s'"
    "\<forall>a n. mapped (hmem (ram s')) a n = mapped (hmem (ram s)) a n"
    using ih s1 mp unfolding serves_def blk_serve_Cons by (simp_all add: add.assoc)
  ultimately have "serves env i req s q p pay (r # rs) req' s' q'"
    unfolding serves_def by (simp del: blk_serve.simps)
  then show ?case by blast
qed


text \<open>The loop ends at a descriptor that is not available.\<close>

lemma blk_loop_end:
  assumes "blk_at s i q p" "desc_flags (ram s) (desc_at q p) = Some f" "\<not> avail_flags (unat (info_size q)) p f"
  shows "blk_loop env i req s = Some (True, s)"
proof -
  have q: "get_vq (vdev s) i = Some q" "vq_at q p" using assms(1) by (simp_all add: blk_at_def)
  then have "(vq (vdev s))[i := q] = vq (vdev s)" by (auto simp: get_vq_def split: if_splits)
  then have "blk_get_avail i s = Some (None, s)"
    using q get_avail_step [OF q(2) assms(2)] assms(3) by (simp add: blk_get_avail_def)
  then show ?thesis by (subst blk_loop.simps) simp
qed

lemma used_not_avail: "used_flags n p f \<Longrightarrow> \<not> avail_flags n p' f"
  by (auto simp: used_flags_def avail_flags_def)

text \<open>The ring has nothing after the requests, or they fill it.\<close>

definition queue_ends :: "memory \<Rightarrow> virtq \<Rightarrow> nat \<Rightarrow> nat \<Rightarrow> bool" where
  "queue_ends st q p n \<longleftrightarrow> 3 * n = unat (info_size q) \<or>
     (\<exists>f. desc_flags st (desc_at q (p + 3 * n)) = Some f \<and> \<not> avail_flags (unat (info_size q)) (p + 3 * n) f)"

lemma served_loop_ends:
  assumes at: "blk_at s i q p" and sv: "serves env i req s q p pay rs req' s' q'"
    and len: "3 * length rs \<le> unat (info_size q)" and ends: "queue_ends (ram s) q p (length rs)"
  shows "blk_loop env i req s = Some (True, s')"
proof -
  let ?n = "unat (info_size q)" and ?e = "p + 3 * length rs"
  have at': "blk_at s' i q' ?e" and ring: "same_ring q q'" and loop: "blk_loop env i req s = blk_loop env i req' s'"
    using sv by (simp_all add: serves_def)
  have n: "0 < ?n" using blk_at_size [OF at] by (simp add: word_less_nat_alt)
  have "\<exists>f. desc_flags (ram s') (desc_at q ?e) = Some f \<and> \<not> avail_flags ?n ?e f"
  proof (cases "3 * length rs = ?n")
    case True
    then have "0 < length rs" using n by auto
    then have "req_done (ram s') q p (fst (blk_serve pay rs (disk s)) ! 0) (rs ! 0)" using sv by (auto simp: serves_def)
    then obtain f where "desc_flags (ram s') (desc_at q p) = Some f" "used_flags ?n p f" by (auto simp: req_done_def)
    moreover have "desc_at q ?e = desc_at q p" by (simp add: desc_at_def True)
    ultimately show ?thesis using used_not_avail by auto
  next
    case False
    then obtain f where f: "desc_flags (ram s) (desc_at q ?e) = Some f" "\<not> avail_flags ?n ?e f"
      using ends by (auto simp: queue_ends_def)
    have "?e mod ?n \<noteq> (p + 3 * k) mod ?n" if "k < length rs" for k
    proof -
      have "?e = (p + 3 * k) + 3 * (length rs - k)" "0 < 3 * (length rs - k)" "3 * (length rs - k) < ?n"
        using that len False by auto
      then show ?thesis using mod_shift_neq [of "3 * (length rs - k)" ?n "p + 3 * k"] by metis
    qed
    then have "desc_flags (ram s') (desc_at q ?e) = desc_flags (ram s) (desc_at q ?e)" using sv by (simp add: serves_def)
    then show ?thesis using f by auto
  qed
  then show ?thesis
    using blk_loop_end [OF at'] loop same_ring_simps [OF ring] by (metis)
qed

definition event_apart :: "virtq \<Rightarrow> blk_req list \<Rightarrow> bool" where
  "event_apart q rs \<longleftrightarrow> apart (ring_extent q) (unat (guest_event q + 2), 2) \<and>
     (\<forall>r \<in> set rs. \<forall>b \<in> req_bufs r. apart b (unat (guest_event q + 2), 2))"

definition isr_status :: "blk_state \<Rightarrow> u32" where
  "isr_status s = field (config (vdev s)) ISR_CFG 4"

text \<open>The interrupt after the loop.\<close>

lemma blk_interrupt_after:
  assumes "get_vq (vdev s) i = Some q" "host_load (ram s) (guest_event q + 2) 2 = Some (ev :: u16)"
    and "length (config (vdev s)) = VIRTIO_PCI_CONFIG_SIZE"
  shows "\<exists>s'. blk_interrupt i s = Some s' \<and> disk s' = disk s \<and> ram s' = ram s \<and> vq (vdev s') = vq (vdev s) \<and> pci s' = pci s \<and>
    irqs s' = irqs s + (if ev = VRING_PACKED_EVENT_FLAG_ENABLE then 1 else 0) \<and>
    (ev = VRING_PACKED_EVENT_FLAG_ENABLE \<longrightarrow> bit (isr_status s') 0)"
proof (cases "ev = VRING_PACKED_EVENT_FLAG_ENABLE")
  case True
  let ?bs = "le_bytes 4 (isr_status s OR 1)"
  obtain c where c: "obj_write (config (vdev s)) ISR_CFG ?bs = Some c" "take 4 (drop ISR_CFG c) = ?bs"
    using assms(3) by (simp add: obj_write_def const_simps)
  then have "field c ISR_CFG 4 = isr_status s OR 1" by (simp add: field_def)
  then show ?thesis
    using True assms(1,2) c(1)
    by (simp add: blk_interrupt_def config_put_def isr_status_def bit_or_iff bit_1_iff)
qed (use assms in \<open>simp add: blk_interrupt_def\<close>)


section \<open>Properties\<close>

text \<open>Everything a notification does, in one description: \<open>bss\<close> and \<open>dk\<close> are the bytes transferred and
  the disk at the end.\<close>

definition drained :: "blk_state \<Rightarrow> nat \<Rightarrow> virtq \<Rightarrow> nat \<Rightarrow> blk_req list \<Rightarrow> bytes list \<Rightarrow> bytes \<Rightarrow> blk_state \<Rightarrow> bool" where
  "drained s i q p rs bss dk s' \<longleftrightarrow> disk s' = dk \<and>
     (\<forall>k < length rs. req_done (ram s') q (p + 3 * k) (bss ! k) (rs ! k)) \<and>
     (\<exists>q'. blk_at s' i q' (p + 3 * length rs) \<and> same_ring q q') \<and>
     (\<forall>a k. mapped (hmem (ram s)) a k \<longrightarrow> apart (ring_extent q) (a, k) \<longrightarrow> (\<forall>r \<in> set rs. \<forall>b \<in> req_bufs r. apart b (a, k)) \<longrightarrow>
        load_bytes (hmem (ram s')) a k = load_bytes (hmem (ram s)) a k)"

lemma handle_output_drains:
  assumes at: "blk_at s i q p" and qd: "queued s q p pay rs" and ends: "queue_ends (ram s) q p (length rs)"
    and ev: "host_load (ram s) (guest_event q + 2) 2 = Some (ev :: u16)" "event_apart q rs"
    and wf: "length (config (vdev s)) = VIRTIO_PCI_CONFIG_SIZE" "length (req_stack env) = BLK_REQ_SIZE" "\<forall>t. \<not> io_error env t"
  shows "\<exists>s'. virtio_blk_handle_output env i s = Some s' \<and>
    drained s i q p rs (fst (blk_serve pay rs (disk s))) (snd (blk_serve pay rs (disk s))) s' \<and> pci s' = pci s \<and>
    irqs s' = irqs s + (if ev = VRING_PACKED_EVENT_FLAG_ENABLE then 1 else 0) \<and>
    (ev = VRING_PACKED_EVENT_FLAG_ENABLE \<longrightarrow> bit (isr_status s') 0)"
proof -
  have len: "3 * length rs \<le> unat (info_size q)" using qd by (simp add: queued_def)
  obtain req' s1 q' where sv: "serves env i (req_stack env) s q p pay rs req' s1 q'"
    using serve_list [OF wf(3) at qd wf(2)] by blast
  note loop = served_loop_ends [OF at sv len ends]
  have at1: "blk_at s1 i q' (p + 3 * length rs)" "same_ring q q'" "blk_rest s1 = blk_rest s" using sv by (simp_all add: serves_def)
  have rest: "config (vdev s1) = config (vdev s)" "irqs s1 = irqs s" "pci s1 = pci s"
    using at1(3) by (auto simp: blk_rest_def dest: arg_cong [of _ _ config])
  have "mapped (hmem (ram s)) (unat (guest_event q + 2)) 2"
    using ev(1) by (auto simp: host_load_def load_bytes_eq split: if_splits)
  then have "load_bytes (hmem (ram s1)) (unat (guest_event q + 2)) 2 = load_bytes (hmem (ram s)) (unat (guest_event q + 2)) 2"
    using sv ev(2) by (simp add: serves_def event_apart_def)
  then have ev1: "host_load (ram s1) (guest_event q' + 2) 2 = Some ev"
    using ev(1) at1(2) by (simp add: host_load_def same_ring_def)
  have gq: "get_vq (vdev s1) i = Some q'" using at1(1) by (simp add: blk_at_def)
  obtain s' where s': "blk_interrupt i s1 = Some s'" "disk s' = disk s1" "ram s' = ram s1" "vq (vdev s') = vq (vdev s1)" "pci s' = pci s1"
    "irqs s' = irqs s1 + (if ev = VRING_PACKED_EVENT_FLAG_ENABLE then 1 else 0)"
    "ev = VRING_PACKED_EVENT_FLAG_ENABLE \<longrightarrow> bit (isr_status s') 0"
    using blk_interrupt_after [OF gq ev1] wf(1) rest(1) by auto
  have "virtio_blk_handle_output env i s = Some s'" using loop s'(1) by (simp add: virtio_blk_handle_output_def)
  moreover have "blk_at s' i q' (p + 3 * length rs)" using at1(1) s'(3,4) by (auto simp: blk_at_def get_vq_def split: if_splits)
  then have "drained s i q p rs (fst (blk_serve pay rs (disk s))) (snd (blk_serve pay rs (disk s))) s'"
    using sv s'(2,3) at1(2) unfolding drained_def serves_def by auto
  ultimately show ?thesis using s'(5-7) rest by auto
qed

text \<open>Property C32. Refinement of a notification to the abstract disk: for any number of well-formed requests
  that lie one after the other in the ring, \<open>virtio_blk_handle_output\<close> returns, the image is the one
  the requests make in their order, each buffer holds the bytes of its transfer, each status is OK, each
  request's first descriptor is marked used with the length, nothing outside the ring and the
  buffers changes, and an interrupt is raised exactly when the driver asked for it.\<close>

theorem virtio_blk_drains_queue:
  assumes "blk_at s i q p" "queued s q p pay rs" "queue_ends (ram s) q p (length rs)"
    and "host_load (ram s) (guest_event q + 2) 2 = Some (ev :: u16)" "event_apart q rs"
    and "length (config (vdev s)) = VIRTIO_PCI_CONFIG_SIZE" "length (req_stack env) = BLK_REQ_SIZE" "\<forall>t. \<not> io_error env t"
  shows "\<exists>s'. virtio_blk_handle_output env i s = Some s' \<and>
    drained s i q p rs (fst (blk_serve pay rs (disk s))) (snd (blk_serve pay rs (disk s))) s' \<and>
    irqs s' = irqs s + (if ev = VRING_PACKED_EVENT_FLAG_ENABLE then 1 else 0) \<and>
    (ev = VRING_PACKED_EVENT_FLAG_ENABLE \<longrightarrow> bit (isr_status s') 0)"
  using handle_output_drains [OF assms] by blast

definition sample_req :: "u32 \<Rightarrow> u64 \<Rightarrow> blk_req" where
  "sample_req type sector = \<lparr>br_type = type, br_sector = sector, br_hdr = 0x100000040000, br_data = 0x100000050000,
     br_len = 4, br_status = 0x100000060000\<rparr>"

lemma sample_blk_vq_ring: "ring_extent sample_blk_vq = (0x100000010000, 64)" "info_size sample_blk_vq = 4"
    "guest_event sample_blk_vq = 0x100000030000"
  using sample_virtq_at(2)
  by (simp_all add: ring_extent_def sample_blk_vq_def info_size_def) (simp_all add: sample_virtq_def)

lemma sample_req_chain: "req_chain (ram (sample_blk type sector)) sample_blk_vq 0 (sample_req type sector)"
proof -
  have l: "load_bytes (hmem (sample_blk_ram type sector)) 0x100000040000 16 = Some (le_bytes 4 type @ [0, 0, 0, 0] @ le_bytes 8 sector)"
    using sample_ram_loads(2) by (simp add: sample_hdr_def)
  have r: "ram (sample_blk type sector) = sample_blk_ram type sector" by (simp add: sample_blk_def)
  show ?thesis
    unfolding req_chain_def Let_def sample_blk_vq_ring r sample_req_def blk_req.simps
    by (rule exI [of _ "0x0081"], rule exI [of _ "0x0083"], rule exI [of _ "0x0082"], rule exI [of _ "0x40000"],
        rule exI [of _ "0x50000"], rule exI [of _ "0x60000"], rule exI [of _ "[0, 0, 0, 0]"], rule exI [of _ 4],
        intro conjI sample_desc_fields)
      (simp_all add: sample_userspace l sample_ram_mapped apart_def avail_flags_def wrap_of_def del: load_bytes.simps)
qed

lemma sample_queued:
  "queued (sample_blk VIRTIO_BLK_T_IN 0) sample_blk_vq 0 pay [sample_req VIRTIO_BLK_T_IN 0]"
  using sample_req_chain [of VIRTIO_BLK_T_IN 0]
  by (simp add: queued_def sample_blk_vq_ring) (simp add: sample_req_def sample_blk_def const_simps)


lemma sample_ram_zero:
  assumes "0x100000010040 \<le> a" "a + n \<le> 0x100000040000"
  shows "load_bytes (hmem (sample_blk_ram t c)) a n = Some (replicate n 0)"
proof -
  let ?m = "hput sample_memory 0x100000010000 sample_ring_bytes"
  have r: "mapped (hmem sample_memory) (unat (0x100000010000 :: u64)) (length sample_ring_bytes)"
    by (simp add: sample_mapped sample_lengths)
  have h: "mapped (hmem ?m) (unat (0x100000040000 :: u64)) (length (sample_hdr t c))"
    using r by (simp add: sample_mapped sample_lengths)
  have m: "mapped (hmem sample_memory) a n" using assms by (intro sample_mapped) auto
  have "load_bytes (hmem (sample_blk_ram t c)) a n = load_bytes (hmem ?m) a n"
    unfolding sample_blk_ram_def using h r m assms by (intro load_hput_other) (auto simp: apart_def)
  also have "\<dots> = load_bytes (hmem sample_memory) a n"
    using r m assms by (intro load_hput_other) (auto simp: apart_def sample_lengths)
  finally show ?thesis using sample_host_zero [of a n] assms by simp
qed

lemma sample_event:
  "host_load (ram (sample_blk t c)) (guest_event sample_blk_vq + 2) 2 = Some (0 :: u16)"
  "event_apart sample_blk_vq [sample_req t c]"
proof -
  have "of_le (replicate 2 0) = (0 :: u16)" by code_simp
  then show "host_load (ram (sample_blk t c)) (guest_event sample_blk_vq + 2) 2 = Some (0 :: u16)"
    using sample_ram_zero [of "0x100000030002" 2 t c]
    by (simp add: host_load_def sample_blk_vq_ring sample_blk_def del: load_bytes.simps replicate.simps)
  show "event_apart sample_blk_vq [sample_req t c]"
    by (simp add: sample_blk_vq_ring event_apart_def req_bufs_def sample_req_def apart_def)
qed

lemma sample_queue_ends: "queue_ends (ram (sample_blk t c)) sample_blk_vq 0 1"
proof -
  have "desc_at sample_blk_vq 3 = 0x100000010030"
    by (simp add: desc_at_def sample_blk_vq_ring) (simp add: sample_blk_vq_def sample_virtq_def)
  moreover have "of_le (take 2 (drop 62 sample_ring_bytes)) = (0 :: u16)" by code_simp
  ultimately have "desc_flags (ram (sample_blk t c)) (desc_at sample_blk_vq 3) = Some 0"
    using sample_ring_sub [of 62 2 t c] by (simp add: desc_flags_def host_load_def sample_blk_def del: load_bytes.simps)
  then show ?thesis by (simp add: queue_ends_def sample_blk_vq_ring avail_flags_def wrap_of_def)
qed

lemma sample_blk_wf: "length (config (vdev (sample_blk t c))) = VIRTIO_PCI_CONFIG_SIZE"
    "length (req_stack sample_blk_env) = BLK_REQ_SIZE" "\<forall>t. \<not> io_error sample_blk_env t"
  by (simp_all add: sample_blk_def zero_virtio_dev_def sample_blk_env_def const_simps)

theorem virtio_blk_drains_queue_witness:
  "\<exists>s'. virtio_blk_handle_output sample_blk_env 0 (sample_blk VIRTIO_BLK_T_IN 0) = Some s' \<and>
     load_bytes (hmem (ram s')) 0x100000050000 4 = Some [1, 2, 3, 4] \<and> irqs s' = 1"
proof -
  let ?s = "sample_blk VIRTIO_BLK_T_IN 0" and ?r = "sample_req VIRTIO_BLK_T_IN 0"
  have e: "queue_ends (ram ?s) sample_blk_vq 0 (length [?r])" using sample_queue_ends by simp
  have bs: "fst (blk_serve (\<lambda>_. []) [?r] (disk ?s)) = [[1, 2, 3, 4]]"
    by (simp add: blk_xfer_def sample_req_def sample_blk_def br_offset_def)
  have d: "br_data ?r = 0x100000050000" "irqs ?s = 0" by (simp_all add: sample_req_def sample_blk_def)
  obtain s' where s': "virtio_blk_handle_output sample_blk_env 0 ?s = Some s'"
    "drained ?s 0 sample_blk_vq 0 [?r] [[1, 2, 3, 4]] (snd (blk_serve (\<lambda>_. []) [?r] (disk ?s))) s'" "irqs s' = 1"
    using virtio_blk_drains_queue [OF sample_blk_at sample_queued [of "\<lambda>_. []"] e sample_event sample_blk_wf] bs d(2)
    by (auto simp: const_simps)
  then have "req_done (ram s') sample_blk_vq 0 [1, 2, 3, 4] ?r" by (simp add: drained_def)
  then have "load_bytes (hmem (ram s')) (unat (br_data ?r)) (length [1, 2, 3, 4 :: u8]) = Some [1, 2, 3, 4]"
    unfolding req_done_def by blast
  moreover have "length [1, 2, 3, 4 :: u8] = 4" by simp
  ultimately have "load_bytes (hmem (ram s')) 0x100000050000 4 = Some [1, 2, 3, 4]" unfolding d(1) by (simp only: unat_numeral) simp
  then show ?thesis using s'(1,3) by blast
qed

end
