(* ===== verification/Guest.thy ===== *)
theory Guest
  imports Enumeration Blk_queue
begin

text \<open>
  The machine as the guest uses it: the PCI device it finds after \<open>main\<close> has set the machine up with
  a disk, and the requests it has served by writing the notification register, by an MMIO exit of
  the vcpu thread or by an event of the event thread.
\<close>

section \<open>Notifications\<close>

text \<open>The state of the block device is ready for the requests \<open>rs\<close>.\<close>

definition ready :: "blk_state \<Rightarrow> nat \<Rightarrow> virtq \<Rightarrow> nat \<Rightarrow> (blk_req \<Rightarrow> bytes) \<Rightarrow> blk_req list \<Rightarrow> bool" where
  "ready s i q p pay rs \<longleftrightarrow> vdev_wf (vdev s) \<and> blk_at s i q p \<and> info_enable q \<noteq> 0 \<and> queued s q p pay rs \<and>
     queue_ends (ram s) q p (length rs) \<and> event_apart q rs"

definition env_ok :: "blk_env \<Rightarrow> bool" where
  "env_ok env \<longleftrightarrow> length (req_stack env) = BLK_REQ_SIZE \<and> (\<forall>t. \<not> io_error env t)"

text \<open>What a notification leaves alone: the PCI side, the registered events, the size of the disk, the memory slots and
  the shape of the device. It is one of the relations that hold over the handler because they hold over its steps.\<close>

definition disk_keeps :: "blk_state \<Rightarrow> blk_state \<Rightarrow> bool" where
  "disk_keeps s s' \<longleftrightarrow> pci s' = pci s \<and> ioev s' = ioev s \<and> disk_size s' = disk_size s \<and> ram_keeps (ram s) (ram s') \<and>
     vp_dev (vdev s') = vp_dev (vdev s) \<and> (vdev_wf (vdev s) \<longrightarrow> vdev_wf (vdev s'))"

lemma disk_keeps_get_avail: "blk_get_avail i s = Some (d, s') \<Longrightarrow> disk_keeps s s'"
  by (auto simp: blk_get_avail_def get_vq_def virtq_get_avail_def virtq_advance_def Let_def disk_keeps_def vdev_wf_def
      split: Option.bind_splits if_splits dest!: set_update_subset_insert [THEN subsetD])

interpretation dk: blk_relation disk_keeps
proof unfold_locales
  fix s s' s'' :: blk_state and i d p bs m env data sector n
  show "disk_keeps s s" by (simp add: disk_keeps_def)
  show "disk_keeps s s' \<Longrightarrow> disk_keeps s' s'' \<Longrightarrow> disk_keeps s s''" by (auto simp: disk_keeps_def intro: ram_keeps_trans)
  show "blk_get_avail i s = Some (d, s') \<Longrightarrow> disk_keeps s s'" by (rule disk_keeps_get_avail)
  show "host_write (ram s) p bs = Some m \<Longrightarrow> disk_keeps s (s\<lparr>ram := m\<rparr>)" by (simp add: disk_keeps_def host_write_keeps)
  show "disk_keeps s (snd (virtio_blk_read env data sector n s))" "disk_keeps s (snd (virtio_blk_write env data sector n s))"
    by (auto simp: virtio_blk_read_def virtio_blk_write_def diskimg_read_def diskimg_write_def disk_keeps_def
        upd_bytes_keeps Let_def split: option.splits)
  show "blk_interrupt i s = Some s' \<Longrightarrow> disk_keeps s s'"
    by (auto simp: blk_interrupt_def disk_keeps_def config_put_def vdev_wf_def obj_write_def split: Option.bind_splits if_splits)
qed

definition all_served :: "blk_state \<Rightarrow> nat \<Rightarrow> virtq \<Rightarrow> nat \<Rightarrow> (blk_req \<Rightarrow> bytes) \<Rightarrow> blk_req list \<Rightarrow> u16 \<Rightarrow> blk_state \<Rightarrow> bool" where
  "all_served s i q p pay rs ev s' \<longleftrightarrow>
     drained s i q p rs (fst (blk_serve pay rs (disk s))) (snd (blk_serve pay rs (disk s))) s' \<and>
     blk_state.irqs s' = blk_state.irqs s + (if ev = VRING_PACKED_EVENT_FLAG_ENABLE then 1 else 0) \<and>
     (ev = VRING_PACKED_EVENT_FLAG_ENABLE \<longrightarrow> bit (isr_status s') 0) \<and> disk_keeps s s'"

lemma config_irrelevant [simp]:
  fixes s :: blk_state
  shows "blk_at (s\<lparr>vdev := (vdev s)\<lparr>config := c\<rparr>\<rparr>) i q p = blk_at s i q p"
  "queued (s\<lparr>vdev := (vdev s)\<lparr>config := c\<rparr>\<rparr>) q p pay rs = queued s q p pay rs"
  "drained (s\<lparr>vdev := (vdev s)\<lparr>config := c\<rparr>\<rparr>) i q p rs bss dk s' = drained s i q p rs bss dk s'"
  "vdev_wf ((vdev s)\<lparr>config := c\<rparr>) \<Longrightarrow> disk_keeps (s\<lparr>vdev := (vdev s)\<lparr>config := c\<rparr>\<rparr>) s' \<Longrightarrow> disk_keeps s s'"
  by (simp_all add: blk_at_def get_vq_def queued_def drained_def disk_keeps_def)

lemma callback_serves:
  assumes r: "ready s i q p pay rs" and e: "env_ok env" and ev: "host_load (ram s) (guest_event q + 2) 2 = Some (ev :: u16)"
  shows "\<exists>s'. virtio_pci_ioevent_callback (virtio_blk_handle_output env) i s = Some s' \<and> all_served s i q p pay rs ev s'"
proof -
  have h: "blk_at s i q p" "queued s q p pay rs" "queue_ends (ram s) q p (length rs)" "event_apart q rs"
    "length (config (vdev s)) = VIRTIO_PCI_CONFIG_SIZE" "length (req_stack env) = BLK_REQ_SIZE" "\<forall>t. \<not> io_error env t"
    and en: "info_enable q \<noteq> 0" "get_vq (vdev s) i = Some q"
    using r e by (simp_all add: ready_def env_ok_def vdev_wf_def blk_at_def)
  show ?thesis
    using handle_output_drains [OF h(1-3) ev h(4-7)] en dk.handle_output [of env i s]
    by (auto simp: virtio_pci_ioevent_callback_def virtq_notify_def all_served_def)
qed

lemma notify_write_serves:
  assumes r: "ready s i q p pay rs" and e: "env_ok env" and ev: "host_load (ram s) (guest_event q + 2) 2 = Some (ev :: u16)"
    and i: "i < 2 ^ 16" and data: "take 2 data = le_bytes 2 (of_nat i :: u16)"
  shows "\<exists>s'. virtio_pci_iospace_write evs (virtio_blk_handle_output env) data (of_nat NOTIFY_CFG) 2 s = Some s' \<and>
    all_served s i q p pay rs ev s'"
proof -
  let ?bs = "le_bytes 2 (of_nat i :: u16)"
  have wf: "vdev_wf (vdev s)" and le: "NOTIFY_CFG + length ?bs \<le> VIRTIO_PCI_CONFIG_SIZE"
    using r by (simp_all add: ready_def const_simps)
  from on_dev_config_put [OF wf le] obtain c where
    c: "on_dev (config_put NOTIFY_CFG ?bs) s = Some (s\<lparr>vdev := (vdev s)\<lparr>config := c\<rparr>\<rparr>)" "vdev_wf ((vdev s)\<lparr>config := c\<rparr>)"
      "take (length ?bs) (drop NOTIFY_CFG c) = ?bs" by blast
  let ?s = "s\<lparr>vdev := (vdev s)\<lparr>config := c\<rparr>\<rparr>"
  have "length ?bs = 2" by simp
  with data have "2 \<le> length data" by (metis length_take min.cobounded1)
  then have bt: "buf_take data 2 = Some ?bs" using data by (simp add: buf_take_def obj_read_def)
  have "cfg_vqn (vdev ?s) = of_nat i"
    using c(3) by (simp add: cfg_vqn_def const_simps field_le_bytes)
  then have vqn: "unat (cfg_vqn (vdev ?s)) = i" using i by (simp add: unat_of_nat take_bit_nat_eq_self)
  have "ready ?s i q p pay rs" using r c(2) by (simp add: ready_def)
  from callback_serves [OF this e, of ev] ev obtain s' where
    s': "virtio_pci_ioevent_callback (virtio_blk_handle_output env) i ?s = Some s'" "all_served ?s i q p pay rs ev s'" by auto
  have "virtio_pci_iospace_write evs (virtio_blk_handle_output env) data (of_nat NOTIFY_CFG) 2 s =
      virtio_pci_ioevent_callback (virtio_blk_handle_output env) (unat (cfg_vqn (vdev ?s))) ?s"
    using c(1) by (simp add: virtio_pci_iospace_write_def bt const_simps)
  then show ?thesis using s' c(2) unfolding vqn by (auto simp: all_served_def)
qed

text \<open>A write of \<open>n\<close> bytes to a register of the mapped BAR.\<close>

lemma bar_access:
  assumes b: "bar_decoded m bas" and w: "mmio_is_write run" "mmio_len run = of_nat n" "mmio_phys_addr run = bas + of_nat off"
    and n: "0 < n" "off + n \<le> 0x100" "n < 256"
    and s: "virtio_pci_iospace_write (events (me_blk env)) (virtio_blk_handle_output (me_blk env)) (mmio_data run)
      (of_nat off) (of_nat n) (m_blk m) = Some b'"
  shows "iobus_handle_mmio (io_call env 2) m_io run m = Some (run, m\<lparr>m_blk := b'\<rparr>)"
proof -
  let ?d = "vp_dev (vdev (m_blk m))" and ?sz = "of_nat n :: u8" and ?a = "bas + of_nat off"
  define r where "r = regions (m_io m) (BarRegion ?d 0)"
  have r: "r_base r = bas" "r_len r = 0x100" "r_owner r = PciDev ?d" "r_handle_io r = Some Virtio_pci_iospace_handle_io" "unat bas < 2 ^ 32"
    using b by (simp_all add: bar_decoded_def Let_def r_def region_io_def)
  have sz: "ucast (mmio_len run) = ?sz" "unat (ucast ?sz :: u64) = n"
    using n w(2) by (simp_all add: unsigned_of_nat unsigned_ucast_eq take_bit_nat_eq_self)
  have "unat (of_nat off :: u64) = off" using n by (simp add: unsigned_of_nat take_bit_nat_eq_self)
  then have a: "unat ?a = unat bas + off" using r(5) n by (simp add: unat_word_ariths)
  then have f: "iobus_find_region (m_io m) MmioBus ?a = Some (Some (BarRegion ?d 0))"
    using b n by (simp add: bar_decoded_def Let_def)
  have "unat (?a + ucast ?sz - 1) = unat bas + off + n - 1" "unat (bas + 0x100 - 1) = unat bas + 0x100 - 1"
    using r(5) n sz(2) a unat_add_sub_one [of "ucast ?sz" ?a] unat_add_sub_one [of "0x100" bas] by simp_all
  then have "fits_region r ?a ?sz" using n by (simp only: fits_region_def r(1,2) word_le_nat_alt)
  then show ?thesis
    using w s r f
    by (simp add: iobus_handle_mmio_def bus_handle_io_def r_def [symmetric] Let_def io_call_fns sz(1) [unfolded w(2)]
        on_blk_def virtio_pci_iospace_handle_io_def)
qed

lemma doorbell_exit:
  assumes "ready (m_blk m) i q p pay rs" "env_ok (me_blk env)"
    and "host_load (ram (m_blk m)) (guest_event q + 2) 2 = Some (ev :: u16)"
    and h: "bar_decoded m (mmio_phys_addr run - of_nat NOTIFY_CFG)" "mmio_is_write run" "mmio_len run = 2" "i < 2 ^ 16"
      "take 2 (mmio_data run) = le_bytes 2 (of_nat i :: u16)"
  shows "\<exists>m'. vcpu_exit env True (KVM_EXIT_MMIO run) ret m = Some (Inr (Some 0, m')) \<and> machine_step env m m' \<and>
    m' = m\<lparr>m_blk := m_blk m'\<rparr> \<and> all_served (m_blk m) i q p pay rs ev (m_blk m')"
proof -
  obtain b' where b': "virtio_pci_iospace_write (events (me_blk env)) (virtio_blk_handle_output (me_blk env)) (mmio_data run)
      (of_nat NOTIFY_CFG) (of_nat 2) (m_blk m) = Some b'" "all_served (m_blk m) i q p pay rs ev b'"
    using notify_write_serves [OF assms(1-3) h(4,5)] by auto
  have "iobus_handle_mmio (io_call env 2) m_io run m = Some (run, m\<lparr>m_blk := b'\<rparr>)"
    by (rule bar_access [OF h(1,2) _ _ _ _ _ b'(1)]) (simp_all add: h(3) const_simps)
  then show ?thesis
    using b'(2) by (intro exI [of _ "m\<lparr>m_blk := b'\<rparr>"]) (auto simp: vcpu_exit_def intro: machine_step.mmio)
qed

lemma doorbell_event:
  assumes "ready (m_blk m) i q p pay rs" "env_ok (me_blk env)"
    and "host_load (ram (m_blk m)) (guest_event q + 2) 2 = Some (ev :: u16)"
    and h: "ioevents (ioev (m_blk m)) (unat d) = Some e" "ev_fn_ptr e = i" "data_fd d \<noteq> epoll_stop_fd (ioev (m_blk m))"
  shows "\<exists>m'. ioeventfd_events (virtio_pci_ioevent_callback (virtio_blk_handle_output (me_blk env))) [d] (ioev (m_blk m)) (m_blk m) =
      Some (False, ioev (m_blk m), m_blk m') \<and> machine_step env m m' \<and>
    m' = m\<lparr>m_blk := m_blk m'\<rparr> \<and> all_served (m_blk m) i q p pay rs ev (m_blk m')"
proof -
  obtain b' where b': "virtio_pci_ioevent_callback (virtio_blk_handle_output (me_blk env)) i (m_blk m) = Some b'"
    "all_served (m_blk m) i q p pay rs ev b'"
    using callback_serves [OF assms(1-3)] by blast
  have e: "ioeventfd_events (virtio_pci_ioevent_callback (virtio_blk_handle_output (me_blk env))) [d] (ioev (m_blk m)) (m_blk m) =
      Some (False, ioev (m_blk m), b')"
    using h b'(1) by simp
  have "b'\<lparr>ioev := ioev (m_blk m)\<rparr> = b'" using b'(2) by (simp add: all_served_def disk_keeps_def)
  with machine_step.event [OF e] have "machine_step env m (m\<lparr>m_blk := b'\<rparr>)" by simp
  then show ?thesis using e b'(2) by (intro exI [of _ "m\<lparr>m_blk := b'\<rparr>"]) simp
qed

section \<open>Properties\<close>

text \<open>Property C4. End to end, from the guest's doorbell to the interrupt: when the driver has queued any number
  of well-formed requests and writes the queue's number to the notification register, the vcpu thread serves
  all of them in that one exit, goes on running the guest, and has raised the interrupt if the driver
  asked for it; when KVM turns the write into an event instead, the round of the event thread in which \<open>epoll_wait\<close> reports that
  event does the same, and the thread goes on.\<close>

theorem notify_serves_requests:
  assumes "ready (m_blk m) i q p pay rs" "env_ok (me_blk env)"
    and "host_load (ram (m_blk m)) (guest_event q + 2) 2 = Some (ev :: u16)"
  shows "(bar_decoded m (mmio_phys_addr run - of_nat NOTIFY_CFG) \<and> mmio_is_write run \<and> mmio_len run = 2 \<and> i < 2 ^ 16 \<and>
      take 2 (mmio_data run) = le_bytes 2 (of_nat i :: u16) \<longrightarrow>
      (\<exists>m'. vcpu_exit env True (KVM_EXIT_MMIO run) ret m = Some (Inr (Some 0, m')) \<and> machine_step env m m' \<and>
        m' = m\<lparr>m_blk := m_blk m'\<rparr> \<and> all_served (m_blk m) i q p pay rs ev (m_blk m'))) \<and>
    (ioevents (ioev (m_blk m)) (unat d) = Some e \<and> ev_fn_ptr e = i \<and> data_fd d \<noteq> epoll_stop_fd (ioev (m_blk m)) \<longrightarrow>
      (\<exists>m'. ioeventfd_thread (virtio_pci_ioevent_callback (virtio_blk_handle_output (me_blk env))) [[d]] (ioev (m_blk m)) (m_blk m) =
          Some (False, ioev (m_blk m), m_blk m') \<and> machine_step env m m' \<and> m' = m\<lparr>m_blk := m_blk m'\<rparr> \<and>
        all_served (m_blk m) i q p pay rs ev (m_blk m')))"
  using doorbell_exit [OF assms] doorbell_event [OF assms] by (simp only: ioeventfd_thread_concat concat.simps append_Nil2) blast

definition sample_guest :: machine where
  "sample_guest = machine_0\<lparr>m_blk := (sample_blk VIRTIO_BLK_T_IN 0)\<lparr>pci := pci_state_0\<lparr>io := iobus_register_region MmioBus (BarRegion 0 0)
     (region_init (BarRegion 0 0) 0xFE000000 0x100 (PciDev 0) Virtio_pci_iospace_handle_io boot_io)\<rparr>\<rparr>\<rparr>"

definition sample_doorbell :: kvm_run_mmio where
  "sample_doorbell = \<lparr>mmio_phys_addr = 0xFE00003C, mmio_data = replicate 8 0, mmio_len = 2, mmio_is_write = True\<rparr>"

lemma sample_guest_decoded: "bar_decoded sample_guest 0xFE000000"
proof -
  have no: "BarRegion 0 0 \<notin> set (boot_lists b)" for b by (simp add: boot_lists_def)
  have rep: "bus_repr (m_io sample_guest) (boot_lists(MmioBus := BarRegion 0 0 # boot_lists MmioBus))"
    unfolding sample_guest_def m_io_def using bus_repr_register [OF bus_repr_region_init [OF boot_io_repr no] no] by simp
  have r: "region_io (regions (m_io sample_guest) (BarRegion 0 0)) = (0xFE000000, 0x100, PciDev 0, Some Virtio_pci_iospace_handle_io)"
    by (simp add: sample_guest_def m_io_def region_io_def register_fields region_init_fields)
  then have "bus_hit (m_io sample_guest) (BarRegion 0 0) a \<longleftrightarrow> 0xFE000000 \<le> unat a \<and> unat a < 0xFE000100" for a
    by (auto simp: bus_hit_def region_hit_def region_io_def word_le_nat_alt)
  moreover have "vp_dev (vdev (m_blk sample_guest)) = 0" by (simp add: sample_guest_def sample_blk_def zero_virtio_dev_def)
  ultimately show ?thesis
    using ib.find_first [OF rep, of MmioBus] r by (simp add: bar_decoded_def boot_lists_def)
qed

lemma sample_guest_ready: "ready (m_blk sample_guest) 0 sample_blk_vq 0 (\<lambda>_. []) [sample_req VIRTIO_BLK_T_IN 0]"
proof -
  let ?s = "sample_blk VIRTIO_BLK_T_IN 0"
  have s: "vdev (m_blk sample_guest) = vdev ?s" "ram (m_blk sample_guest) = ram ?s" "disk_size (m_blk sample_guest) = disk_size ?s"
    by (simp_all add: sample_guest_def)
  have "info_enable sample_blk_vq \<noteq> 0" "length (info sample_blk_vq) = VIRTQ_INFO_SIZE" by code_simp+
  moreover have "vdev_wf (vdev ?s)"
    using calculation(2) by (simp add: vdev_wf_def sample_blk_def zero_virtio_dev_def)
  ultimately show ?thesis
    using sample_blk_at [of VIRTIO_BLK_T_IN 0] sample_queued [of "\<lambda>_. []"] sample_queue_ends [of VIRTIO_BLK_T_IN 0] sample_event(2) [of VIRTIO_BLK_T_IN 0]
    by (simp add: ready_def s blk_at_def queued_def)
qed

theorem notify_serves_requests_witness:
  "\<exists>m'. vcpu_exit sample_machine_env True (KVM_EXIT_MMIO sample_doorbell) None sample_guest = Some (Inr (Some 0, m')) \<and>
     blk_state.irqs (m_blk m') = 1"
proof -
  have e: "env_ok (me_blk sample_machine_env)" using sample_blk_wf(2,3) by (simp add: env_ok_def sample_machine_env_def)
  have ev: "host_load (ram (m_blk sample_guest)) (guest_event sample_blk_vq + 2) 2 = Some (0 :: u16)"
    using sample_event(1) by (simp add: sample_guest_def)
  have "take 2 (mmio_data sample_doorbell) = le_bytes 2 (of_nat 0 :: u16)" by code_simp
  moreover have "mmio_phys_addr sample_doorbell - of_nat NOTIFY_CFG = 0xFE000000" "mmio_is_write sample_doorbell" "mmio_len sample_doorbell = 2"
    by (simp_all add: sample_doorbell_def const_simps)
  ultimately obtain m' where "vcpu_exit sample_machine_env True (KVM_EXIT_MMIO sample_doorbell) None sample_guest = Some (Inr (Some 0, m'))"
    "all_served (m_blk sample_guest) 0 sample_blk_vq 0 (\<lambda>_. []) [sample_req VIRTIO_BLK_T_IN 0] 0 (m_blk m')"
    using notify_serves_requests [OF sample_guest_ready e ev, of sample_doorbell None] sample_guest_decoded by auto
  moreover have "blk_state.irqs (m_blk sample_guest) = 0" by (simp add: sample_guest_def sample_blk_def)
  ultimately show ?thesis by (auto simp: all_served_def const_simps)
qed

end
