(* ===== verification/Session.thy ===== *)
theory Session
  imports Guest
begin

text \<open>
  The whole program with a disk, from \<open>main\<close> to a served request: start-up, the driver's configuration
  accesses and register writes as exits of the vcpu loop, the guest's own stores into its memory, and the
  doorbell.
\<close>

section \<open>Register writes\<close>

text \<open>The exit for a write of \<open>bs\<close> at offset \<open>off\<close> of the registers mapped at \<open>v\<close>; the data of the exit has
  eight bytes.\<close>

definition reg_write :: "u32 \<Rightarrow> nat \<Rightarrow> bytes \<Rightarrow> kvm_exit" where
  "reg_write v off bs = KVM_EXIT_MMIO \<lparr>mmio_phys_addr = ucast v + of_nat off, mmio_data = bs @ replicate (8 - length bs) 0,
     mmio_len = of_nat (length bs), mmio_is_write = True\<rparr>"

lemma reg_write_exit:
  assumes "bar_decoded m (ucast v)" "0 < length bs" "length bs \<le> 8" "off + length bs \<le> 0x100"
    and "virtio_pci_iospace_write (events (me_blk env)) (virtio_blk_handle_output (me_blk env)) bs
      (of_nat off) (of_nat (length bs)) (m_blk m) = Some b'"
  shows "vcpu_exit env True (reg_write v off bs) ret m = Some (Inr (Some 0, m\<lparr>m_blk := b'\<rparr>))"
proof -
  let ?run = "\<lparr>mmio_phys_addr = ucast v + of_nat off, mmio_data = bs @ replicate (8 - length bs) 0,
     mmio_len = of_nat (length bs), mmio_is_write = True\<rparr>"
  have "unat (of_nat (length bs) :: u8) = length bs" using assms(3) by (simp add: unsigned_of_nat take_bit_nat_eq_self)
  then have "buf_take (bs @ replicate (8 - length bs) 0) (of_nat (length bs)) = buf_take bs (of_nat (length bs))"
    by (simp add: buf_take_def obj_read_def)
  then have w: "virtio_pci_iospace_write (events (me_blk env)) (virtio_blk_handle_output (me_blk env)) (mmio_data ?run)
      (of_nat off) (of_nat (length bs)) (m_blk m) = Some b'"
    using assms(5) by (simp add: virtio_pci_iospace_write_def)
  have "iobus_handle_mmio (io_call env 2) m_io ?run m = Some (?run, m\<lparr>m_blk := b'\<rparr>)"
    by (rule bar_access [OF assms(1) _ _ _ _ _ _ w]) (use assms(2-4) in simp_all)
  then show ?thesis by (simp add: vcpu_exit_def reg_write_def)
qed

section \<open>Programming the queue\<close>

text \<open>The device while the driver programs queue 0, whose information is \<open>qi\<close>; everything else is as in \<open>m0\<close>.\<close>

definition queue_prog :: "machine \<Rightarrow> bytes \<Rightarrow> machine \<Rightarrow> bool" where
  "queue_prog m0 qi m \<longleftrightarrow> (\<exists>d. m = m0\<lparr>m_blk := (m_blk m0)\<lparr>vdev := d\<rparr>\<rparr> \<and> vdev_wf d \<and> mirrored d \<and>
     cfg_queue_select d = 0 \<and> cfg_num_queues d = 1 \<and> vq d = [blk_vq\<lparr>info := qi\<rparr>] \<and>
     vp_dev d = vp_dev (vdev (m_blk m0)) \<and> notify_cap d = notify_cap (vdev (m_blk m0)))"

lemma bar_decoded_vdev:
  "vp_dev d = vp_dev (vdev (m_blk m)) \<Longrightarrow> bar_decoded (m\<lparr>m_blk := (m_blk m)\<lparr>vdev := d\<rparr>\<rparr>) = bar_decoded m"
  by (simp add: bar_decoded_def m_io_def fun_eq_iff)

lemma queue_prog_select:
  assumes b: "bar_decoded m (ucast v)" and d: "disk_vdev 0 a (vdev (m_blk m))"
  shows "\<exists>m'. vcpu_exit env True (reg_write v 22 (le_bytes 2 (0 :: u16))) ret m = Some (Inr (Some 0, m')) \<and>
    queue_prog m (info blk_vq) m'"
proof -
  have wf: "vdev_wf (vdev (m_blk m))" "unat (cfg_num_queues (vdev (m_blk m))) \<le> length (vq (vdev (m_blk m)))"
    using d by (simp_all add: disk_vdev_def)
  from queue_select_write [OF wf, of "events (me_blk env)" "virtio_blk_handle_output (me_blk env)" 0] obtain c where
    c: "virtio_pci_iospace_write (events (me_blk env)) (virtio_blk_handle_output (me_blk env)) (le_bytes 2 (0 :: u16)) 22 2 (m_blk m) =
        Some ((m_blk m)\<lparr>vdev := (vdev (m_blk m))\<lparr>config := c\<rparr>\<rparr>)"
      "vdev_wf ((vdev (m_blk m))\<lparr>config := c\<rparr>)" "mirrored ((vdev (m_blk m))\<lparr>config := c\<rparr>)"
      "cfg_queue_select ((vdev (m_blk m))\<lparr>config := c\<rparr>) = 0" "cfg_num_queues ((vdev (m_blk m))\<lparr>config := c\<rparr>) = 1"
    using d by (auto simp: Let_def disk_vdev_def)
  have "vcpu_exit env True (reg_write v 22 (le_bytes 2 (0 :: u16))) ret m =
      Some (Inr (Some 0, m\<lparr>m_blk := (m_blk m)\<lparr>vdev := (vdev (m_blk m))\<lparr>config := c\<rparr>\<rparr>\<rparr>))"
    by (rule reg_write_exit [OF b]) (use c(1) in simp_all)
  moreover have "queue_prog m (info blk_vq) (m\<lparr>m_blk := (m_blk m)\<lparr>vdev := (vdev (m_blk m))\<lparr>config := c\<rparr>\<rparr>\<rparr>)"
    unfolding queue_prog_def
    by (intro exI [of _ "(vdev (m_blk m))\<lparr>config := c\<rparr>"] conjI c) (use d in \<open>simp_all add: disk_vdev_def\<close>)
  ultimately show ?thesis by blast
qed

text \<open>One write of a queue register.\<close>

lemma queue_prog_write:
  assumes b: "bar_decoded m0 (ucast v)" and q: "queue_prog m0 qi m" and w: "obj_write qi (off - 24) bs = Some qi'"
    and n: "24 \<le> off" "off \<noteq> 28" "off \<le> 52" "off + length bs \<le> 56" "0 < length bs" "length bs \<le> 8"
  shows "\<exists>m'. vcpu_exit env True (reg_write v off bs) ret m = Some (Inr (Some 0, m')) \<and> queue_prog m0 qi' m'"
proof -
  obtain d where d: "m = m0\<lparr>m_blk := (m_blk m0)\<lparr>vdev := d\<rparr>\<rparr>" "vdev_wf d" "mirrored d" "cfg_queue_select d = 0" "cfg_num_queues d = 1"
    "vq d = [blk_vq\<lparr>info := qi\<rparr>]" "vp_dev d = vp_dev (vdev (m_blk m0))" "notify_cap d = notify_cap (vdev (m_blk m0))"
    using q by (auto simp: queue_prog_def)
  let ?sz = "of_nat (length bs) :: u8" and ?off = "of_nat off :: u64"
  have u: "unat ?sz = length bs" "unat ?off = off" using n by (simp_all add: unsigned_of_nat take_bit_nat_eq_self)
  have "vdev_wf (vdev (m_blk m))" "unat (cfg_num_queues (vdev (m_blk m))) \<le> length (vq (vdev (m_blk m)))"
    "mirrored (vdev (m_blk m)) \<and> cfg_queue_select (vdev (m_blk m)) < cfg_num_queues (vdev (m_blk m)) \<and> unat ?sz \<le> length bs \<and>
     VIRTIO_PCI_COMMON_Q_SIZE \<le> unat ?off \<and> unat ?off \<noteq> VIRTIO_PCI_COMMON_Q_ENABLE \<and>
     unat ?off \<le> VIRTIO_PCI_COMMON_Q_USEDHI \<and> unat ?off + unat ?sz \<le> COMMON_CFG_SIZE"
    using n d by (simp_all add: u const_simps)
  from queue_register_write [OF this, of "events (me_blk env)" "virtio_blk_handle_output (me_blk env)"] obtain c qi'' where
    c: "virtio_pci_iospace_write (events (me_blk env)) (virtio_blk_handle_output (me_blk env)) bs ?off ?sz (m_blk m) =
        Some ((m_blk m)\<lparr>vdev := d\<lparr>config := c, vq := [blk_vq\<lparr>info := qi''\<rparr>]\<rparr>\<rparr>)"
      "obj_write qi (off - 24) bs = Some qi''"
      "vdev_wf (d\<lparr>config := c, vq := [blk_vq\<lparr>info := qi''\<rparr>]\<rparr>)" "mirrored (d\<lparr>config := c, vq := [blk_vq\<lparr>info := qi''\<rparr>]\<rparr>)"
      "cfg_queue_select (d\<lparr>config := c, vq := [blk_vq\<lparr>info := qi''\<rparr>]\<rparr>) = 0"
      "cfg_num_queues (d\<lparr>config := c, vq := [blk_vq\<lparr>info := qi''\<rparr>]\<rparr>) = 1"
    using d by (auto simp: Let_def u const_simps)
  have "bar_decoded m (ucast v)" using b d(1,7) by (simp add: bar_decoded_vdev)
  then have "vcpu_exit env True (reg_write v off bs) ret m =
      Some (Inr (Some 0, m\<lparr>m_blk := (m_blk m)\<lparr>vdev := d\<lparr>config := c, vq := [blk_vq\<lparr>info := qi''\<rparr>]\<rparr>\<rparr>\<rparr>))"
    by (rule reg_write_exit) (use n c(1) in simp_all)
  moreover have "queue_prog m0 qi' (m\<lparr>m_blk := (m_blk m)\<lparr>vdev := d\<lparr>config := c, vq := [blk_vq\<lparr>info := qi''\<rparr>]\<rparr>\<rparr>\<rparr>)"
    unfolding queue_prog_def using c(2-6) d w
    by (intro exI [of _ "d\<lparr>config := c, vq := [blk_vq\<lparr>info := qi''\<rparr>]\<rparr>"]) simp
  ultimately show ?thesis by blast
qed

text \<open>A sequence of such writes.\<close>

primrec queue_writes :: "(nat \<times> bytes) list \<Rightarrow> bytes \<Rightarrow> bytes option" where
  "queue_writes [] qi = Some qi"
| "queue_writes (w # ws) qi = do { qi' \<leftarrow> obj_write qi (fst w - 24) (snd w); queue_writes ws qi' }"

lemma queue_prog_writes:
  assumes b: "bar_decoded m0 (ucast v)"
    and ws: "\<forall>(off, bs) \<in> set ws. 24 \<le> off \<and> off \<noteq> 28 \<and> off \<le> 52 \<and> off + length bs \<le> 56 \<and> 0 < length bs \<and> length bs \<le> 8"
  shows "queue_prog m0 qi m \<Longrightarrow> queue_writes ws qi = Some qi' \<Longrightarrow>
    \<exists>m'. vcpu_exec env True (map (\<lambda>(off, bs). reg_write v off bs) ws) (Some 0) m = Some (Running (Some 0) m') \<and> queue_prog m0 qi' m'"
  using ws
proof (induction ws arbitrary: qi m)
  case (Cons w ws)
  obtain off bs where w: "w = (off, bs)" by fastforce
  obtain q1 where q1: "obj_write qi (off - 24) bs = Some q1" "queue_writes ws q1 = Some qi'"
    using Cons.prems(2) w by (auto split: Option.bind_splits)
  have n: "24 \<le> off" "off \<noteq> 28" "off \<le> 52" "off + length bs \<le> 56" "0 < length bs" "length bs \<le> 8" using Cons.prems(3) w by auto
  obtain m' where "vcpu_exit env True (reg_write v off bs) (Some 0) m = Some (Inr (Some 0, m'))" "queue_prog m0 q1 m'"
    using queue_prog_write [OF b Cons.prems(1) q1(1) n, of env "Some 0"] by blast
  with Cons.IH [OF this(2) q1(2)] Cons.prems(3) show ?case by (auto simp: w)
qed auto

definition queue_regs :: "u64 \<Rightarrow> u64 \<Rightarrow> u64 \<Rightarrow> (nat \<times> bytes) list" where
  "queue_regs desc driver device =
     [(32, take 4 (le_bytes 8 desc)), (36, drop 4 (le_bytes 8 desc)), (40, take 4 (le_bytes 8 driver)), (44, drop 4 (le_bytes 8 driver)),
      (48, take 4 (le_bytes 8 device)), (52, drop 4 (le_bytes 8 device))]"

definition queue_info :: "u64 \<Rightarrow> u64 \<Rightarrow> u64 \<Rightarrow> bytes" where
  "queue_info desc driver device = [128, 0, 0, 0, 0, 0, 0, 0] @ le_bytes 8 desc @ le_bytes 8 driver @ le_bytes 8 device"

lemma queue_regs_writes: "queue_writes (queue_regs desc driver device) (info blk_vq) = Some (queue_info desc driver device)"
proof -
  define a b c d e f where "a = take 4 (le_bytes 8 desc)" "b = drop 4 (le_bytes 8 desc)" "c = take 4 (le_bytes 8 driver)"
    "d = drop 4 (le_bytes 8 driver)" "e = take 4 (le_bytes 8 device)" "f = drop 4 (le_bytes 8 device)"
  note defs = this
  have len: "length a = 4" "length b = 4" "length c = 4" "length d = 4" "length e = 4" "length f = 4" by (simp_all add: defs)
  have le: "le_bytes 8 desc = a @ b" "le_bytes 8 driver = c @ d" "le_bytes 8 device = e @ f" by (simp_all add: defs)
  have i: "info blk_vq = [128, 0, 0, 0, 0, 0, 0, 0] @ replicate 4 0 @ replicate 4 0 @ replicate 4 0 @ replicate 4 0 @ replicate 4 0 @ replicate 4 0"
    by code_simp
  show ?thesis
    unfolding queue_regs_def queue_info_def defs(1-6) [symmetric] le i by (simp add: obj_write_def len)
qed

lemma queue_info_fields:
  "info_desc_addr (q\<lparr>info := queue_info desc driver device\<rparr>) = desc"
  "info_driver_addr (q\<lparr>info := queue_info desc driver device\<rparr>) = driver"
  "info_device_addr (q\<lparr>info := queue_info desc driver device\<rparr>) = device"
  "info_enable (q\<lparr>info := queue_info desc driver device\<rparr>) = 0" "info_size (q\<lparr>info := queue_info desc driver device\<rparr>) = 128"
  "info_notify_off (q\<lparr>info := queue_info desc driver device\<rparr>) = 0"
proof -
  have "of_le [0, 0] = (0 :: u16)" "of_le [128, 0] = (128 :: u16)" by code_simp+
  then show "info_enable (q\<lparr>info := queue_info desc driver device\<rparr>) = 0" "info_size (q\<lparr>info := queue_info desc driver device\<rparr>) = 128"
    "info_notify_off (q\<lparr>info := queue_info desc driver device\<rparr>) = 0"
    by (simp_all add: info_enable_def info_size_def info_notify_off_def field_def queue_info_def)
qed (simp_all add: info_desc_addr_def info_driver_addr_def info_device_addr_def field_def queue_info_def)


section \<open>Going online\<close>

text \<open>The device with its registers mapped at \<open>v\<close>, queue 0 enabled at its rings and at position \<open>p\<close>, and the doorbell
  registered under the address \<open>a\<close> of its event record.\<close>

definition online :: "u32 \<Rightarrow> addr \<Rightarrow> machine \<Rightarrow> virtq \<Rightarrow> nat \<Rightarrow> bool" where
  "online v a m q p \<longleftrightarrow> bar_decoded m (ucast v) \<and> vdev_wf (vdev (m_blk m)) \<and> blk_at (m_blk m) 0 q p \<and> info_enable q \<noteq> 0 \<and>
     (\<exists>e. ioevents (ioev (m_blk m)) a = Some e \<and> ev_fn_ptr e = 0) \<and> a < 2 ^ 64 \<and> data_fd (of_nat a) \<noteq> epoll_stop_fd (ioev (m_blk m))"

text \<open>A buffer of the guest below the last byte of RAM has a host address.\<close>

lemma ram_buffer:
  assumes "guest_ok st 0 N" "unat a + n < N"
  shows "\<exists>p. get_userspace_addr st a = Some p \<and> unat p + n < 2 ^ 64 \<and> mapped (hmem st) (unat p) n"
proof -
  have "guest_ok st (unat a) (Suc n)" using guest.ok_sub [OF assms(1), of "unat a" "Suc n"] assms(2) by simp
  then show ?thesis
  proof (rule guest_okE)
    fix i
    assume i: "mm_ok st" "i < 2" "region_covers (MemMapper st ! i) (unat a) (Suc n)"
    then have r: "region_ok (hmem st) (MemMapper st ! i)" by (auto simp: mm_ok_def less_2_cases_iff)
    then have "mapped (hmem st) (host_addr (MemMapper st ! i) (unat a)) n"
      using i(3) by (intro host_mapped) (auto simp: region_covers_def)
    moreover have "host_addr (MemMapper st ! i) (unat a) + n < 2 ^ 64"
      using r i(3) by (auto simp: host_addr_def region_ok_def region_covers_def)
    ultimately show ?thesis using get_userspace_addr_covered [OF i] by auto
  qed
qed

text \<open>The addresses of the three parts of the queue lie in RAM.\<close>

definition rings_in_ram :: "memory \<Rightarrow> u64 \<Rightarrow> u64 \<Rightarrow> u64 \<Rightarrow> bool" where
  "rings_in_ram st desc driver device \<longleftrightarrow> (\<exists>N. guest_ok st 0 N \<and> unat desc + 16 * 128 < N \<and> unat driver + 4 < N \<and> unat device + 4 < N)"

lemma queue_prog_enable:
  assumes b: "bar_decoded m0 (ucast v)" and q: "queue_prog m0 (queue_info desc driver device) m" and n: "notify_at (m_blk m0) v 60 0"
    and r: "rings_in_ram (ram (m_blk m0)) desc driver device"
    and e: "\<forall>t. events (me_blk env) t = ee" "event_ready (ioev (m_blk m0)) ps (ev_add ee)"
      "data_fd (of_nat (e_malloc (ev_add ee))) \<noteq> epoll_stop_fd (ioev (m_blk m0))"
  shows "\<exists>m' q' d e'. vcpu_exit env True (reg_write v 28 (le_bytes 2 (1 :: u16))) ret m = Some (Inr (Some 0, m')) \<and>
    online v (e_malloc (ev_add ee)) m' q' 0 \<and> m' = m0\<lparr>m_blk := (m_blk m0)\<lparr>vdev := d, ioev := e'\<rparr>\<rparr> \<and> info_size q' = 128 \<and>
    get_userspace_addr (ram (m_blk m0)) desc = Some (desc_ring q') \<and> get_userspace_addr (ram (m_blk m0)) driver = Some (guest_event q') \<and>
    get_userspace_addr (ram (m_blk m0)) device = Some (device_event q') \<and>
    kvm_ioeventfds e' = kvm_ioeventfds (ioev (m_blk m0)) @ [\<lparr>ev_datamatch = 0, ev_addr = ucast v + 60, ev_len = 2,
      ev_fd = ev_eventfd ee, ev_flags = KVM_IOEVENTFD_FLAG_DATAMATCH, ev_fn_ptr = 0\<rparr>]"
proof -
  let ?q = "blk_vq\<lparr>info := queue_info desc driver device\<rparr>"
  obtain ring guest dv where a: "get_userspace_addr (ram (m_blk m0)) desc = Some ring" "get_userspace_addr (ram (m_blk m0)) driver = Some guest"
    "get_userspace_addr (ram (m_blk m0)) device = Some dv" "unat ring + 16 * 128 < 2 ^ 64" "mapped (hmem (ram (m_blk m0))) (unat ring) (16 * 128)"
    using r ram_buffer by (metis rings_in_ram_def)
  obtain d where d: "m = m0\<lparr>m_blk := (m_blk m0)\<lparr>vdev := d\<rparr>\<rparr>" "vdev_wf d" "cfg_queue_select d = 0"
    "vq d = [?q]" "vp_dev d = vp_dev (vdev (m_blk m0))" "notify_cap d = notify_cap (vdev (m_blk m0))"
    using q by (auto simp: queue_prog_def)
  have rdy: "enable_ready (m_blk m) 0 ?q ring guest dv" and na: "notify_at (m_blk m) v 60 0"
    using n a(1-3) d by (simp_all add: enable_ready_def get_vq_def queue_info_fields) (simp add: notify_at_def)
  have ev: "\<forall>t. ioev t = ioev (m_blk m) \<longrightarrow> events (me_blk env) t = ee" "event_ready (ioev (m_blk m)) ps (ev_add ee)"
    using e d(1) by simp_all
  have db: "doorbell v 60 0 (ev_eventfd ee) 0 ?q = \<lparr>ev_datamatch = 0, ev_addr = ucast v + 60, ev_len = 2,
      ev_fd = ev_eventfd ee, ev_flags = KVM_IOEVENTFD_FLAG_DATAMATCH, ev_fn_ptr = 0\<rparr>"
    by (simp add: doorbell_def)
  from queue_enable_write [OF rdy na ev, of "virtio_blk_handle_output (me_blk env)", unfolded db]
  obtain s' q' where s': "virtio_pci_iospace_write (events (me_blk env)) (virtio_blk_handle_output (me_blk env)) (le_bytes 2 (1 :: u16)) 28 2 (m_blk m) = Some s'"
    "get_vq (vdev s') 0 = Some q'" "desc_ring q' = ring" "guest_event q' = guest" "device_event q' = dv" "info_enable q' = 1"
    "info_size q' = info_size ?q" "next_avail_idx q' = next_avail_idx ?q" "used_wrap_count q' = used_wrap_count ?q"
    "vdev_wf (vdev s')" "kvm_ioeventfds (ioev s') = kvm_ioeventfds (ioev (m_blk m)) @ [\<lparr>ev_datamatch = 0, ev_addr = ucast v + 60, ev_len = 2,
      ev_fd = ev_eventfd ee, ev_flags = KVM_IOEVENTFD_FLAG_DATAMATCH, ev_fn_ptr = 0\<rparr>]"
    "ioevents (ioev s') = (ioevents (ioev (m_blk m)))(e_malloc (ev_add ee) \<mapsto> \<lparr>ev_datamatch = 0, ev_addr = ucast v + 60, ev_len = 2,
      ev_fd = ev_eventfd ee, ev_flags = KVM_IOEVENTFD_FLAG_DATAMATCH, ev_fn_ptr = 0\<rparr>)"
    "epoll_stop_fd (ioev s') = epoll_stop_fd (ioev (m_blk m))" "vp_dev (vdev s') = vp_dev (vdev (m_blk m))"
    "s' = (m_blk m)\<lparr>vdev := vdev s', ioev := ioev s'\<rparr>"
    by (elim exE conjE) (rule that)
  have sz: "info_size q' = 128" using s'(7) by (simp add: queue_info_fields)
  have m': "m\<lparr>m_blk := s'\<rparr> = m0\<lparr>m_blk := (m_blk m0)\<lparr>vdev := vdev s', ioev := ioev s'\<rparr>\<rparr>" using s'(15) d(1) by simp
  have "bar_decoded m (ucast v)" using b d(1,5) by (simp add: bar_decoded_vdev)
  then have x: "vcpu_exit env True (reg_write v 28 (le_bytes 2 (1 :: u16))) ret m = Some (Inr (Some 0, m\<lparr>m_blk := s'\<rparr>))"
    by (rule reg_write_exit) (use s'(1) in simp_all)
  have "vq_at q' 0" using s'(8,9) by (simp add: vq_at_def sz blk_vq_def zero_virtq_def wrap_of_def)
  moreover have "ring_mapped (ram s') q'" using a(4,5) s'(3) arg_cong [OF s'(15), of ram] d(1) by (simp add: ring_mapped_def sz)
  moreover have "bar_decoded (m\<lparr>m_blk := s'\<rparr>) (ucast v)"
    using b d(5) arg_cong [OF s'(14), of id] d(1) unfolding m' by (simp add: bar_decoded_def m_io_def)
  ultimately have "online v (e_malloc (ev_add ee)) (m\<lparr>m_blk := s'\<rparr>) q' 0"
    using s'(2,6,10,12,13) e(2,3) d(1) by (simp add: online_def blk_at_def event_ready_def)
  then show ?thesis using x m' s'(3-5,11) d(1) sz a(1-3)
    by (intro exI [of _ "m\<lparr>m_blk := s'\<rparr>"] exI [of _ q'] exI [of _ "vdev s'"] exI [of _ "ioev s'"]) simp
qed

text \<open>The driver's accesses: BAR 0 and the command register, the queue selector, the addresses of its parts, and the enable register.\<close>

definition driver_setup :: "u32 \<Rightarrow> u16 \<Rightarrow> u64 \<Rightarrow> u64 \<Rightarrow> u64 \<Rightarrow> kvm_exit list" where
  "driver_setup v cmd desc driver device = map_bar v cmd @ [reg_write v 22 (le_bytes 2 (0 :: u16))] @
     map (\<lambda>(off, bs). reg_write v off bs) (queue_regs desc driver device) @ [reg_write v 28 (le_bytes 2 (1 :: u16))]"

lemma vcpu_exec_then:
  "vcpu_exec env ok xs ret m = Some (Running ret' m') \<Longrightarrow> vcpu_exec env ok (xs @ ys) ret m = vcpu_exec env ok ys ret' m'"
  by (simp add: vcpu_exec_append)

lemma vcpu_exec_one:
  "vcpu_exit env ok x ret m = Some (Inr (Some 0, m')) \<Longrightarrow> vcpu_exec env ok [x] ret m = Some (Running (Some 0) m')"
  by simp

lemma driver_setup_online:
  fixes v :: u32
  assumes d: "with_disk img n st m" and v: "unat v mod 256 = 0" "v \<noteq> 0" "unat v + 0x100 \<le> 2 ^ 32" and cmd: "bit cmd 1"
    and r: "rings_in_ram st desc driver device"
    and e: "\<forall>t. events (me_blk env) t = ee" "event_ready (ioev (m_blk m)) ps (ev_add ee)"
      "data_fd (of_nat (e_malloc (ev_add ee))) \<noteq> epoll_stop_fd (ioev (m_blk m))"
  shows "\<exists>m' q. vcpu_exec env True (driver_setup v cmd desc driver device) ret m = Some (Running (Some 0) m') \<and>
    online v (e_malloc (ev_add ee)) m' q 0 \<and> ram (m_blk m') = st \<and> disk (m_blk m') = img \<and> disk_size (m_blk m') = of_nat (length img) \<and>
    info_size q = 128 \<and> get_userspace_addr st desc = Some (desc_ring q) \<and> get_userspace_addr st driver = Some (guest_event q) \<and>
    get_userspace_addr st device = Some (device_event q) \<and>
    kvm_ioeventfds (ioev (m_blk m')) = kvm_ioeventfds (ioev (m_blk m)) @ [\<lparr>ev_datamatch = 0, ev_addr = ucast v + 60, ev_len = 2,
      ev_fd = ev_eventfd ee, ev_flags = KVM_IOEVENTFD_FLAG_DATAMATCH, ev_fn_ptr = 0\<rparr>]"
proof -
  obtain p where p: "vcpu_exec env True (map_bar v cmd) ret m = Some (Running (Some 0) (set_pci p m))" "bar_decoded (set_pci p m) (ucast v)"
    "notify_at (m_blk (set_pci p m)) v 60 0"
    using map_bar_decodes [OF d v cmd, of env ret] by blast
  define m0 where "m0 = set_pci p m"
  have s: "ram (m_blk m0) = st" "disk (m_blk m0) = img" "disk_size (m_blk m0) = of_nat (length img)" "ioev (m_blk m0) = ioev (m_blk m)"
    "disk_vdev 0 (dev_cfg_addr (m_blk m)) (vdev (m_blk m0))"
    using d by (simp_all add: m0_def set_pci_def with_disk_def)
  obtain m1 where m1: "vcpu_exit env True (reg_write v 22 (le_bytes 2 (0 :: u16))) (Some 0) m0 = Some (Inr (Some 0, m1))"
    "queue_prog m0 (info blk_vq) m1"
    using queue_prog_select [OF p(2) [folded m0_def] s(5), of env "Some 0"] by (elim exE conjE) (rule that)
  have "\<forall>(off, bs) \<in> set (queue_regs desc driver device). 24 \<le> off \<and> off \<noteq> 28 \<and> off \<le> 52 \<and> off + length bs \<le> 56 \<and> 0 < length bs \<and> length bs \<le> 8"
    by (simp add: queue_regs_def del: length_greater_0_conv)
  from queue_prog_writes [OF p(2) [folded m0_def] this m1(2) queue_regs_writes, of env] obtain m2 where
    m2: "vcpu_exec env True (map (\<lambda>(off, bs). reg_write v off bs) (queue_regs desc driver device)) (Some 0) m1 = Some (Running (Some 0) m2)"
      "queue_prog m0 (queue_info desc driver device) m2" by blast
  have h: "rings_in_ram (ram (m_blk m0)) desc driver device" "event_ready (ioev (m_blk m0)) ps (ev_add ee)"
    "data_fd (of_nat (e_malloc (ev_add ee))) \<noteq> epoll_stop_fd (ioev (m_blk m0))"
    using r e(2,3) by (simp_all add: s)
  obtain m3 q dv e' where m3: "vcpu_exit env True (reg_write v 28 (le_bytes 2 (1 :: u16))) (Some 0) m2 = Some (Inr (Some 0, m3))"
    "online v (e_malloc (ev_add ee)) m3 q 0" "m3 = m0\<lparr>m_blk := (m_blk m0)\<lparr>vdev := dv, ioev := e'\<rparr>\<rparr>" "info_size q = 128"
    "get_userspace_addr st desc = Some (desc_ring q)" "get_userspace_addr st driver = Some (guest_event q)"
    "get_userspace_addr st device = Some (device_event q)"
    "kvm_ioeventfds e' = kvm_ioeventfds (ioev (m_blk m)) @ [\<lparr>ev_datamatch = 0, ev_addr = ucast v + 60, ev_len = 2,
      ev_fd = ev_eventfd ee, ev_flags = KVM_IOEVENTFD_FLAG_DATAMATCH, ev_fn_ptr = 0\<rparr>]"
    using queue_prog_enable [OF p(2) [folded m0_def] m2(2) p(3) [folded m0_def] h(1) e(1) h(2,3), of "Some 0", unfolded s(1,4)] by (elim exE conjE) (rule that)
  have m1': "vcpu_exec env True [reg_write v 22 (le_bytes 2 (0 :: u16))] (Some 0) m0 = Some (Running (Some 0) m1)"
    and m3': "vcpu_exec env True [reg_write v 28 (le_bytes 2 (1 :: u16))] (Some 0) m2 = Some (Running (Some 0) m3)"
    using m1(1) m3(1) by (simp_all only: vcpu_exec_one)
  have "vcpu_exec env True (driver_setup v cmd desc driver device) ret m = Some (Running (Some 0) m3)"
    unfolding driver_setup_def vcpu_exec_then [OF p(1) [folded m0_def]] vcpu_exec_then [OF m1'] vcpu_exec_then [OF m2(1)] by (rule m3')
  moreover have "ram (m_blk m3) = st" "disk (m_blk m3) = img" "disk_size (m_blk m3) = of_nat (length img)" "ioev (m_blk m3) = e'"
    using s(1-3) by (simp_all add: m3(3))
  ultimately show ?thesis using m3(2,4-8) by (intro exI [of _ m3] exI [of _ q] conjI) simp_all
qed

section \<open>Rounds of requests\<close>

text \<open>A round of the driver: the guest has brought its memory to \<open>dr_mem\<close>, which has the requests \<open>dr_reqs\<close> in the ring, the
  bytes \<open>dr_pay\<close> in the buffers of the writes, and then writes the doorbell. The write reaches the vcpu thread
  as an exit, or the event thread as an event.\<close>

record driver_round =
  dr_event :: bool
  dr_mem :: memory
  dr_pay :: "blk_req \<Rightarrow> bytes"
  dr_reqs :: "blk_req list"

definition round_run :: "machine_env \<Rightarrow> u32 \<Rightarrow> addr \<Rightarrow> driver_round \<Rightarrow> machine \<Rightarrow> machine option" where
  "round_run env v a r m =
     (let m1 = m\<lparr>m_blk := (m_blk m)\<lparr>ram := dr_mem r\<rparr>\<rparr> in
      if dr_event r
      then do { (stop, e, b) \<leftarrow> ioeventfd_events (virtio_pci_ioevent_callback (virtio_blk_handle_output (me_blk env))) [of_nat a]
                  (ioev (m_blk m1)) (m_blk m1);
                if stop then None else Some (m1\<lparr>m_blk := b\<lparr>ioev := e\<rparr>\<rparr>) }
      else case vcpu_exit env True (reg_write v 60 (le_bytes 2 (0 :: u16))) (Some 0) m1 of
             Some (Inr (ret, m2)) \<Rightarrow> Some m2
           | _ \<Rightarrow> None)"

primrec rounds_run :: "machine_env \<Rightarrow> u32 \<Rightarrow> addr \<Rightarrow> driver_round list \<Rightarrow> machine \<Rightarrow> machine option" where
  "rounds_run env v a [] m = Some m"
| "rounds_run env v a (r # rs) m = do { m' \<leftarrow> round_run env v a r m; rounds_run env v a rs m' }"

text \<open>What the rounds mean on the abstract disk, and how far they take the queue.\<close>

definition rounds_disk :: "driver_round list \<Rightarrow> bytes \<Rightarrow> bytes" where
  "rounds_disk rs dk = fold (\<lambda>r dk. snd (blk_serve (dr_pay r) (dr_reqs r) dk)) rs dk"

definition rounds_len :: "driver_round list \<Rightarrow> nat" where
  "rounds_len rs = 3 * (\<Sum>r\<leftarrow>rs. length (dr_reqs r))"

text \<open>The requests of a round are well formed and lie in the ring at position \<open>p\<close>; \<open>s\<close> gives the memory slots and the disk size.\<close>

definition round_ok :: "blk_state \<Rightarrow> virtq \<Rightarrow> nat \<Rightarrow> driver_round \<Rightarrow> bool" where
  "round_ok s q p r \<longleftrightarrow> ram_keeps (ram s) (dr_mem r) \<and> queued (s\<lparr>ram := dr_mem r\<rparr>) q p (dr_pay r) (dr_reqs r) \<and>
     queue_ends (dr_mem r) q p (length (dr_reqs r)) \<and> event_apart q (dr_reqs r) \<and>
     host_load (dr_mem r) (guest_event q + 2) 2 \<noteq> (None :: u16 option)"

primrec rounds_ok :: "blk_state \<Rightarrow> virtq \<Rightarrow> nat \<Rightarrow> driver_round list \<Rightarrow> bool" where
  "rounds_ok s q p [] \<longleftrightarrow> True"
| "rounds_ok s q p (r # rs) \<longleftrightarrow> round_ok s q p r \<and> rounds_ok s q (p + 3 * length (dr_reqs r)) rs"

lemma rounds_ok_append: "rounds_ok s q p (xs @ ys) \<longleftrightarrow> rounds_ok s q p xs \<and> rounds_ok s q (p + rounds_len xs) ys"
  by (induction xs arbitrary: p) (auto simp: rounds_len_def algebra_simps)

lemma same_ring_irrelevant:
  assumes "same_ring q q'"
  shows "queued s q' = queued s q" "queue_ends st q' = queue_ends st q" "event_apart q' = event_apart q" "ring_mapped st q' = ring_mapped st q"
    "info_enable q' = info_enable q" "req_done st q' = req_done st q" "guest_event q' = guest_event q"
proof -
  have e: "info_size q' = info_size q" "desc_at q' = desc_at q" "ring_extent q' = ring_extent q" "guest_event q' = guest_event q"
    "info_enable q' = info_enable q" "desc_ring q' = desc_ring q"
    using assms by (auto simp: same_ring_def desc_at_def info_size_def info_enable_def ring_extent_def fun_eq_iff)
  show "queued s q' = queued s q" "queue_ends st q' = queue_ends st q" "event_apart q' = event_apart q" "ring_mapped st q' = ring_mapped st q"
    "info_enable q' = info_enable q" "req_done st q' = req_done st q" "guest_event q' = guest_event q"
    by (simp_all add: fun_eq_iff queued_def queue_ends_def event_apart_def ring_mapped_def req_done_def req_chain_def e)
qed

lemma round_ok_later:
  assumes "same_ring q q'" "ram_keeps (ram s) (ram s')" "disk_size s' = disk_size s"
  shows "round_ok s' q' p r = round_ok s q p r"
proof -
  have "ram_keeps (ram s') st = ram_keeps (ram s) st" for st using assms(2) by (auto simp: ram_keeps_def)
  then show ?thesis using assms(3) by (simp add: round_ok_def same_ring_irrelevant [OF assms(1)]) (simp add: queued_def)
qed

text \<open>One round.\<close>

lemma round_serves:
  assumes o: "online v a m q p" and e: "env_ok (me_blk env)" and r: "round_ok (m_blk m) q p r"
  shows "\<exists>m' q'. round_run env v a r m = Some m' \<and> online v a m' q' (p + 3 * length (dr_reqs r)) \<and> same_ring q q' \<and>
    ram_keeps (ram (m_blk m)) (ram (m_blk m')) \<and> disk_size (m_blk m') = disk_size (m_blk m) \<and>
    disk (m_blk m') = snd (blk_serve (dr_pay r) (dr_reqs r) (disk (m_blk m))) \<and>
    (\<forall>k < length (dr_reqs r). req_done (ram (m_blk m')) q (p + 3 * k) (fst (blk_serve (dr_pay r) (dr_reqs r) (disk (m_blk m))) ! k) (dr_reqs r ! k))"
proof -
  let ?m = "m\<lparr>m_blk := (m_blk m)\<lparr>ram := dr_mem r\<rparr>\<rparr>"
  obtain ev :: u16 where ev: "host_load (ram (m_blk ?m)) (guest_event q + 2) 2 = Some ev" using r by (auto simp: round_ok_def)
  have keep: "ram_keeps (ram (m_blk m)) (dr_mem r)" using r by (simp add: round_ok_def)
  then have "dom (hmem (dr_mem r)) = dom (hmem (ram (m_blk m)))" by (simp add: ram_keeps_def)
  note mapped_dom [OF this]
  then have "blk_at (m_blk ?m) 0 q p" using o by (simp add: online_def blk_at_def ring_mapped_def)
  then have rdy: "ready (m_blk ?m) 0 q p (dr_pay r) (dr_reqs r)" using o r by (simp add: ready_def online_def round_ok_def)
  have bd: "bar_decoded ?m (ucast v)" using o by (simp add: online_def bar_decoded_def m_io_def)
  obtain d where d: "ioevents (ioev (m_blk ?m)) (unat (of_nat a :: u64)) = Some d" "ev_fn_ptr d = 0"
      "data_fd (of_nat a) \<noteq> epoll_stop_fd (ioev (m_blk ?m))"
    using o by (auto simp: online_def unsigned_of_nat take_bit_nat_eq_self)
  obtain m' where m': "round_run env v a r m = Some m'" "m' = ?m\<lparr>m_blk := m_blk m'\<rparr>" "all_served (m_blk ?m) 0 q p (dr_pay r) (dr_reqs r) ev (m_blk m')"
  proof (cases "dr_event r")
    case True
    from doorbell_event [OF rdy e ev d] obtain m' where
      m': "ioeventfd_events (virtio_pci_ioevent_callback (virtio_blk_handle_output (me_blk env))) [of_nat a] (ioev (m_blk ?m)) (m_blk ?m) =
        Some (False, ioev (m_blk ?m), m_blk m')" "m' = ?m\<lparr>m_blk := m_blk m'\<rparr>" "all_served (m_blk ?m) 0 q p (dr_pay r) (dr_reqs r) ev (m_blk m')"
      by (elim exE conjE) (rule that)
    have "(m_blk m')\<lparr>ioev := ioev (m_blk m)\<rparr> = m_blk m'" using m'(3) by (simp add: all_served_def disk_keeps_def)
    then have "round_run env v a r m = Some (?m\<lparr>m_blk := m_blk m'\<rparr>)" using True m'(1) by (simp add: round_run_def Let_def del: ioeventfd_events.simps)
    then show ?thesis unfolding m'(2) [symmetric] by (rule that [OF _ m'(2,3)])
  next
    case False
    have "\<exists>m'. vcpu_exit env True (reg_write v 60 (le_bytes 2 (0 :: u16))) (Some 0) ?m = Some (Inr (Some 0, m')) \<and> machine_step env ?m m' \<and>
        m' = ?m\<lparr>m_blk := m_blk m'\<rparr> \<and> all_served (m_blk ?m) 0 q p (dr_pay r) (dr_reqs r) ev (m_blk m')"
      unfolding reg_write_def by (rule doorbell_exit [OF rdy e ev]) (use bd in \<open>simp_all add: const_simps\<close>)
    then obtain m' where m': "vcpu_exit env True (reg_write v 60 (le_bytes 2 (0 :: u16))) (Some 0) ?m = Some (Inr (Some 0, m'))"
        "m' = ?m\<lparr>m_blk := m_blk m'\<rparr>" "all_served (m_blk ?m) 0 q p (dr_pay r) (dr_reqs r) ev (m_blk m')"
      by (elim exE conjE) (rule that)
    show ?thesis by (rule that [OF _ m'(2,3)]) (use m'(1) False in \<open>simp add: round_run_def Let_def\<close>)
  qed
  have k: "pci (m_blk m') = pci (m_blk m)" "ioev (m_blk m') = ioev (m_blk m)" "disk_size (m_blk m') = disk_size (m_blk m)"
      "ram_keeps (dr_mem r) (ram (m_blk m'))" "vp_dev (vdev (m_blk m')) = vp_dev (vdev (m_blk m))" "vdev_wf (vdev (m_blk m'))"
    using m'(3) o by (simp_all add: all_served_def disk_keeps_def online_def)
  obtain q' where q': "blk_at (m_blk m') 0 q' (p + 3 * length (dr_reqs r))" "same_ring q q'"
    using m'(3) by (auto simp: all_served_def drained_def)
  have "bar_decoded m' (ucast v)" using o k(1,5) by (simp add: online_def bar_decoded_def m_io_def)
  then have "online v a m' q' (p + 3 * length (dr_reqs r))" using o k(2,6) q' by (simp add: online_def same_ring_irrelevant [OF q'(2)])
  then show ?thesis
    using m'(1,3) q'(2) k(3) ram_keeps_trans [OF keep k(4)]
    by (intro exI [of _ m'] exI [of _ q']) (simp add: all_served_def drained_def)
qed

text \<open>Any number of rounds.\<close>

lemma rounds_serve:
  assumes "env_ok (me_blk env)"
  shows "online v a m q p \<Longrightarrow> rounds_ok (m_blk m) q p rs \<Longrightarrow>
    \<exists>m' q'. rounds_run env v a rs m = Some m' \<and> online v a m' q' (p + rounds_len rs) \<and> same_ring q q' \<and>
      ram_keeps (ram (m_blk m)) (ram (m_blk m')) \<and> disk_size (m_blk m') = disk_size (m_blk m) \<and>
      disk (m_blk m') = rounds_disk rs (disk (m_blk m))"
proof (induction rs arbitrary: m q p)
  case Nil
  then show ?case by (auto simp: rounds_len_def rounds_disk_def same_ring_def)
next
  case (Cons r rs)
  obtain m1 q1 where m1: "round_run env v a r m = Some m1" "online v a m1 q1 (p + 3 * length (dr_reqs r))" "same_ring q q1"
    "ram_keeps (ram (m_blk m)) (ram (m_blk m1))" "disk_size (m_blk m1) = disk_size (m_blk m)"
    "disk (m_blk m1) = snd (blk_serve (dr_pay r) (dr_reqs r) (disk (m_blk m)))"
    using round_serves [OF Cons.prems(1) assms, of r] Cons.prems(2) by auto
  have "rounds_ok (m_blk m1) q1 k rs = rounds_ok (m_blk m) q k rs" for k
    by (induction rs arbitrary: k) (simp_all add: round_ok_later [OF m1(3-5)])
  then have "rounds_ok (m_blk m1) q1 (p + 3 * length (dr_reqs r)) rs" using Cons.prems(2) by simp
  from Cons.IH [OF m1(2) this] m1 show ?case
    by (auto simp: rounds_len_def rounds_disk_def same_ring_def algebra_simps intro: ram_keeps_trans)
qed

lemma rounds_then_round:
  assumes e: "env_ok (me_blk env)" and o: "online v a m q 0" and r: "rounds_ok (m_blk m) q 0 (rs @ [r])"
  shows "\<exists>m1 m2. rounds_run env v a rs m = Some m1 \<and> round_run env v a r m1 = Some m2 \<and>
    disk (m_blk m2) = rounds_disk (rs @ [r]) (disk (m_blk m)) \<and>
    (\<forall>k < length (dr_reqs r). req_done (ram (m_blk m2)) q (rounds_len rs + 3 * k)
       (fst (blk_serve (dr_pay r) (dr_reqs r) (rounds_disk rs (disk (m_blk m)))) ! k) (dr_reqs r ! k))"
proof -
  have ok: "rounds_ok (m_blk m) q 0 rs" "round_ok (m_blk m) q (rounds_len rs) r" using r by (simp_all add: rounds_ok_append)
  obtain m1 q1 where m1: "rounds_run env v a rs m = Some m1" "online v a m1 q1 (rounds_len rs)" "same_ring q q1"
    "ram_keeps (ram (m_blk m)) (ram (m_blk m1))" "disk_size (m_blk m1) = disk_size (m_blk m)" "disk (m_blk m1) = rounds_disk rs (disk (m_blk m))"
    using rounds_serve [OF e o ok(1)] by auto
  have "round_ok (m_blk m1) q1 (rounds_len rs) r" using ok(2) by (simp add: round_ok_later [OF m1(3-5)])
  from round_serves [OF m1(2) e this] m1(1) show ?thesis
    unfolding same_ring_irrelevant [OF m1(3)] m1(6) by (auto simp: rounds_disk_def)
qed

section \<open>Properties\<close>

text \<open>The answers of the host under which the disk comes up and works: the event mechanism starts, the run area of the vcpu is mapped, reads and
  writes of the image do not fail, the registration of the doorbell succeeds at a fresh address, and that address is not taken for the
  stop event.\<close>

definition disk_host :: "main_env \<Rightarrow> event_env \<Rightarrow> bool" where
  "disk_host env ee \<longleftrightarrow> fst (ioeventfd_init (e_ioeventfd env) ioeventfd_0) = 0 \<and> 8 \<le> e_cfg_len env \<and>
     kvm_run (init_vcpu (e_init_vcpu env)) \<and> env_ok (me_blk (e_machine env)) \<and> (\<forall>t. events (me_blk (e_machine env)) t = ee) \<and>
     e_ioctl (ev_add ee) = 0 \<and> e_epoll_ctl (ev_add ee) = 0 \<and> 0 < e_malloc (ev_add ee) \<and> e_malloc (ev_add ee) < 2 ^ 64 \<and>
     e_malloc (ev_add ee) + IOEVENT_LIST \<noteq> used_ioevents \<and>
     data_fd (of_nat (e_malloc (ev_add ee))) \<noteq> e_eventfd (e_ioeventfd env)"

lemma main_disk_online:
  assumes host: "host_ready env st" "disk_host env ee"
    and opts: "parse_options opts no_options = Inr \<lparr>kernel_file = Some kf, initrd_file = Some rf, disk_file = Some df\<rparr>"
    and files: "e_files env kf = Some vmlinux" "e_files env rf = Some initrd" "vmlinux \<noteq> []" "initrd \<noteq> []"
      "0x1000000 + length vmlinux + length initrd + 0xfff \<le> unat RAM_SIZE" "e_files env df = Some img"
    and v: "unat v mod 256 = 0" "v \<noteq> 0" "unat v + 0x100 \<le> 2 ^ 32" "bit cmd 1"
    and q: "unat desc + 16 * 128 < unat RAM_SIZE" "unat driver + 4 < unat RAM_SIZE" "unat device + 4 < unat RAM_SIZE"
  shows "\<exists>m q addr. main (env\<lparr>e_exits := driver_setup v cmd desc driver device\<rparr>) opts machine_0 = Some (MainRunning m) \<and>
    boot_image (ram (m_blk m)) vmlinux initrd addr RAM_SIZE \<and> ram_keeps st (ram (m_blk m)) \<and> disk (m_blk m) = img \<and>
    disk_size (m_blk m) = of_nat (length img) \<and> online v (e_malloc (ev_add ee)) m q 0 \<and> info_size q = 128 \<and>
    get_userspace_addr (ram (m_blk m)) desc = Some (desc_ring q) \<and> get_userspace_addr (ram (m_blk m)) driver = Some (guest_event q) \<and>
    get_userspace_addr (ram (m_blk m)) device = Some (device_event q) \<and>
    kvm_ioeventfds (ioev (m_blk m)) = [\<lparr>ev_datamatch = 0, ev_addr = ucast v + 60, ev_len = 2,
      ev_fd = ev_eventfd ee, ev_flags = KVM_IOEVENTFD_FLAG_DATAMATCH, ev_fn_ptr = 0\<rparr>]"
proof -
  have h: "fst (ioeventfd_init (e_ioeventfd env) ioeventfd_0) = 0" "8 \<le> e_cfg_len env" "kvm_run (init_vcpu (e_init_vcpu env))"
    "\<forall>t. events (me_blk (e_machine env)) t = ee"
    using host(2) by (simp_all add: disk_host_def)
  obtain st' addr where st': "boot_image st' vmlinux initrd addr RAM_SIZE" "ram_keeps st st'" "guest_ok st' 0 (unat RAM_SIZE)"
    "\<And>m1. create_devices env (Some df) (booted env st' initrd addr) = Some (Inr m1) \<Longrightarrow> m_vcpu m1 = vcpu_0 \<Longrightarrow>
      \<exists>w calls. (\<forall>exits. main (env\<lparr>e_exits := exits\<rparr>) opts machine_0 =
          map_option (\<lambda>r. case r of Returned c m' \<Rightarrow> MainReturn 0 | Running ret m' \<Rightarrow> MainRunning m')
            (vcpu_exec (e_machine env) (kvm_run (init_vcpu (e_init_vcpu env))) exits None (m1\<lparr>m_vcpu := w, m_sets := calls\<rparr>))) \<and>
        KVM_SET_REGS (zero_regs\<lparr>rflags := 0x0002, rip := VMLINUX_START, rsp := BOOT_LOADER_SP,
          rbp := BOOT_LOADER_SP, rsi := ZERO_PAGE_START\<rparr>) \<in> set calls"
    using main_runs [OF host(1) opts files(1-5)] by (elim exE conjE) (rule that, assumption+, blast)
  have b: "pci (m_blk (booted env st' initrd addr)) = pci_state_0" "m_serial (booted env st' initrd addr) = serial_0"
    "ram (m_blk (booted env st' initrd addr)) = st'" "m_vcpu (booted env st' initrd addr) = vcpu_0"
    "ioev (m_blk (booted env st' initrd addr)) = ioeventfd_0"
    by (simp_all add: booted_def blk_0_def machine_0_def)
  obtain m1 where m1: "create_devices env (Some df) (booted env st' initrd addr) = Some (Inr m1)" "with_disk img (e_cfg_len env) st' m1"
    "m_vcpu m1 = vcpu_0" "ioev (m_blk m1) = snd (ioeventfd_init (e_ioeventfd env) ioeventfd_0)"
    using create_devices_disk [OF b(1,2) files(6) h(2)] unfolding b(3-5) by blast
  obtain w calls where run: "\<forall>exits. main (env\<lparr>e_exits := exits\<rparr>) opts machine_0 =
      map_option (\<lambda>r. case r of Returned c m' \<Rightarrow> MainReturn 0 | Running ret m' \<Rightarrow> MainRunning m')
        (vcpu_exec (e_machine env) (kvm_run (init_vcpu (e_init_vcpu env))) exits None (m1\<lparr>m_vcpu := w, m_sets := calls\<rparr>))"
    using st'(4) [OF m1(1,3)] by blast
  let ?m = "m1\<lparr>m_vcpu := w, m_sets := calls\<rparr>"
  have d: "with_disk img (e_cfg_len env) st' ?m" using m1(2) by (simp add: with_disk_def m_io_def)
  have rings: "rings_in_ram st' desc driver device" using st'(3) q unfolding rings_in_ram_def by blast
  have ev: "event_ready (ioev (m_blk ?m)) [] (ev_add ee)" "data_fd (of_nat (e_malloc (ev_add ee))) \<noteq> epoll_stop_fd (ioev (m_blk ?m))"
    "kvm_ioeventfds (ioev (m_blk ?m)) = []"
    using host(2) ioeventfd_init_0 [OF h(1)] by (simp_all add: m1(4) event_ready_def disk_host_def)
  obtain m q where m: "vcpu_exec (e_machine env) True (driver_setup v cmd desc driver device) None ?m = Some (Running (Some 0) m)"
    "online v (e_malloc (ev_add ee)) m q 0" "ram (m_blk m) = st'" "disk (m_blk m) = img" "disk_size (m_blk m) = of_nat (length img)"
    "info_size q = 128" "get_userspace_addr st' desc = Some (desc_ring q)" "get_userspace_addr st' driver = Some (guest_event q)"
    "get_userspace_addr st' device = Some (device_event q)"
    "kvm_ioeventfds (ioev (m_blk m)) = [] @ [\<lparr>ev_datamatch = 0, ev_addr = ucast v + 60, ev_len = 2,
      ev_fd = ev_eventfd ee, ev_flags = KVM_IOEVENTFD_FLAG_DATAMATCH, ev_fn_ptr = 0\<rparr>]"
    using driver_setup_online [OF d v rings h(4) ev(1,2), of None, unfolded ev(3)] by (elim exE conjE) (rule that)
  have "main (env\<lparr>e_exits := driver_setup v cmd desc driver device\<rparr>) opts machine_0 = Some (MainRunning m)"
    using run m(1) h(3) by simp
  then show ?thesis
    using m(2-10) st'(1,2) by (intro exI [of _ m] exI [of _ q] exI [of _ addr] conjI) simp_all
qed

text \<open>Property C5. A whole session, from the command line to the data of a request. With a host that answers, a kernel and a RAM disk that fit and
  an image file, \<open>main\<close> boots the guest; the driver's port and register accesses (BAR 0, the command register, the queue
  selector, the three addresses and the enable register), as exits of the vcpu loop, leave the program running with the boot
  image still in memory, the queue at the host addresses of its parts, and one doorbell registered with KVM, at the mapped registers
  plus 60. From there on, whatever rounds of well-formed requests the guest puts into its memory one after the other, each
  announced by a write of the doorbell that reaches the vcpu thread or by an event of the event thread, the program
  serves them all: the disk is the one the requests make in their order, and after every round each buffer holds what
  its request reads from that disk, each status is OK and each chain is marked used.\<close>

theorem disk_session:
  assumes "host_ready env st" "disk_host env ee"
    and "parse_options opts no_options = Inr \<lparr>kernel_file = Some kf, initrd_file = Some rf, disk_file = Some df\<rparr>"
    and "e_files env kf = Some vmlinux" "e_files env rf = Some initrd" "vmlinux \<noteq> []" "initrd \<noteq> []"
      "0x1000000 + length vmlinux + length initrd + 0xfff \<le> unat RAM_SIZE" "e_files env df = Some img"
    and "unat v mod 256 = 0" "v \<noteq> 0" "unat v + 0x100 \<le> 2 ^ 32" "bit cmd 1"
    and "unat desc + 16 * 128 < unat RAM_SIZE" "unat driver + 4 < unat RAM_SIZE" "unat device + 4 < unat RAM_SIZE"
  defines "a \<equiv> e_malloc (ev_add ee)"
  shows "\<exists>m q addr. main (env\<lparr>e_exits := driver_setup v cmd desc driver device\<rparr>) opts machine_0 = Some (MainRunning m) \<and>
    boot_image (ram (m_blk m)) vmlinux initrd addr RAM_SIZE \<and> ram_keeps st (ram (m_blk m)) \<and> disk (m_blk m) = img \<and>
    disk_size (m_blk m) = of_nat (length img) \<and> info_size q = 128 \<and>
    get_userspace_addr (ram (m_blk m)) desc = Some (desc_ring q) \<and> get_userspace_addr (ram (m_blk m)) driver = Some (guest_event q) \<and>
    kvm_ioeventfds (ioev (m_blk m)) = [\<lparr>ev_datamatch = 0, ev_addr = ucast v + 60, ev_len = 2,
      ev_fd = ev_eventfd ee, ev_flags = KVM_IOEVENTFD_FLAG_DATAMATCH, ev_fn_ptr = 0\<rparr>] \<and>
    (\<forall>rs r. rounds_ok (m_blk m) q 0 (rs @ [r]) \<longrightarrow>
      (\<exists>m1 m2. rounds_run (e_machine env) v a rs m = Some m1 \<and> round_run (e_machine env) v a r m1 = Some m2 \<and>
        disk (m_blk m2) = rounds_disk (rs @ [r]) img \<and>
        (\<forall>k < length (dr_reqs r). req_done (ram (m_blk m2)) q (rounds_len rs + 3 * k)
          (fst (blk_serve (dr_pay r) (dr_reqs r) (rounds_disk rs img)) ! k) (dr_reqs r ! k))))"
proof -
  have e: "env_ok (me_blk (e_machine env))" using assms(2) by (simp add: disk_host_def)
  obtain m q addr where m: "main (env\<lparr>e_exits := driver_setup v cmd desc driver device\<rparr>) opts machine_0 = Some (MainRunning m)"
    "boot_image (ram (m_blk m)) vmlinux initrd addr RAM_SIZE" "ram_keeps st (ram (m_blk m))" "disk (m_blk m) = img"
    "disk_size (m_blk m) = of_nat (length img)" "online v a m q 0" "info_size q = 128"
    "get_userspace_addr (ram (m_blk m)) desc = Some (desc_ring q)" "get_userspace_addr (ram (m_blk m)) driver = Some (guest_event q)"
    "get_userspace_addr (ram (m_blk m)) device = Some (device_event q)"
    "kvm_ioeventfds (ioev (m_blk m)) = [\<lparr>ev_datamatch = 0, ev_addr = ucast v + 60, ev_len = 2,
      ev_fd = ev_eventfd ee, ev_flags = KVM_IOEVENTFD_FLAG_DATAMATCH, ev_fn_ptr = 0\<rparr>]"
    using main_disk_online [OF assms(1-16), folded a_def] by (elim exE conjE) (rule that)
  show ?thesis
    using m(1-5,7-9,11) rounds_then_round [OF e m(6), unfolded m(4)] by (intro exI [of _ m] exI [of _ q] exI [of _ addr] conjI) blast+
qed

definition session_env :: main_env where
  "session_env = sample_main_env\<lparr>e_machine := sample_machine_env\<lparr>me_blk := sample_blk_env\<lparr>events := \<lambda>_. sample_event_env\<rparr>\<rparr>\<rparr>"

definition session_round :: driver_round where
  "session_round = \<lparr>dr_event = False, dr_mem = sample_blk_ram VIRTIO_BLK_T_IN 0, dr_pay = \<lambda>_. [], dr_reqs = [sample_req VIRTIO_BLK_T_IN 0]\<rparr>"

lemma session_host: "host_ready session_env sample_memory" "disk_host session_env sample_event_env"
proof -
  show "host_ready session_env sample_memory"
    using sample_mmap_contract init_sample
    by (simp add: session_env_def host_ready_def sample_main_env_def KVM_API_VERSION_def sample_vcpu_env_def sample_cpuid_def)
  show "disk_host session_env sample_event_env"
    using sample_blk_wf(2)
    by (simp add: disk_host_def session_env_def sample_main_env_def sample_machine_env_def env_ok_def sample_event_env_def
        ioeventfd_init_def Let_def init_vcpu_def data_fd_def used_ioevents_def IOEVENT_LIST_def) (simp add: sample_blk_env_def)
qed

lemma sample_ram_keeps: "ram_keeps sample_memory (sample_blk_ram t c)"
proof -
  have "mapped (hmem sample_memory) 0x100000010000 (length sample_ring_bytes)"
    "mapped (hmem (hput sample_memory 0x100000010000 sample_ring_bytes)) 0x100000040000 (length (sample_hdr t c))"
    by (simp_all add: sample_mapped sample_lengths)
  then show ?thesis
    unfolding sample_blk_ram_def hput_def by (intro ram_keeps_trans [OF upd_bytes_keeps upd_bytes_keeps]) simp_all
qed

lemma session_round_ok:
  assumes k: "ram_keeps sample_memory (ram s)" and d: "disk_size s = 3" and q: "info_size q = 128" "desc_ring q = 0x100000010000" "guest_event q = 0x100000030000"
  shows "round_ok s q 0 session_round"
proof -
  let ?st = "sample_blk_ram VIRTIO_BLK_T_IN 0" and ?r = "sample_req VIRTIO_BLK_T_IN 0"
  have e: "ring_extent q = (0x100000010000, 2048)" by (simp add: ring_extent_def q)
  have at: "desc_at q 0 = desc_at sample_blk_vq 0" "desc_at q (Suc 0) = desc_at sample_blk_vq (Suc 0)"
      "desc_at q (Suc (Suc 0)) = desc_at sample_blk_vq (Suc (Suc 0))" "desc_at q 3 = 0x100000010030"
    by (simp_all add: desc_at_def q sample_blk_vq_ring) (simp_all add: sample_blk_vq_def sample_virtq_def)
  have l: "load_bytes (hmem ?st) 0x100000040000 16 = Some (le_bytes 4 VIRTIO_BLK_T_IN @ [0, 0, 0, 0] @ le_bytes 8 (0 :: u64))"
    using sample_ram_loads(2) [of VIRTIO_BLK_T_IN 0] unfolding sample_hdr_def .
  have chain: "req_chain ?st q 0 ?r"
    unfolding req_chain_def Let_def q e at sample_req_def blk_req.simps
    by (rule exI [of _ "0x0081"], rule exI [of _ "0x0083"], rule exI [of _ "0x0082"], rule exI [of _ "0x40000"],
        rule exI [of _ "0x50000"], rule exI [of _ "0x60000"], rule exI [of _ "[0, 0, 0, 0]"], rule exI [of _ 4],
        intro conjI sample_desc_fields)
      (use l in \<open>simp_all add: sample_userspace sample_ram_mapped apart_def avail_flags_def wrap_of_def del: load_bytes.simps\<close>)
  have "of_le (take 2 (drop 62 sample_ring_bytes)) = (0 :: u16)" by code_simp
  then have "desc_flags ?st (desc_at q 3) = Some 0"
    using sample_ring_sub [of 62 2 VIRTIO_BLK_T_IN 0] by (simp add: desc_flags_def host_load_def at del: load_bytes.simps)
  then have ends: "queue_ends ?st q 0 (length [?r])" by (simp add: queue_ends_def q avail_flags_def wrap_of_def)
  have ev: "host_load ?st (guest_event q + 2) 2 \<noteq> (None :: u16 option)"
    using sample_event(1) [of VIRTIO_BLK_T_IN 0] by (simp add: q sample_blk_vq_ring sample_blk_def)
  have "ram_keeps (ram s) ?st" using k sample_ram_keeps [of VIRTIO_BLK_T_IN 0] by (simp add: ram_keeps_def)
  moreover have "queued (s\<lparr>ram := ?st\<rparr>) q 0 (\<lambda>_. []) [?r]"
    using chain by (simp add: queued_def q d) (simp add: sample_req_def const_simps)
  moreover have "event_apart q [?r]" by (simp add: event_apart_def e q req_bufs_def sample_req_def apart_def)
  ultimately show ?thesis using ends ev by (simp add: round_ok_def session_round_def)
qed

theorem disk_session_witness:
  "\<exists>m m'. main (session_env\<lparr>e_exits := driver_setup 0xFE000000 2 0x10000 0x30000 0x38000\<rparr>) [OptK ''k'', OptI ''i'', OptD ''k''] machine_0 =
       Some (MainRunning m) \<and> disk (m_blk m) = [1, 2, 3] \<and>
     round_run (e_machine session_env) 0xFE000000 0x5000 session_round m = Some m' \<and>
     load_bytes (hmem (ram (m_blk m'))) 0x100000050000 3 = Some [1, 2, 3]"
proof -
  let ?r = "sample_req VIRTIO_BLK_T_IN 0" and ?v = "0xFE000000 :: u32"
  have o: "parse_options [OptK ''k'', OptI ''i'', OptD ''k''] no_options = Inr \<lparr>kernel_file = Some ''k'', initrd_file = Some ''i'', disk_file = Some ''k''\<rparr>"
    by (simp add: no_options_def)
  have f: "e_files session_env ''k'' = Some [1, 2, 3]" "e_files session_env ''i'' = Some [4, 5]"
    "0x1000000 + length [1, 2, 3 :: u8] + length [4, 5 :: u8] + 0xfff \<le> unat RAM_SIZE" "[1, 2, 3 :: u8] \<noteq> []" "[4, 5 :: u8] \<noteq> []"
    by (simp_all add: const_simps sample_fs_def session_env_def sample_main_env_def)
  have n: "unat ?v mod 256 = 0" "?v \<noteq> 0" "unat ?v + 0x100 \<le> 2 ^ 32" "bit (2 :: u16) 1"
    "unat (0x10000 :: u64) + 16 * 128 < unat RAM_SIZE" "unat (0x30000 :: u64) + 4 < unat RAM_SIZE" "unat (0x38000 :: u64) + 4 < unat RAM_SIZE"
    by (simp_all add: const_simps bit_numeral_rec)
  have a: "e_malloc (ev_add sample_event_env) = 0x5000" by (simp add: sample_event_env_def)
  obtain m q where m: "main (session_env\<lparr>e_exits := driver_setup ?v 2 0x10000 0x30000 0x38000\<rparr>) [OptK ''k'', OptI ''i'', OptD ''k''] machine_0 =
       Some (MainRunning m)" "ram_keeps sample_memory (ram (m_blk m))" "disk (m_blk m) = [1, 2, 3]" "disk_size (m_blk m) = of_nat (length [1, 2, 3 :: u8])"
      "info_size q = 128" "get_userspace_addr (ram (m_blk m)) 0x10000 = Some (desc_ring q)" "get_userspace_addr (ram (m_blk m)) 0x30000 = Some (guest_event q)"
    and serve: "\<forall>rs r. rounds_ok (m_blk m) q 0 (rs @ [r]) \<longrightarrow>
      (\<exists>m1 m2. rounds_run (e_machine session_env) ?v 0x5000 rs m = Some m1 \<and> round_run (e_machine session_env) ?v 0x5000 r m1 = Some m2 \<and>
        disk (m_blk m2) = rounds_disk (rs @ [r]) [1, 2, 3] \<and>
        (\<forall>k < length (dr_reqs r). req_done (ram (m_blk m2)) q (rounds_len rs + 3 * k)
          (fst (blk_serve (dr_pay r) (dr_reqs r) (rounds_disk rs [1, 2, 3])) ! k) (dr_reqs r ! k)))"
    using disk_session [OF session_host o f(1,2,4,5,3,1) n, unfolded a] by (elim exE conjE) (rule that)
  have g: "get_userspace_addr (ram (m_blk m)) x = get_userspace_addr (sample_blk_ram VIRTIO_BLK_T_IN 0) x" for x
    using m(2) sample_ram_keeps [of VIRTIO_BLK_T_IN 0] by (simp add: ram_keeps_def get_userspace_addr_def find_mapper_index_def)
  have "round_ok (m_blk m) q 0 session_round"
    by (rule session_round_ok) (use m(2,4-7) in \<open>simp_all add: g sample_userspace\<close>)
  with serve [rule_format, of "[]" session_round] obtain m' where
    m': "round_run (e_machine session_env) ?v 0x5000 session_round m = Some m'" "req_done (ram (m_blk m')) q 0 [1, 2, 3] ?r"
    by (auto simp: session_round_def rounds_len_def rounds_disk_def blk_xfer_def sample_req_def br_offset_def)
  then have "load_bytes (hmem (ram (m_blk m'))) (unat (br_data ?r)) (length [1, 2, 3 :: u8]) = Some [1, 2, 3]" unfolding req_done_def by blast
  moreover have "length [1, 2, 3 :: u8] = 3" "br_data ?r = 0x100000050000" by (simp_all add: sample_req_def)
  ultimately have "load_bytes (hmem (ram (m_blk m'))) 0x100000050000 3 = Some [1, 2, 3]" by (simp only: unat_numeral) simp
  then show ?thesis using m(1,3) m'(1) by blast
qed

end
