(* ===== verification/Ports.thy ===== *)
theory Ports
  imports Enumeration
begin

text \<open>
  The port space under an arbitrary guest. A BAR that is reprogrammed while it is decoded can close the
  list of the MMIO bus to a cycle, after which lookups there never end. The lists of the port bus and of
  the PCI bus hold no BARs: they stay as device creation left them, so that every port access
  has an outcome in every machine the guest can reach.
\<close>

section \<open>Links\<close>

text \<open>The regions that move.\<close>

fun movable :: "region_id \<Rightarrow> bool" where
  "movable (BarRegion d i) = True"
| "movable r = False"

definition bar_link :: "region_id option \<Rightarrow> bool" where
  "bar_link p \<longleftrightarrow> (\<forall>r. p = Some r \<longrightarrow> movable r)"

text \<open>The BARs are linked among themselves, from the head of the MMIO bus on; the other two lists are untouched.\<close>

definition ports_linked :: "iobus \<Rightarrow> bool" where
  "ports_linked h \<longleftrightarrow> config_wired h \<and> bar_link (bus_head (buses h MmioBus)) \<and>
     (\<forall>r. movable r \<longrightarrow> bar_link (r_next (regions h r)) \<and> r_bus (regions h r) \<in> {None, Some MmioBus})"

lemma bar_link_simps [simp]: "bar_link None" "bar_link (Some r) \<longleftrightarrow> movable r"
  by (simp_all add: bar_link_def)

lemma ports_linkedD:
  assumes "ports_linked h"
  shows "config_wired h" "bar_link (bus_head (buses h MmioBus))" "movable r \<Longrightarrow> bar_link (r_next (regions h r))"
    "movable r \<Longrightarrow> r_bus (regions h r) = None \<or> r_bus (regions h r) = Some MmioBus"
  using assms unfolding ports_linked_def by blast+

text \<open>What the configuration mechanism rests on is not changed by a store into the BAR regions and the head of the
  MMIO bus.\<close>

lemma config_wired_frame:
  assumes "config_wired h" "\<And>r. \<not> movable r \<Longrightarrow> r_next (regions h' r) = r_next (regions h r) \<and> region_io (regions h' r) = region_io (regions h r)"
    "\<And>b. b \<noteq> MmioBus \<Longrightarrow> bus_head (buses h' b) = bus_head (buses h b)"
  shows "config_wired h'"
proof -
  have "chain (regions h') p xs = chain (regions h) p xs" if "\<And>r. r \<in> set xs \<Longrightarrow> \<not> movable r" for p xs
    using assms(2) that by (intro chain_cong) blast
  moreover have m: "\<forall>r \<in> set (boot_lists PioBus). \<not> movable r" "\<forall>r \<in> set [ConfigRegion 0]. \<not> movable r" by (simp_all add: boot_lists_def)
  ultimately have "chain (regions h') p (boot_lists PioBus) = chain (regions h) p (boot_lists PioBus)"
    "chain (regions h') p [ConfigRegion 0] = chain (regions h) p [ConfigRegion 0]" for p by blast+
  then show ?thesis using assms(1) m by (simp add: config_wired_def assms(2,3) del: chain.simps)
qed

text \<open>A store into the lists that keeps the links among BARs.\<close>

lemma ports_linked_frame:
  assumes "ports_linked h" "\<And>q. q = r \<or> regions h' q = regions h q" "\<And>b. b \<noteq> MmioBus \<Longrightarrow> bus_head (buses h' b) = bus_head (buses h b)"
    and "movable r" "bar_link (r_next (regions h' r))" "r_bus (regions h' r) \<in> {None, Some MmioBus}"
    and "bar_link (bus_head (buses h' MmioBus))"
  shows "ports_linked h'"
proof -
  have "config_wired h'" by (rule config_wired_frame [OF ports_linkedD(1) [OF assms(1)]]) (use assms(2-4) in metis)+
  moreover have "bar_link (r_next (regions h' q)) \<and> r_bus (regions h' q) \<in> {None, Some MmioBus}" if "movable q" for q
    using assms(2) [of q] ports_linkedD(3,4) [OF assms(1) that] assms(5,6) by auto
  ultimately show ?thesis using assms(7) unfolding ports_linked_def by blast
qed

lemma ports_linked_register:
  assumes "ports_linked h" "movable r"
  shows "ports_linked (iobus_register_region MmioBus r h)"
  by (rule ports_linked_frame [OF assms(1), where r = r])
    (use assms(2) ports_linkedD(2) [OF assms(1)] in \<open>simp_all add: iobus_register_region_def store_defs Let_def\<close>)

lemma ports_linked_base:
  assumes "ports_linked h" "movable r"
  shows "ports_linked (upd_region r (r_base_update f) h)"
  by (rule ports_linked_frame [OF assms(1), where r = r])
    (use assms(2) ports_linkedD [OF assms(1)] in \<open>simp_all add: upd_region_def\<close>)

text \<open>The cursor of \<open>iobus_deregister_region\<close>, if the search ends, is in the MMIO list.\<close>

fun bar_loc :: "loc \<Rightarrow> bool" where
  "bar_loc (HeadLoc b) \<longleftrightarrow> b = MmioBus"
| "bar_loc (NextLoc r) \<longleftrightarrow> movable r"

lemma bar_loc_deref: "ports_linked h \<Longrightarrow> bar_loc p \<Longrightarrow> bar_link (deref h p)"
  by (cases p) (simp_all add: ports_linkedD)

lemma find_link_bar:
  assumes "ports_linked h" "find_link h p r = Some l" "bar_loc p"
  shows "bar_loc l"
proof -
  have "ports_linked h \<longrightarrow> bar_loc p \<longrightarrow> bar_loc l"
  proof (rule find_link.raw_induct [where P = "\<lambda>h p r l. ports_linked h \<longrightarrow> bar_loc p \<longrightarrow> bar_loc l", OF _ assms(2)])
    fix rec h p r l
    assume IH: "\<And>h p r l. rec h p r = Some l \<Longrightarrow> ports_linked h \<longrightarrow> bar_loc p \<longrightarrow> bar_loc l"
      and body: "(case deref h p of None \<Rightarrow> Some p | Some q \<Rightarrow> if q = r then Some p else rec h (NextLoc q) r) = Some l"
    show "ports_linked h \<longrightarrow> bar_loc p \<longrightarrow> bar_loc l"
    proof (intro impI)
      assume h: "ports_linked h" "bar_loc p"
      show "bar_loc l"
      proof (cases "deref h p")
        case None
        then show ?thesis using body h(2) by simp
      next
        case (Some q)
        then have "bar_loc (NextLoc q)" using bar_loc_deref [OF h] by simp
        then show ?thesis using body Some h IH [of h "NextLoc q" r l] by (cases "q = r") simp_all
      qed
    qed
  qed
  then show ?thesis using assms by blast
qed

lemma ports_linked_assign:
  assumes "ports_linked h" "bar_loc p" "bar_link v"
  shows "ports_linked (assign p v h)"
proof (cases p)
  case (HeadLoc b)
  show ?thesis
    by (rule ports_linked_frame [OF assms(1), where r = "BarRegion 0 0"])
      (use assms(2,3) HeadLoc ports_linkedD(3,4) [OF assms(1), of "BarRegion 0 0"] in \<open>simp_all add: upd_bus_def\<close>)
next
  case (NextLoc q)
  show ?thesis
    by (rule ports_linked_frame [OF assms(1), where r = q])
      (use assms(2,3) NextLoc ports_linkedD(2) [OF assms(1)] ports_linkedD(4) [OF assms(1), of q] in \<open>simp_all add: upd_region_def\<close>)
qed

lemma ports_linked_deregister:
  assumes "ports_linked h" "movable r" "iobus_deregister_region r h = Some h'"
  shows "ports_linked h'"
proof (cases "r_bus (regions h r)")
  case None
  then show ?thesis using assms by (simp add: iobus_deregister_region_def)
next
  case (Some b)
  then have b: "b = MmioBus" using ports_linkedD(4) [OF assms(1,2)] by simp
  then obtain p where p: "find_link h (HeadLoc MmioBus) r = Some p"
    "(case deref h p of None \<Rightarrow> Some h | Some q \<Rightarrow> Some (assign p (r_next (regions h q)) h)) = Some h'"
    using assms(3) Some by (auto simp: iobus_deregister_region_def split: Option.bind_splits)
  have l: "bar_loc p" using find_link_bar [OF assms(1) p(1)] by simp
  have "bar_link (r_next (regions h q))" if "deref h p = Some q" for q
    using bar_loc_deref [OF assms(1) l] that ports_linkedD(3) [OF assms(1)] by simp
  then show ?thesis using p(2) assms(1) l by (auto intro: ports_linked_assign split: option.splits)
qed

section \<open>The PCI state\<close>

text \<open>The sizes of a device's objects and the kinds of its BARs; no configuration write changes them.\<close>

definition dev_shape :: "pci_dev \<Rightarrow> nat \<times> u32 list \<times> nat \<times> bool list" where
  "dev_shape dev = (length (cfg_space dev), bar_size dev, length (bar_active dev), bar_is_io_space dev)"

definition pci_shape :: "pci_state \<Rightarrow> nat \<Rightarrow> nat \<times> u32 list \<times> nat \<times> bool list" where
  "pci_shape p = (\<lambda>d. dev_shape (pci_devs p d))"

lemma dev_shape_upd [simp]:
  "dev_shape (dev\<lparr>bar_active := (bar_active dev)[i := b]\<rparr>) = dev_shape dev"
  "length c = length (cfg_space dev) \<Longrightarrow> dev_shape (dev\<lparr>cfg_space := c\<rparr>) = dev_shape dev"
  by (simp_all add: dev_shape_def)

lemma pci_shape_upd:
  "dev_shape (f (pci_devs p d)) = dev_shape (pci_devs p d) \<Longrightarrow> pci_shape (upd_dev d f p) = pci_shape p"
  "pci_shape (p\<lparr>io := h\<rparr>) = pci_shape p"
  by (auto simp: pci_shape_def fun_eq_iff)

lemma bar_command_shape: "bar_command d eio emem i p = Some p' \<Longrightarrow> pci_shape p' = pci_shape p"
  by (auto simp: bar_command_def set_active_def Let_def pci_shape_upd split: if_splits Option.bind_splits)

text \<open>No device has a BAR in the port space, and the address register is aligned.\<close>

definition mem_bars :: "pci_dev \<Rightarrow> bool" where
  "mem_bars dev \<longleftrightarrow> (\<forall>i<PCI_STD_NUM_BARS. \<not> bar_is_io_space dev ! i)"

definition ports_ok :: "pci_state \<Rightarrow> bool" where
  "ports_ok p \<longleftrightarrow> ports_linked (io p) \<and> (\<forall>d. mem_bars (pci_devs p d)) \<and> 4 dvd unat (pci_addr p) \<and> dev_wf (pci_devs p 0)"

text \<open>Whatever keeps the shape of the devices keeps the kinds of their BARs.\<close>

lemma ports_ok_shape:
  assumes "ports_ok p" "pci_shape p' = pci_shape p" "ports_linked (io p')" "4 dvd unat (pci_addr p')"
  shows "ports_ok p'"
proof -
  have "dev_shape (pci_devs p' d) = dev_shape (pci_devs p d)" for d using assms(2) by (simp add: pci_shape_def fun_eq_iff)
  then show ?thesis using assms(1,3,4) by (simp add: ports_ok_def mem_bars_def dev_shape_def dev_wf_def)
qed

lemma bar_command_linked:
  assumes "ports_linked (io p)" "\<not> bar_is_io_space (pci_devs p d) ! i" "bar_command d eio emem i p = Some p'"
  shows "ports_linked (io p') \<and> pci_addr p' = pci_addr p"
  using assms
  by (auto simp: bar_command_def Let_def set_active_def intro!: ports_linked_register
      dest: ports_linked_deregister [of _ "BarRegion d i", rotated 2] split: if_splits Option.bind_splits)

lemma bar_commands_ok:
  assumes "ports_ok p" "set is \<subseteq> {..<PCI_STD_NUM_BARS}" "bar_commands d eio emem is p = Some p'"
  shows "ports_ok p'"
  using assms
proof (induction "is" arbitrary: p)
  case (Cons i "is")
  then obtain q where q: "bar_command d eio emem i p = Some q" "bar_commands d eio emem is q = Some p'"
    by (auto split: Option.bind_splits)
  have "ports_linked (io q) \<and> pci_addr q = pci_addr p"
    using Cons.prems(1,2) by (intro bar_command_linked [OF _ _ q(1)]) (simp_all add: ports_ok_def mem_bars_def)
  then have "ports_ok q"
    using Cons.prems(1) by (intro ports_ok_shape [OF Cons.prems(1) bar_command_shape [OF q(1)]]) (simp_all add: ports_ok_def)
  then show ?case using Cons.IH q(2) Cons.prems(2) by simp
qed simp

lemma ports_ok_cfg:
  assumes "ports_ok p" "length c = length (cfg_space (pci_devs p d))"
  shows "ports_ok (upd_dev d (\<lambda>dev. dev\<lparr>cfg_space := c\<rparr>) p)"
  using assms by (intro ports_ok_shape [OF assms(1)] pci_shape_upd) (simp_all add: ports_ok_def)

lemma pci_bar_config_ok:
  assumes "ports_ok p" "pci_bar_config d bar p = Some p'"
  shows "ports_ok p'"
proof -
  obtain dev v where p': "p' = upd_dev d (\<lambda>_. dev) (p\<lparr>io := upd_region (BarRegion d (unat bar)) (r_base_update (\<lambda>_. v)) (io p)\<rparr>)"
    using assms(2) by (auto simp: pci_bar_config_def Let_def split: Option.bind_splits)
  have "pci_shape p' = pci_shape p"
    using assms(2) by (auto simp: pci_bar_config_def PCI_HDR_WRITE_def Let_def pci_shape_upd length_obj_write split: Option.bind_splits)
  then show ?thesis
    by (rule ports_ok_shape [OF assms(1)]) (use assms(1) in \<open>auto simp: p' ports_ok_def intro: ports_linked_base\<close>)
qed

lemma pci_config_write_ok:
  assumes "ports_ok p" "pci_config_write d data off sz p = Some p'"
  shows "ports_ok p'"
proof -
  obtain bs c where c: "obj_write (cfg_space (pci_devs p d)) (unat off) bs = Some c" and bs: "buf_take data sz = Some bs"
    using assms(2) unfolding pci_config_write_def bind_eq_Some_conv by blast
  define p1 where "p1 = upd_dev d (\<lambda>dev. dev\<lparr>cfg_space := c\<rparr>) p"
  have p1: "ports_ok p1" unfolding p1_def by (rule ports_ok_cfg [OF assms(1) length_obj_write [OF c]])
  define bar :: u8 where "bar = ucast (drop_bit 2 (off - of_nat PCI_BASE_ADDRESS_0))"
  have "(if unat off = PCI_COMMAND then pci_bar_command d p1
      else if unat off \<ge> PCI_BASE_ADDRESS_0 \<and> unat off \<le> PCI_BASE_ADDRESS_5 then pci_bar_config d bar p1 else Some p1) = Some p'"
    using assms(2) unfolding pci_config_write_def by (simp only: bs c bind.bind_lunit Let_def bar_def p1_def)
  then consider "pci_bar_command d p1 = Some p'" | "pci_bar_config d bar p1 = Some p'" | "p' = p1"
    by (metis option.inject)
  then show ?thesis
  proof cases
    case 1
    then obtain cmd where "bar_commands d (cmd AND PCI_COMMAND_IO \<noteq> 0) (cmd AND PCI_COMMAND_MEMORY \<noteq> 0) [0..<PCI_STD_NUM_BARS] p1 = Some p'"
      unfolding pci_bar_command_def bind_eq_Some_conv by blast
    then show ?thesis by (rule bar_commands_ok [OF p1, rotated]) auto
  next
    case 2
    with p1 show ?thesis by (rule pci_bar_config_ok)
  qed (use p1 in simp)
qed

lemma aligned_addr: "4 dvd unat (a AND NOT 3 :: u32)"
proof -
  have "take_bit 2 (a AND NOT (mask 2)) = 0" by (rule bit_eqI) (auto simp: bit_simps)
  then have "take_bit 2 (unat (a AND NOT (mask 2))) = 0" by (simp flip: unsigned_take_bit_eq)
  then show ?thesis by (simp add: take_bit_eq_mod mask_eq_exp_minus_1 mod_eq_0_iff_dvd)
qed

lemma pci_handlers_ok:
  "ports_ok p \<Longrightarrow> pci_config_handle_io off sz data w own p = Some (data', p') \<Longrightarrow> ports_ok p'"
  "ports_ok p \<Longrightarrow> pcibus_addr_io off sz data w own p = Some (data', p') \<Longrightarrow> ports_ok p'"
proof -
  show "ports_ok p \<Longrightarrow> pci_config_handle_io off sz data w own p = Some (data', p') \<Longrightarrow> ports_ok p'"
    by (auto simp: pci_config_handle_io_def split: owner.splits if_splits Option.bind_splits intro: pci_config_write_ok)
  show "ports_ok p \<Longrightarrow> pcibus_addr_io off sz data w own p = Some (data', p') \<Longrightarrow> ports_ok p'"
    using aligned_addr by (auto simp: pcibus_addr_io_def ports_ok_def split: if_splits Option.bind_splits)
qed

section \<open>The machine\<close>

text \<open>Neither the request handler nor the register window of the disk touches the PCI state.\<close>

definition same_pci :: "blk_state \<Rightarrow> blk_state \<Rightarrow> bool" where
  "same_pci s s' \<longleftrightarrow> pci s' = pci s"

interpretation pcik: blk_relation same_pci
proof unfold_locales
  fix s s' :: blk_state and i d env data sector n
  show "blk_get_avail i s = Some (d, s') \<Longrightarrow> same_pci s s'"
    by (auto simp: blk_get_avail_def same_pci_def split: Option.bind_splits)
  show "same_pci s (snd (virtio_blk_read env data sector n s))" "same_pci s (snd (virtio_blk_write env data sector n s))"
    by (auto simp: virtio_blk_read_def virtio_blk_write_def diskimg_read_def diskimg_write_def same_pci_def Let_def split: option.splits)
  show "blk_interrupt i s = Some s' \<Longrightarrow> same_pci s s'"
    by (auto simp: blk_interrupt_def same_pci_def split: Option.bind_splits if_splits)
qed (simp_all add: same_pci_def)

interpretation pciw: window_relation same_pci "virtio_blk_handle_output env" for env
proof unfold_locales
  fix s s' :: blk_state and i f and eenv :: "blk_state \<Rightarrow> event_env"
  show "virtio_blk_handle_output env i s = Some s' \<Longrightarrow> same_pci s s'" by (rule pcik.handle_output)
  show "on_dev f s = Some s' \<Longrightarrow> same_pci s s'" by (auto simp: on_dev_def same_pci_def split: Option.bind_splits)
  show "virtio_pci_cmd_enable_virtq eenv s = Some s' \<Longrightarrow> same_pci s s'"
    by (auto simp: virtio_pci_cmd_enable_virtq_def virtio_pci_init_ioeventfd_def Let_def same_pci_def split: Option.bind_splits)
qed (simp_all add: same_pci_def)

definition machine_ports :: "machine \<Rightarrow> bool" where
  "machine_ports m \<longleftrightarrow> ports_ok (pci (m_blk m)) \<and> serial_inv (m_serial m)"

lemma machine_ports_blk: "machine_ports m \<Longrightarrow> same_pci (m_blk m) b \<Longrightarrow> machine_ports (m\<lparr>m_blk := b\<rparr>)"
  by (simp add: machine_ports_def same_pci_def)

lemma io_call_ports:
  "machine_ports m \<Longrightarrow> io_call env n fn off sz data w own m = Some (data', m') \<Longrightarrow> machine_ports m'"
proof (induction n arbitrary: fn off sz data w own m data' m')
  case (Suc n)
  have "handler_inv (io_call env n) machine_ports" by unfold_locales (rule Suc.IH)
  note sub = handler_inv.bus_handle_io_keeps [OF this]
  show ?case
    using Suc.prems
    by (cases fn)
      (auto simp: on_pci_def on_blk_def on_serial_def pcibus_data_io_def Let_def
        intro: machine_ports_blk pciw.iospace sub split: Option.bind_splits,
       auto simp: machine_ports_def intro: serial_handle_io_inv pci_handlers_ok)
qed simp

interpretation mports: handler_inv "io_call env n" m_io machine_ports for env n
  by unfold_locales (rule io_call_ports)

lemma machine_step_ports: "machine_step env m m' \<Longrightarrow> machine_ports m \<Longrightarrow> machine_ports m'"
proof (induction rule: machine_step.induct)
  case (pio run m run' m')
  then show ?case by (blast intro: mports.handle_pio_keeps)
next
  case (mmio mrun m mrun' m')
  then show ?case by (blast intro: mports.handle_mmio_keeps)
next
  case (recv b m s)
  then show ?case by (auto simp: machine_ports_def intro: serial_step_inv serial_step.recv)
next
  case (event ds m stop e b)
  then have "same_pci (m_blk m) (b\<lparr>ioev := e\<rparr>)" by (auto dest!: pciw.events simp: same_pci_def)
  with event.prems show ?case by (rule machine_ports_blk)
qed

lemma machine_reach_ports: "machine_reach env m0 m \<Longrightarrow> machine_ports m0 \<Longrightarrow> machine_ports m"
  by (induction rule: machine_reach.induct) (auto intro: machine_step_ports)

lemma with_disk_ports:
  assumes "with_disk img n st m"
  shows "machine_ports m"
proof -
  have w: "config_wired (m_io m)" by (rule with_disk_wired [OF assms])
  have io: "m_io m = disk_io" "serial_inv (m_serial m)" using assms by (simp_all add: with_disk_def)
  have "bus_head (buses disk_io MmioBus) = None"
    using bus_repr_chain [of disk_io disk_lists MmioBus] assms by (auto simp: with_disk_def bars_synced_def m_io_def disk_lists_pio)
  moreover have "r_next (regions disk_io r) = None \<and> r_bus (regions disk_io r) = None" if "movable r" for r
    using that by (cases r) (simp_all add: disk_io_def pci_dev_init_def pcibus_register_dev_def clear_regions_def zero_io_region_def
      boot_io_def create_serial_dev_def pcibus_init_def Let_def pci_state_0_def iobus_init_def iobus_0_def region_init_def iobus_register_region_def store_defs)
  ultimately have "ports_linked (m_io m)" using w by (simp add: ports_linked_def io)
  moreover have "mem_bars zero_dev" "mem_bars (blk_pci_dev\<lparr>cfg_space := c\<rparr>)" for c
    by (simp_all add: mem_bars_def zero_dev_def blk_pci_dev_def const_simps nth_list_update)
  moreover have "dev_wf (pci_devs (pci (m_blk m)) 0)" using assms unfolding with_disk_def bars_synced_def by blast
  ultimately show ?thesis using assms by (simp add: machine_ports_def ports_ok_def with_disk_def m_io_def)
qed

section \<open>Port accesses\<close>

lemma serial_call_ok:
  assumes "serial_inv s" "data \<noteq> []"
  shows "\<exists>data' s'. serial_handle_io ret0 off data w s = Some (data', s') \<and> length data' = length data"
  using write_inv [OF assms(1), of off "hd data"] read_inv [OF assms(1), of ret0 off] assms(2) by (auto simp: serial_handle_io_def)

lemma addr_call_ok:
  assumes "unat off + unat sz \<le> 4" "length data = unat sz"
  shows "\<exists>data' p'. pcibus_addr_io off sz data w own p = Some (data', p') \<and> length data' = length data"
  using assms by (simp add: pcibus_addr_io_def buf_take_def buf_put_def obj_read_def obj_write_def)

lemma config_write_defined:
  assumes "dev_wf (pci_devs p d)" "unat off + unat sz \<le> PCI_CFG_SPACE_SIZE" "length data = unat sz" "unat off \<noteq> PCI_COMMAND"
  shows "\<exists>p'. pci_config_write d data off sz p = Some p' \<and> pci_addr p' = pci_addr p"
proof -
  have bs: "buf_take data sz = Some data" using assms(3) by (simp add: buf_take_def obj_read_def)
  obtain c where c: "obj_write (cfg_space (pci_devs p d)) (unat off) data = Some c" "dev_wf ((pci_devs p d)\<lparr>cfg_space := c\<rparr>)"
    by (rule hdr_write_ok [OF assms(1,2,3)])
  define p1 where "p1 = upd_dev d (\<lambda>dev. dev\<lparr>cfg_space := c\<rparr>) p"
  define bar :: u8 where "bar = ucast (drop_bit 2 (off - of_nat PCI_BASE_ADDRESS_0))"
  have wf: "dev_wf (pci_devs p1 d)" "pci_addr p1 = pci_addr p" using c(2) by (simp_all add: p1_def)
  have eq: "pci_config_write d data off sz p =
      (if PCI_BASE_ADDRESS_0 \<le> unat off \<and> unat off \<le> PCI_BASE_ADDRESS_5 then pci_bar_config d bar p1 else Some p1)"
    using assms(4) by (auto simp: pci_config_write_def bs c(1) bar_def p1_def Let_def)
  have "\<exists>p'. pci_bar_config d bar p1 = Some p' \<and> pci_addr p' = pci_addr p1"
    if "PCI_BASE_ADDRESS_0 \<le> unat off" "unat off \<le> PCI_BASE_ADDRESS_5"
  proof -
    have "unat bar < PCI_STD_NUM_BARS" using bar_of_offset [OF that] by (simp add: bar_def)
    then have le: "PCI_BAR_OFFSET (unat bar) + 32 div 8 \<le> PCI_CFG_SPACE_SIZE" by (simp add: PCI_BAR_OFFSET_def const_simps)
    obtain v :: u32 where "PCI_HDR_READ (pci_devs p1 d) (PCI_BAR_OFFSET (unat bar)) 32 = Some v" using hdr_read_ok [OF wf(1) le] by blast
    then show ?thesis using le wf(1) by (simp add: pci_bar_config_def PCI_HDR_WRITE_def obj_write_def dev_wf_def Let_def)
  qed
  then show ?thesis unfolding eq using wf(2) by auto
qed

lemma config_call_ok:
  assumes "dev_wf (pci_devs p d)" "unat off + unat sz \<le> PCI_CFG_SPACE_SIZE" "length data = unat sz" "w \<Longrightarrow> unat off \<noteq> PCI_COMMAND"
  shows "\<exists>data' p'. pci_config_handle_io off sz data w (PciDev d) p = Some (data', p') \<and> length data' = length data \<and> pci_addr p' = pci_addr p"
proof (cases w)
  case True
  then show ?thesis using config_write_defined [OF assms(1-3)] assms(4) by (auto simp: pci_config_handle_io_def)
next
  case False
  then show ?thesis
    using assms(1-3) by (simp add: pci_config_handle_io_def pci_config_read_def dev_wf_def obj_read_def buf_put_def obj_write_def)
qed

text \<open>The one access whose outcome depends on the lists of BARs: a write of the command register.\<close>

definition command_write :: "kvm_run_io \<Rightarrow> machine \<Rightarrow> bool" where
  "command_write run m \<longleftrightarrow> io_out run \<and> io_port run = 0xcfc \<and> pci_addr (pci (m_blk m)) = 0x80000004"

lemma fits_port:
  fixes port :: u16 and b n :: u64
  assumes "ucast port + ucast sz - 1 \<le> b + n - 1" "0 < unat (sz :: u8)" "unat b \<le> unat port" "unat b + unat n < 2 ^ 32" "0 < unat n"
  shows "unat (ucast port - b) + unat sz \<le> unat n"
proof -
  let ?a = "ucast port :: u64"
  have a: "unat ?a = unat port" "unat (ucast sz :: u64) = unat sz" "unat sz < 256" "unat port < 65536"
    using unsigned_less [of sz] unsigned_less [of port] by (simp_all add: unsigned_ucast_eq take_bit_nat_eq_self)
  have "unat (?a + ucast sz - 1) = unat port + unat sz - 1" using a assms(2) unat_add_sub_one [of "ucast sz" ?a] by simp
  moreover have "unat (b + n - 1) = unat b + unat n - 1" using assms(4,5) unat_add_sub_one [of n b] by simp
  moreover have "unat (?a - b) = unat port - unat b" using assms(3) a by (simp add: unat_sub word_le_nat_alt)
  ultimately show ?thesis using assms unfolding word_le_nat_alt by linarith
qed

lemma data_call_ok:
  assumes ok: "ports_ok (pci (m_blk m))" and k: "0 < length data" "k + length data \<le> 4"
    and cmd: "\<not> (w \<and> k = 0 \<and> pci_addr (pci (m_blk m)) = 0x80000004)"
  shows "\<exists>data' m'. bus_handle_io (io_call env 2) m_io PioBus (of_nat (0xcfc + k)) (of_nat (length data)) data w m = Some (data', m') \<and>
    length data' = length data \<and> pci_addr (pci (m_blk m')) = pci_addr (pci (m_blk m))"
proof -
  define a where "a = pci_addr (pci (m_blk m))"
  have p: "config_wired (m_io m)" "4 dvd unat a" "dev_wf (pci_devs (pci (m_blk m)) 0)"
    using ok by (simp_all add: ports_ok_def a_def m_io_def ports_linkedD)
  note call = config_data_call [OF p(1) k a_def [symmetric] p(2), of env w]
  show ?thesis
  proof (cases "selects_disk a")
    case True
    define off :: u64 where "off = of_nat (unat a - 0x80000000 + k)"
    have "unat a - 0x80000000 + k + length data \<le> 256" using True k p(2) by (auto simp: selects_disk_def)
    moreover have sz: "unat (of_nat (length data) :: u8) = length data" using k by (simp add: unsigned_of_nat take_bit_nat_eq_self)
    moreover have off: "unat off = unat a - 0x80000000 + k"
      using calculation(1) k by (simp add: off_def unsigned_of_nat take_bit_nat_eq_self del: of_nat_add of_nat_diff)
    moreover have "unat off \<noteq> PCI_COMMAND" if w
    proof
      assume "unat off = PCI_COMMAND"
      then have "unat a + k = 0x80000004" using off True by (simp add: selects_disk_def const_simps)
      moreover have "k < 4" using k by linarith
      ultimately have "unat a = 0x80000004" "k = 0" using p(2) by presburger+
      then show False using cmd that by (simp add: a_def word_unat_eq_iff)
    qed
    ultimately obtain data' p' where "pci_config_handle_io off (of_nat (length data)) data w (PciDev 0) (pci (m_blk m)) = Some (data', p')"
        "length data' = length data" "pci_addr p' = a"
      using config_call_ok [OF p(3), of off "of_nat (length data)" data w] by (auto simp: const_simps a_def)
    then show ?thesis using True unfolding call off_def [symmetric] by (simp add: on_pci_def a_def)
  next
    case False
    then show ?thesis unfolding call by simp
  qed
qed

lemma pio_call_ok:
  assumes m: "machine_ports m" and sz: "0 < sz" "length data = unat sz" and cmd: "\<not> (w \<and> port = 0xcfc \<and> pci_addr (pci (m_blk m)) = 0x80000004)"
  shows "\<exists>data' m'. bus_handle_io (io_call env 2) m_io PioBus (ucast (port :: u16)) sz data w m = Some (data', m') \<and>
    length data' = length data \<and> (port = 0xcfc \<longrightarrow> pci_addr (pci (m_blk m')) = pci_addr (pci (m_blk m)))"
proof -
  let ?a = "ucast port :: u64"
  have ok: "ports_ok (pci (m_blk m))" "serial_inv (m_serial m)" using m by (simp_all add: machine_ports_def)
  then have w: "config_wired (m_io m)" by (simp add: ports_ok_def m_io_def ports_linkedD)
  have a: "unat ?a = unat port" by (simp add: unsigned_ucast_eq take_bit_nat_eq_self)
  have u: "0 < unat sz" using sz(1) by (simp add: word_less_nat_alt)
  have call: "bus_handle_io (io_call env 2) m_io PioBus ?a sz data w m =
      (case port_region (unat port) of None \<Rightarrow> Some (data, m)
       | Some rid \<Rightarrow> if fits_region (regions (m_io m) rid) ?a sz
           then (case r_handle_io (regions (m_io m) rid) of None \<Rightarrow> None
             | Some fn \<Rightarrow> io_call env 2 fn (?a - r_base (regions (m_io m) rid)) sz data w (r_owner (regions (m_io m) rid)) m)
           else Some (data, m))"
    unfolding bus_handle_io_def wired_find_pio [OF w] a Let_def by (simp only: bind.bind_lunit)
  show ?thesis
  proof (cases "port_region (unat port)")
    case None
    then show ?thesis unfolding call by simp
  next
    case (Some rid)
    consider "rid = SerialRegion" "0x3f8 \<le> unat port" "unat port < 0x400"
      | "rid = PciDataRegion" "0xcfc \<le> unat port" "unat port < 0xd00"
      | "rid = PciAddrRegion" "0xcf8 \<le> unat port" "unat port < 0xcfc"
      using Some by (auto simp: port_region_def split: if_splits)
    then show ?thesis
    proof cases
      case 1
      have r: "r_handle_io (regions (m_io m) rid) = Some Serial_handle_io"
        using wired_ports(4) [OF w] 1(1) by (simp add: region_io_def)
      have "data \<noteq> []" using u sz(2) by auto
      from serial_call_ok [OF ok(2) this] obtain data' s' where
        s': "serial_handle_io (me_ret0 env) (?a - r_base (regions (m_io m) rid)) data w (m_serial m) = Some (data', s')" "length data' = length data"
        by blast
      show ?thesis unfolding call Some by (simp add: r io_call_fns on_serial_def s')
    next
      case 2
      show ?thesis
      proof (cases "fits_region (regions (m_io m) rid) ?a sz")
        case True
        define k where "k = unat port - 0xcfc"
        have r: "r_base (regions (m_io m) rid) = 0xcfc" "r_len (regions (m_io m) rid) = 4"
          using wired_ports(2) [OF w] 2(1) by (simp_all add: region_io_def)
        have "unat (?a - 0xcfc) + unat sz \<le> 4" using True fits_port [OF _ u, of port "0xcfc" 4] 2(2) by (simp add: fits_region_def r)
        moreover have "unat (?a - 0xcfc) = k" using 2(2) a by (simp add: k_def unat_sub word_le_nat_alt)
        ultimately have k: "0 < length data" "k + length data \<le> 4" using u sz(2) by simp_all
        have eq: "?a = of_nat (0xcfc + k)" "sz = of_nat (length data)" using 2(2) a sz(2) by (simp_all add: k_def word_unat_eq_iff)
        have "\<not> (w \<and> k = 0 \<and> pci_addr (pci (m_blk m)) = 0x80000004)" using cmd 2(2) by (auto simp: k_def word_unat_eq_iff)
        from data_call_ok [OF ok(1) k this, of env, folded eq] show ?thesis by blast
      qed (simp add: call Some)
    next
      case 3
      have r: "r_handle_io (regions (m_io m) rid) = Some Pcibus_addr_io" "r_base (regions (m_io m) rid) = 0xcf8" "r_len (regions (m_io m) rid) = 4"
        using wired_ports(1) [OF w] 3(1) by (simp_all add: region_io_def)
      have p: "port \<noteq> 0xcfc" using 3(3) by auto
      show ?thesis
      proof (cases "fits_region (regions (m_io m) rid) ?a sz")
        case True
        then have "unat (?a - 0xcf8) + unat sz \<le> 4" using fits_port [OF _ u, of port "0xcf8" 4] 3(2) by (simp add: fits_region_def r)
        from addr_call_ok [OF this sz(2)] obtain data' p' where
          "pcibus_addr_io (?a - 0xcf8) sz data w (r_owner (regions (m_io m) rid)) (pci (m_blk m)) = Some (data', p')" "length data' = length data"
          by blast
        then show ?thesis unfolding call Some by (simp add: True r io_call_fns on_pci_def p)
      qed (simp add: call Some)
    qed
  qed
qed

lemma pio_loop_ok:
  assumes "machine_ports m" "0 < io_size run" "off + n * unat (io_size run) \<le> length buf" "\<not> command_write run m"
  shows "\<exists>buf' m'. handle_pio_loop (io_call env 2) m_io run n off buf m = Some (buf', m') \<and> length buf' = length buf"
  using assms
proof (induction n arbitrary: off buf m)
  case (Suc n)
  let ?sz = "unat (io_size run)"
  define chunk where "chunk = take ?sz (drop off buf)"
  have chunk: "obj_read buf off ?sz = Some chunk" "length chunk = ?sz" using Suc.prems(3) by (simp_all add: obj_read_def chunk_def)
  from pio_call_ok [OF Suc.prems(1,2) chunk(2), of "io_out run" "io_port run" env] Suc.prems(4) obtain chunk' m' where
    m': "bus_handle_io (io_call env 2) m_io PioBus (ucast (io_port run)) (io_size run) chunk (io_out run) m = Some (chunk', m')"
      "length chunk' = length chunk" "io_port run = 0xcfc \<longrightarrow> pci_addr (pci (m_blk m')) = pci_addr (pci (m_blk m))"
    unfolding command_write_def by blast
  have "off + length chunk' \<le> length buf" using Suc.prems(3) m'(2) chunk(2) by simp
  then obtain buf' where buf': "obj_write buf off chunk' = Some buf'" by (simp add: obj_write_def)
  have "\<not> command_write run m'" using Suc.prems(4) m'(3) by (auto simp: command_write_def)
  moreover have "machine_ports m'" by (rule mports.bus_handle_io_keeps [OF Suc.prems(1) m'(1)])
  ultimately have "\<exists>b m''. handle_pio_loop (io_call env 2) m_io run n (off + ?sz) buf' m' = Some (b, m'') \<and> length b = length buf'"
    using Suc.prems(2,3) length_obj_write [OF buf'] by (intro Suc.IH) simp_all
  then show ?case using chunk(1) m'(1) buf' length_obj_write [OF buf'] by simp
qed simp

section \<open>Properties\<close>

text \<open>Property C34. The port space under an arbitrary guest. With the disk of device creation, and after any sequence of port
  and memory accesses, terminal input and notifications, whatever it did to the BARs and to the MMIO bus: every port
  decodes as it did at the start, to the serial port, the two configuration ports or nothing; and every port exit of KVM, of any
  size and repeat count whose data is in the shared page, in or out, is handled to the end (no lookup runs for ever, no
  access leaves its object) and the vcpu loop goes on, unless it writes the command register of the disk.\<close>

theorem guest_ports_served:
  assumes "pci (m_blk m) = pci_state_0" "m_serial m = serial_0" "e_files env path = Some img" "8 \<le> e_cfg_len env"
    and "create_devices env (Some path) m = Some (Inr m1)" "machine_reach menv m1 m2"
  shows "(\<forall>p. iobus_find_region (m_io m2) PioBus p = Some
        (if 0x3f8 \<le> unat p \<and> unat p < 0x400 then Some SerialRegion
         else if 0xcfc \<le> unat p \<and> unat p < 0xd00 then Some PciDataRegion
         else if 0xcf8 \<le> unat p \<and> unat p < 0xcfc then Some PciAddrRegion else None)) \<and>
    (\<forall>run ret. 0 < io_size run \<and> unat (io_count run) * unat (io_size run) \<le> length (io_data run) \<and>
       \<not> (io_out run \<and> io_port run = 0xcfc \<and> pci_addr (pci (m_blk m2)) = 0x80000004) \<longrightarrow>
       (\<exists>buf m3. iobus_handle_pio (io_call menv 2) m_io run m2 = Some (run\<lparr>io_data := buf\<rparr>, m3) \<and> length buf = length (io_data run) \<and>
          vcpu_exit menv True (KVM_EXIT_IO run) ret m2 = Some (Inr (Some 0, m3))))"
proof -
  have "with_disk img (e_cfg_len env) (ram (m_blk m)) m1" using create_devices_disk [OF assms(1-4)] assms(5) by auto
  then have m2: "machine_ports m2" using machine_reach_ports [OF assms(6)] with_disk_ports by blast
  then have "config_wired (m_io m2)" by (simp add: machine_ports_def ports_ok_def m_io_def ports_linkedD)
  note find = wired_find_pio [OF this, unfolded port_region_def]
  have "\<exists>buf m3. iobus_handle_pio (io_call menv 2) m_io run m2 = Some (run\<lparr>io_data := buf\<rparr>, m3) \<and> length buf = length (io_data run) \<and>
      vcpu_exit menv True (KVM_EXIT_IO run) ret m2 = Some (Inr (Some 0, m3))"
    if "0 < io_size run" "unat (io_count run) * unat (io_size run) \<le> length (io_data run)" "\<not> command_write run m2" for run ret
    using pio_loop_ok [OF m2 that(1) _ that(3), of 0 "unat (io_count run)" "io_data run" menv] that(2)
    by (auto simp: iobus_handle_pio_def vcpu_exit_def)
  then show ?thesis using find unfolding command_write_def by blast
qed

text \<open>In the machine whose driver has mapped the registers of the disk, three reads of the serial line status.\<close>

theorem guest_ports_served_witness:
  "\<exists>m1 m2 buf m3. create_devices sample_main_env (Some ''k'') machine_0 = Some (Inr m1) \<and>
     vcpu_exec sample_machine_env True (map_bar 0xFE000000 2) None m1 = Some (Running (Some 0) m2) \<and>
     iobus_handle_pio (io_call sample_machine_env 2) m_io
       \<lparr>io_out = False, io_size = 1, io_port = 0x3fd, io_count = 3, io_data = [0, 0, 0]\<rparr> m2 =
       Some (\<lparr>io_out = False, io_size = 1, io_port = 0x3fd, io_count = 3, io_data = buf\<rparr>, m3) \<and> length buf = 3"
proof -
  let ?run = "\<lparr>io_out = False, io_size = 1, io_port = 0x3fd, io_count = 3, io_data = [0, 0, 0]\<rparr>"
  obtain m1 where m1: "create_devices sample_main_env (Some ''k'') machine_0 = Some (Inr m1)"
      "with_disk [1, 2, 3] (e_cfg_len sample_main_env) (ram (m_blk machine_0)) m1"
    using create_devices_disk [OF sample_disk_file] by blast
  obtain m2 where m2: "vcpu_exec sample_machine_env True (map_bar 0xFE000000 2) None m1 = Some (Running (Some 0) m2)"
    using map_bar_decodes [OF m1(2), of "0xFE000000" 2 sample_machine_env None] by (auto simp: bit_numeral_rec)
  have "\<forall>e \<in> set (map_bar 0xFE000000 2). is_io e" by (auto simp: map_bar_def is_io_def)
  from vcpu_exec_io [OF this m2] have "machine_reach sample_machine_env m1 m2" by auto
  from guest_ports_served [OF sample_disk_file m1(1) this, THEN conjunct2, rule_format, of ?run None]
  obtain buf m3 where "iobus_handle_pio (io_call sample_machine_env 2) m_io ?run m2 = Some (?run\<lparr>io_data := buf\<rparr>, m3)" "length buf = 3"
    by (auto simp: numeral_3_eq_3)
  then show ?thesis using m1(1) m2 by auto
qed

end
