(* ===== verification/CString.thy ===== *)
theory CString
  imports Prelude
begin

text \<open>
  \<open>src/string.c\<close>: the string and memory helpers, on host memory with pointers as addresses
  (\<open>NULL\<close> is 0). A scan for a terminator has no bound of its own, so these loops are partial
  functions, whose value \<open>None\<close> stands for a read outside every object and for a loop that
  never ends; the lemmas give their results on null-terminated strings. The counted loops are
  total apart from accesses outside objects. The reference is the string a pointer designates,
  \<open>c_str\<close>, and lists of bytes.
\<close>

section \<open>The functions\<close>

partial_function (option) strlen_loop :: "mem \<Rightarrow> nat \<Rightarrow> u64 \<Rightarrow> u64 option" where
  "strlen_loop m buf len = do { c \<leftarrow> m buf; if c \<noteq> 0 then strlen_loop m (buf + 1) (len + 1) else Some len }"

definition strlen :: "mem \<Rightarrow> nat \<Rightarrow> u64 option" where
  "strlen m buf = strlen_loop m buf 0"

partial_function (option) strcat_seek :: "mem \<Rightarrow> nat \<Rightarrow> nat option" where
  "strcat_seek m p = do { c \<leftarrow> m p; if c \<noteq> 0 then strcat_seek m (p + 1) else Some p }"

partial_function (option) strcat_copy :: "mem \<Rightarrow> nat \<Rightarrow> nat \<Rightarrow> mem option" where
  "strcat_copy m p src =
     do { c \<leftarrow> m src; m' \<leftarrow> store_bytes m p [c];
          if c \<noteq> 0 then strcat_copy m' (p + 1) (src + 1) else Some m' }"

definition strcat :: "mem \<Rightarrow> nat \<Rightarrow> nat \<Rightarrow> (nat \<times> mem) option" where
  "strcat m dest src = do { p \<leftarrow> strcat_seek m dest; m' \<leftarrow> strcat_copy m p src; Some (dest, m') }"

definition strcpy :: "mem \<Rightarrow> nat \<Rightarrow> nat \<Rightarrow> (nat \<times> mem) option" where
  "strcpy m dest src = do { m' \<leftarrow> store_bytes m dest [0]; strcat m' dest src }"

text \<open>\<open>char\<close> is signed: the result is the difference of the signed values.\<close>

partial_function (option) strcmp :: "mem \<Rightarrow> nat \<Rightarrow> nat \<Rightarrow> int option" where
  "strcmp m a b =
     do { x \<leftarrow> m a; y \<leftarrow> m b;
          if x = y then (if x = 0 then Some (sint x - sint y) else strcmp m (a + 1) (b + 1))
          else Some (sint x - sint y) }"

partial_function (option) strchr :: "mem \<Rightarrow> nat \<Rightarrow> u8 \<Rightarrow> nat option" where
  "strchr m s c =
     do { x \<leftarrow> m s; if x \<noteq> c then (if x = 0 then Some 0 else strchr m (s + 1) c) else Some s }"

fun memcmp :: "mem \<Rightarrow> nat \<Rightarrow> nat \<Rightarrow> nat \<Rightarrow> int option" where
  "memcmp m a b 0 = Some 0"
| "memcmp m a b (Suc n) =
     do { x \<leftarrow> m a; y \<leftarrow> m b;
          let ret = uint x - uint y in if ret \<noteq> 0 then Some ret else memcmp m (a + 1) (b + 1) n }"

function strstr_loop :: "mem \<Rightarrow> nat \<Rightarrow> nat \<Rightarrow> nat \<Rightarrow> nat \<Rightarrow> nat option" where
  "strstr_loop m s1 s2 l1 l2 =
     (if l1 \<ge> l2 \<and> 0 < l2 then
        do { r \<leftarrow> memcmp m s1 s2 l2;
             if r = 0 then Some s1 else strstr_loop m (s1 + 1) s2 (l1 - 1) l2 }
      else Some 0)"
  by pat_completeness auto

termination
  by (relation "measure (\<lambda>(m, s1, s2, l1, l2). l1)") auto

declare strstr_loop.simps [simp del]

text \<open>With \<open>l2 = 0\<close> the function has returned before the loop.\<close>

definition strstr :: "mem \<Rightarrow> nat \<Rightarrow> nat \<Rightarrow> nat option" where
  "strstr m s1 s2 =
     do { l2 \<leftarrow> strlen m s2;
          if l2 = 0 then Some s1
          else do { l1 \<leftarrow> strlen m s1; strstr_loop m s1 s2 (unat l1) (unat l2) } }"

primrec move_up :: "mem \<Rightarrow> nat \<Rightarrow> nat \<Rightarrow> nat \<Rightarrow> mem option" where
  "move_up m d s 0 = Some m"
| "move_up m d s (Suc n) =
     do { c \<leftarrow> m s; m' \<leftarrow> store_bytes m d [c]; move_up m' (d + 1) (s + 1) n }"

text \<open>The loop from the top: with \<open>n\<close> bytes left it copies the one at offset \<open>n - 1\<close>.\<close>

primrec move_down :: "mem \<Rightarrow> nat \<Rightarrow> nat \<Rightarrow> nat \<Rightarrow> mem option" where
  "move_down m d s 0 = Some m"
| "move_down m d s (Suc n) =
     do { c \<leftarrow> m (s + n); m' \<leftarrow> store_bytes m (d + n) [c]; move_down m' d s n }"

definition memmove :: "mem \<Rightarrow> nat \<Rightarrow> nat \<Rightarrow> nat \<Rightarrow> (nat \<times> mem) option" where
  "memmove m dest src n =
     do { m' \<leftarrow> (if dest \<le> src then move_up m dest src n else move_down m dest src n); Some (dest, m') }"

primrec memchr :: "mem \<Rightarrow> nat \<Rightarrow> u8 \<Rightarrow> nat \<Rightarrow> nat option" where
  "memchr m s chr 0 = Some 0"
| "memchr m s chr (Suc n) = do { x \<leftarrow> m s; if x = chr then Some s else memchr m (s + 1) chr n }"

partial_function (option) atol_blanks :: "mem \<Rightarrow> nat \<Rightarrow> nat option" where
  "atol_blanks m s = do { c \<leftarrow> m s; if c = 0x20 \<or> c = 0x09 then atol_blanks m (s + 1) else Some s }"

text \<open>The accumulator is a \<open>long\<close>, whose overflow is undefined.\<close>

definition long_ok :: "int \<Rightarrow> int option" where
  "long_ok x = (if - (2 ^ 63) \<le> x \<and> x < 2 ^ 63 then Some x else None)"

partial_function (option) atol_digits :: "mem \<Rightarrow> nat \<Rightarrow> int \<Rightarrow> int option" where
  "atol_digits m s acc =
     do { c \<leftarrow> m s;
          if c = 0 then Some acc
          else if sint c < 0x30 \<or> sint c > 0x39 then Some acc
          else do { t \<leftarrow> long_ok (acc * 10); acc' \<leftarrow> long_ok (t + (sint c - 0x30)); atol_digits m (s + 1) acc' } }"

definition atol :: "mem \<Rightarrow> nat \<Rightarrow> int option" where
  "atol m ptr =
     do { s \<leftarrow> atol_blanks m ptr;
          c \<leftarrow> m s;
          let neg = (c = 0x2D); s' = (if c = 0x2D \<or> c = 0x2B then s + 1 else s)
          in do { acc \<leftarrow> atol_digits m s' 0; Some (if neg then - acc else acc) } }"

primrec csum8_loop :: "mem \<Rightarrow> nat \<Rightarrow> nat \<Rightarrow> u32 \<Rightarrow> u32 option" where
  "csum8_loop m buf 0 s = Some s"
| "csum8_loop m buf (Suc n) s = do { c \<leftarrow> m buf; csum8_loop m (buf + 1) n (s + ucast c) }"

definition csum8 :: "mem \<Rightarrow> nat \<Rightarrow> u32 \<Rightarrow> u8 option" where
  "csum8 m buf len = do { s \<leftarrow> csum8_loop m buf (unat len) 0; Some (ucast s) }"

section \<open>The strings pointers designate\<close>

primrec c_str :: "mem \<Rightarrow> nat \<Rightarrow> bytes \<Rightarrow> bool" where
  "c_str m p [] \<longleftrightarrow> m p = Some 0"
| "c_str m p (c # cs) \<longleftrightarrow> m p = Some c \<and> c \<noteq> 0 \<and> c_str m (Suc p) cs"

lemma c_str_load: "c_str m p xs \<longleftrightarrow> load_bytes m p (length xs) = Some xs \<and> 0 \<notin> set xs \<and> m (p + length xs) = Some 0"
proof (induction xs arbitrary: p)
  case (Cons x xs)
  then show ?case by (auto split: Option.bind_splits)
qed simp

lemma strlen_loop_str: "c_str m p xs \<Longrightarrow> strlen_loop m p k = Some (k + of_nat (length xs))"
  by (induction xs arbitrary: p k) (subst strlen_loop.simps, simp add: ac_simps)+

lemma strlen_str: "c_str m p xs \<Longrightarrow> strlen m p = Some (of_nat (length xs))"
  by (simp add: strlen_def strlen_loop_str)

lemma strcat_seek_str: "c_str m p xs \<Longrightarrow> strcat_seek m p = Some (p + length xs)"
  by (induction xs arbitrary: p) (subst strcat_seek.simps, simp)+

lemma store_byte: "store_bytes m p [c] = (if m p = None then None else Some (m(p \<mapsto> c)))"
  by simp

lemma upd_bytes_Nil: "upd_bytes m a [] = m"
  by (rule ext) (auto simp: upd_bytes_def)

lemma upd_bytes_Cons: "upd_bytes (m(a \<mapsto> c)) (Suc a) cs = upd_bytes m a (c # cs)"
proof (rule ext)
  fix x
  consider "x < a" | "x = a" | j where "x = Suc (a + j)" by (metis less_imp_Suc_add linorder_neqE_nat)
  then show "upd_bytes (m(a \<mapsto> c)) (Suc a) cs x = upd_bytes m a (c # cs) x"
    by cases (auto simp: upd_bytes_def)
qed

lemma upd_bytes_snoc: "upd_bytes (m(a + length cs \<mapsto> c)) a cs = upd_bytes m a (cs @ [c])"
  by (rule ext) (auto simp: upd_bytes_def nth_append)

lemma mapped_upd [simp]: "mapped m a n \<Longrightarrow> mapped (m(b \<mapsto> c)) a n"
  by (auto simp: mapped_def)

lemma load_upd_outside: "b < a \<or> a + n \<le> b \<Longrightarrow> load_bytes (m(b \<mapsto> c)) a n = load_bytes m a n"
  by (rule load_bytes_cong) auto

lemma c_str_cong: "(\<And>i. i \<le> length xs \<Longrightarrow> m (p + i) = m' (p + i)) \<Longrightarrow> c_str m p xs = c_str m' p xs"
  using load_bytes_cong [of "length xs" m p m' p] by (simp add: c_str_load)

section \<open>Copying\<close>

lemma move_up_correct:
  "d \<le> s \<Longrightarrow> load_bytes m s n = Some xs \<Longrightarrow> mapped m d n \<Longrightarrow> move_up m d s n = Some (upd_bytes m d xs)"
proof (induction n arbitrary: m d s xs)
  case (Suc n)
  then obtain c cs where c: "m s = Some c" "load_bytes m (Suc s) n = Some cs" "xs = c # cs"
    by (auto split: Option.bind_splits)
  have "load_bytes (m(d \<mapsto> c)) (Suc s) n = Some cs" using c(2) Suc.prems(1) by (subst load_upd_outside) auto
  then have "move_up (m(d \<mapsto> c)) (Suc d) (Suc s) n = Some (upd_bytes (m(d \<mapsto> c)) (Suc d) cs)"
    using Suc.prems by (intro Suc.IH) (auto simp: mapped_Suc simp del: fun_upd_apply)
  then show ?case using Suc.prems(3) c by (auto simp: mapped_Suc upd_bytes_Cons)
qed (simp add: upd_bytes_Nil)

lemma load_bytes_snoc: "load_bytes m a (Suc n) = do { x \<leftarrow> load_bytes m a n; c \<leftarrow> m (a + n); Some (x @ [c]) }"
  using load_bytes_add [of m a n 1] by (simp split: Option.bind_split)

lemma move_down_correct:
  "s < d \<Longrightarrow> load_bytes m s n = Some xs \<Longrightarrow> mapped m d n \<Longrightarrow> move_down m d s n = Some (upd_bytes m d xs)"
proof (induction n arbitrary: m xs)
  case (Suc n)
  then obtain cs c where c: "load_bytes m s n = Some cs" "m (s + n) = Some c" "xs = cs @ [c]"
    by (auto simp: load_bytes_snoc simp del: load_bytes.simps(2) split: Option.bind_splits)
  have "load_bytes (m(d + n \<mapsto> c)) s n = Some cs" using c(1) Suc.prems(1) by (subst load_upd_outside) auto
  moreover have "mapped m d n" "m (d + n) \<noteq> None" "n = length cs"
    using Suc.prems(3) c(1) by (auto simp: mapped_def length_load_bytes)
  moreover from calculation have "move_down (m(d + n \<mapsto> c)) d s n = Some (upd_bytes (m(d + n \<mapsto> c)) d cs)"
    using Suc.prems(1) by (intro Suc.IH) (auto simp del: fun_upd_apply)
  ultimately show ?case using c by (auto simp: upd_bytes_snoc)
qed (simp add: upd_bytes_Nil)

lemma strcat_copy_correct:
  "c_str m src ys \<Longrightarrow> mapped m p (Suc (length ys)) \<Longrightarrow> apart (p, Suc (length ys)) (src, Suc (length ys)) \<Longrightarrow>
   strcat_copy m p src = Some (upd_bytes m p (ys @ [0]))"
proof (induction ys arbitrary: m p src)
  case Nil
  then show ?case by (subst strcat_copy.simps) (auto simp: mapped_Suc simp flip: upd_bytes_Cons simp: upd_bytes_Nil)
next
  case (Cons y ys)
  have "c_str (m(p \<mapsto> y)) (Suc src) ys"
    using Cons.prems(1,3) by (subst c_str_cong [of _ _ _ m]) (auto simp: apart_def)
  moreover have "mapped (m(p \<mapsto> y)) (Suc p) (Suc (length ys))"
    using Cons.prems(2) by (intro mapped_upd) (simp add: mapped_Suc)
  ultimately have "strcat_copy (m(p \<mapsto> y)) (Suc p) (Suc src) = Some (upd_bytes (m(p \<mapsto> y)) (Suc p) (ys @ [0]))"
    using Cons.prems by (intro Cons.IH) (auto simp: apart_def simp del: fun_upd_apply)
  then show ?case
    using Cons.prems by (subst strcat_copy.simps) (auto simp: mapped_Suc upd_bytes_Cons)
qed

lemma c_str_append: "c_str m p (xs @ ys) \<longleftrightarrow> load_bytes m p (length xs) = Some xs \<and> 0 \<notin> set xs \<and> c_str m (p + length xs) ys"
  by (auto simp: c_str_load load_bytes_add add.assoc split: Option.bind_splits dest: length_load_bytes)

lemma c_str_upd: "0 \<notin> set ys \<Longrightarrow> mapped m p (Suc (length ys)) \<Longrightarrow> c_str (upd_bytes m p (ys @ [0])) p ys"
  using load_upd_bytes_same [of m p "ys @ [0]"]
  by (auto simp: c_str_load load_bytes_snoc simp del: load_bytes.simps(2) split: Option.bind_splits)

text \<open>Property C39. \<open>memmove\<close> copies correctly whether or not the two areas overlap, in either direction:
  the destination receives the bytes the source held before the call, every other byte is
  unchanged, and the destination is returned.\<close>

theorem memmove_correct:
  assumes "load_bytes m src n = Some xs" "mapped m dest n"
  shows "\<exists>m'. memmove m dest src n = Some (dest, m') \<and> load_bytes m' dest n = Some xs \<and>
    (\<forall>a. a < dest \<or> dest + n \<le> a \<longrightarrow> m' a = m a)"
proof -
  have "memmove m dest src n = Some (dest, upd_bytes m dest xs)"
    using assms move_up_correct [of dest src m n xs] move_down_correct [of src dest m n xs]
    by (simp add: memmove_def not_le)
  moreover have "length xs = n" using assms(1) by (rule length_load_bytes)
  ultimately show ?thesis
    using assms(2) load_upd_bytes_same [of m dest xs] by (auto simp: upd_bytes_def)
qed

theorem memmove_correct_witness:
  "\<exists>m'. memmove ((\<lambda>_. None)(10 \<mapsto> 1, 11 \<mapsto> 2, 12 \<mapsto> 3)) 11 10 2 = Some (11, m') \<and> load_bytes m' 11 2 = Some [1, 2]"
  using memmove_correct [of "(\<lambda>_. None)(10 \<mapsto> 1, 11 \<mapsto> 2, 12 \<mapsto> 3)" 10 2 "[1, 2]" 11]
  by (auto simp: numeral_2_eq_2 mapped_Suc)

text \<open>On null-terminated strings apart from the destination, \<open>strcpy\<close> makes the destination
  equal to the source and \<open>strcat\<close> appends to it, each with its terminator, given room for it; both
  return the destination and change nothing else. \<open>strlen\<close> of the result is the length.\<close>

theorem strcat_strcpy_correct:
  assumes "c_str m src ys"
  shows "(mapped m dest (Suc (length ys)) \<longrightarrow> apart (dest, Suc (length ys)) (src, Suc (length ys)) \<longrightarrow>
      (\<exists>m'. strcpy m dest src = Some (dest, m') \<and> c_str m' dest ys \<and> strlen m' dest = Some (of_nat (length ys)) \<and>
        (\<forall>a. a < dest \<or> dest + length ys < a \<longrightarrow> m' a = m a))) \<and>
    (\<forall>xs. c_str m dest xs \<longrightarrow> mapped m (dest + length xs) (Suc (length ys)) \<longrightarrow>
      apart (dest + length xs, Suc (length ys)) (src, Suc (length ys)) \<longrightarrow>
      (\<exists>m'. strcat m dest src = Some (dest, m') \<and> c_str m' dest (xs @ ys) \<and>
        strlen m' dest = Some (of_nat (length xs + length ys)) \<and>
        (\<forall>a. a < dest + length xs \<or> dest + length xs + length ys < a \<longrightarrow> m' a = m a)))"
proof (intro conjI allI impI)
  have y: "0 \<notin> set ys" using assms by (simp add: c_str_load)
  show "\<exists>m'. strcat m dest src = Some (dest, m') \<and> c_str m' dest (xs @ ys) \<and>
      strlen m' dest = Some (of_nat (length xs + length ys)) \<and>
      (\<forall>a. a < dest + length xs \<or> dest + length xs + length ys < a \<longrightarrow> m' a = m a)"
    if "c_str m dest xs" "mapped m (dest + length xs) (Suc (length ys))"
      "apart (dest + length xs, Suc (length ys)) (src, Suc (length ys))" for xs
  proof -
    let ?m = "upd_bytes m (dest + length xs) (ys @ [0])"
    have "load_bytes ?m dest (length xs) = load_bytes m dest (length xs)"
      by (rule load_bytes_cong) (auto simp: upd_bytes_def)
    then have c: "c_str ?m dest (xs @ ys)"
      using that(1) c_str_upd [OF y that(2)] unfolding c_str_append by (simp add: c_str_load)
    have "strcat m dest src = Some (dest, ?m)"
      using that strcat_copy_correct [OF assms] by (simp add: strcat_def strcat_seek_str)
    then show ?thesis using c strlen_str [OF c] by (auto simp: upd_bytes_def)
  qed
  show "\<exists>m'. strcpy m dest src = Some (dest, m') \<and> c_str m' dest ys \<and> strlen m' dest = Some (of_nat (length ys)) \<and>
      (\<forall>a. a < dest \<or> dest + length ys < a \<longrightarrow> m' a = m a)"
    if "mapped m dest (Suc (length ys))" "apart (dest, Suc (length ys)) (src, Suc (length ys))"
  proof -
    let ?m = "upd_bytes m dest (ys @ [0])"
    have "c_str (m(dest \<mapsto> 0)) src ys"
      using assms that(2) by (subst c_str_cong [of _ _ _ m]) (auto simp: apart_def)
    then have "strcat_copy (m(dest \<mapsto> 0)) dest src = Some (upd_bytes (m(dest \<mapsto> 0)) dest (ys @ [0]))"
      using that by (intro strcat_copy_correct) auto
    moreover have "upd_bytes (m(dest \<mapsto> 0)) dest (ys @ [0]) = ?m" by (rule ext) (auto simp: upd_bytes_def)
    moreover have "m dest \<noteq> None" using that(1) by (simp add: mapped_Suc)
    ultimately have "strcpy m dest src = Some (dest, ?m)"
      using strcat_seek_str [of "m(dest \<mapsto> 0)" dest "[]"] by (simp add: strcpy_def strcat_def)
    then show ?thesis using c_str_upd [OF y that(1)] strlen_str by (fastforce simp: upd_bytes_def)
  qed
qed

theorem strcat_strcpy_correct_witness:
  "\<exists>m'. strcpy ((\<lambda>_. None)(10 \<mapsto> 65, 11 \<mapsto> 0, 20 \<mapsto> 7, 21 \<mapsto> 7)) 20 10 = Some (20, m') \<and> c_str m' 20 [65]"
  using conjunct1 [OF strcat_strcpy_correct [of "(\<lambda>_. None)(10 \<mapsto> 65, 11 \<mapsto> 0, 20 \<mapsto> 7, 21 \<mapsto> 7)" 10 "[65]" 20]]
  by (auto simp: mapped_Suc apart_def)

section \<open>Comparing and searching\<close>

fun first_diff :: "(u8 \<Rightarrow> int) \<Rightarrow> bytes \<Rightarrow> bytes \<Rightarrow> int" where
  "first_diff f (x # xs) (y # ys) = (if x = y then first_diff f xs ys else f x - f y)"
| "first_diff f xs ys = 0"

lemma memcmp_diff:
  "load_bytes m a n = Some xs \<Longrightarrow> load_bytes m b n = Some ys \<Longrightarrow> memcmp m a b n = Some (first_diff uint xs ys)"
proof (induction n arbitrary: a b xs ys)
  case (Suc n)
  then obtain x xs' y ys' where "m a = Some x" "load_bytes m (Suc a) n = Some xs'" "xs = x # xs'"
    "m b = Some y" "load_bytes m (Suc b) n = Some ys'" "ys = y # ys'"
    by (auto split: Option.bind_splits)
  then show ?case using Suc.IH by (auto simp: Let_def simp flip: word_uint_eq_iff)
qed simp

lemma strcmp_diff: "c_str m a xs \<Longrightarrow> c_str m b ys \<Longrightarrow> strcmp m a b = Some (first_diff sint (xs @ [0]) (ys @ [0]))"
proof (induction xs arbitrary: a b ys)
  case Nil
  then show ?case by (cases ys) (subst strcmp.simps, simp)+
next
  case (Cons x xs)
  then show ?case by (cases ys) (subst strcmp.simps, simp)+
qed

definition less_by :: "(u8 \<Rightarrow> int) \<Rightarrow> (u8 \<times> u8) set" where
  "less_by f = {(x, y). f x < f y}"

lemma first_diff_same_length:
  assumes "length xs = length ys" "\<And>x y. f x = f y \<Longrightarrow> x = y"
  shows "(first_diff f xs ys = 0 \<longleftrightarrow> xs = ys) \<and> (first_diff f xs ys < 0 \<longleftrightarrow> (xs, ys) \<in> lexord (less_by f))"
  using assms by (induction rule: list_induct2) (auto simp: less_by_def)

lemma first_diff_terminated:
  assumes "\<And>x y. f x = f y \<Longrightarrow> x = y"
  shows "0 \<notin> set xs \<Longrightarrow> 0 \<notin> set ys \<Longrightarrow> (first_diff f (xs @ [0]) (ys @ [0]) = 0 \<longleftrightarrow> xs = ys) \<and>
    (first_diff f (xs @ [0]) (ys @ [0]) < 0 \<longleftrightarrow> (xs @ [0], ys @ [0]) \<in> lexord (less_by f))"
proof (induction xs arbitrary: ys)
  case Nil
  then show ?case using assms by (cases ys) (auto simp: less_by_def)
next
  case (Cons x xs)
  then show ?case using assms by (cases ys) (auto simp: less_by_def)
qed

text \<open>\<open>strcmp\<close> and \<open>memcmp\<close> return zero exactly on equal operands and a negative number exactly
  when the first is lexicographically smaller: \<open>memcmp\<close> by unsigned bytes, as the C standard asks
  of both, but \<open>strcmp\<close> by signed characters, with the terminator as a character.\<close>

theorem compare_correct:
  "(c_str m a xs \<longrightarrow> c_str m b ys \<longrightarrow>
      (\<exists>r. strcmp m a b = Some r \<and> (r = 0 \<longleftrightarrow> xs = ys) \<and> (r < 0 \<longleftrightarrow> (xs @ [0], ys @ [0]) \<in> lexord (less_by sint)))) \<and>
   (load_bytes m a n = Some us \<longrightarrow> load_bytes m b n = Some vs \<longrightarrow>
      (\<exists>r. memcmp m a b n = Some r \<and> (r = 0 \<longleftrightarrow> us = vs) \<and> (r < 0 \<longleftrightarrow> (us, vs) \<in> lexord (less_by uint))))"
proof (intro conjI impI)
  have inj: "uint x = uint y \<Longrightarrow> x = y" "sint x = sint y \<Longrightarrow> x = y" for x y :: u8
    by (simp_all add: unsigned_word_eqI signed_word_eqI)
  show "\<exists>r. strcmp m a b = Some r \<and> (r = 0 \<longleftrightarrow> xs = ys) \<and> (r < 0 \<longleftrightarrow> (xs @ [0], ys @ [0]) \<in> lexord (less_by sint))"
    if "c_str m a xs" "c_str m b ys"
    using strcmp_diff [OF that] first_diff_terminated [of sint xs ys] inj(2) that by (simp add: c_str_load)
  show "\<exists>r. memcmp m a b n = Some r \<and> (r = 0 \<longleftrightarrow> us = vs) \<and> (r < 0 \<longleftrightarrow> (us, vs) \<in> lexord (less_by uint))"
    if "load_bytes m a n = Some us" "load_bytes m b n = Some vs"
    using memcmp_diff [OF that] first_diff_same_length [of us vs uint] inj(1)
      length_load_bytes [OF that(1)] length_load_bytes [OF that(2)] by simp
qed

theorem compare_correct_witness:
  "\<exists>r. strcmp ((\<lambda>_. None)(10 \<mapsto> 0x80, 11 \<mapsto> 0, 20 \<mapsto> 65, 21 \<mapsto> 0)) 10 20 = Some r \<and> r < 0"
  using conjunct1 [OF compare_correct [of "(\<lambda>_. None)(10 \<mapsto> 0x80, 11 \<mapsto> 0, 20 \<mapsto> 65, 21 \<mapsto> 0)" 10 "[0x80]" 20 "[65]"]]
  by (auto simp: less_by_def)

definition occurs_at :: "bytes \<Rightarrow> bytes \<Rightarrow> nat \<Rightarrow> bool" where
  "occurs_at ys xs i \<longleftrightarrow> i + length ys \<le> length xs \<and> take (length ys) (drop i xs) = ys"

lemma occurs_at_Cons: "occurs_at ys (x # xs) (Suc i) = occurs_at ys xs i"
  by (simp add: occurs_at_def)

lemma load_bytes_take:
  "load_bytes m a n = Some xs \<Longrightarrow> k \<le> n \<Longrightarrow> load_bytes m a k = Some (take k xs)"
  using load_bytes_add [of m a k "n - k"] by (auto split: Option.bind_splits dest: length_load_bytes)

lemma strstr_loop_correct:
  assumes "load_bytes m s2 (length ys) = Some ys" "ys \<noteq> []"
  shows "0 < s1 \<Longrightarrow> load_bytes m s1 (length xs) = Some xs \<Longrightarrow>
    (\<exists>i. strstr_loop m s1 s2 (length xs) (length ys) = Some (s1 + i) \<and> occurs_at ys xs i \<and> (\<forall>j<i. \<not> occurs_at ys xs j)) \<or>
    (strstr_loop m s1 s2 (length xs) (length ys) = Some 0 \<and> (\<forall>j. \<not> occurs_at ys xs j))"
proof (induction xs arbitrary: s1)
  case Nil
  then show ?case using assms(2) by (subst (2) strstr_loop.simps) (auto simp: occurs_at_def)
next
  case (Cons x xs)
  let ?r = "strstr_loop m s1 s2 (length (x # xs)) (length ys)"
  let ?r' = "strstr_loop m (s1 + 1) s2 (length xs) (length ys)"
  show ?case
  proof (cases "length ys \<le> length (x # xs)")
    case False
    then show ?thesis by (subst (2) strstr_loop.simps) (auto simp: occurs_at_def)
  next
    case True
    have inj: "uint x = uint y \<Longrightarrow> x = y" for x y :: u8 by (simp add: word_uint_eq_iff)
    have "memcmp m s1 s2 (length ys) = Some (first_diff uint (take (length ys) (x # xs)) ys)"
      using memcmp_diff [OF load_bytes_take [OF Cons.prems(2) True] assms(1)] .
    then have r: "?r = (if occurs_at ys (x # xs) 0 then Some s1 else ?r')"
      using True assms(2) first_diff_same_length [of "take (length ys) (x # xs)" ys uint] inj
      by (subst strstr_loop.simps) (simp add: occurs_at_def)
    have ih: "(\<exists>i. ?r' = Some (s1 + 1 + i) \<and> occurs_at ys xs i \<and> (\<forall>j<i. \<not> occurs_at ys xs j)) \<or>
        (?r' = Some 0 \<and> (\<forall>j. \<not> occurs_at ys xs j))"
      using Cons.IH [of "s1 + 1"] Cons.prems by (auto split: Option.bind_splits)
    have all: "(\<forall>j<Suc i. \<not> occurs_at ys (x # xs) j) \<longleftrightarrow> \<not> occurs_at ys (x # xs) 0 \<and> (\<forall>j<i. \<not> occurs_at ys xs j)"
      for i by (auto simp: All_less_Suc2 occurs_at_Cons)
    have none: "\<not> occurs_at ys (x # xs) j" if "\<not> occurs_at ys (x # xs) 0" "\<forall>j. \<not> occurs_at ys xs j" for j
      using that by (cases j) (simp_all add: occurs_at_Cons)
    show ?thesis
    proof (cases "occurs_at ys (x # xs) 0")
      case True
      then show ?thesis using r by (intro disjI1 exI [of _ 0]) simp
    next
      case no: False
      from ih show ?thesis
      proof
        assume "\<exists>i. ?r' = Some (s1 + 1 + i) \<and> occurs_at ys xs i \<and> (\<forall>j<i. \<not> occurs_at ys xs j)"
        then obtain i where "?r' = Some (s1 + 1 + i)" "occurs_at ys xs i" "\<forall>j<i. \<not> occurs_at ys xs j" by blast
        then show ?thesis using r no all [of i]
          by (intro disjI1 exI [of _ "Suc i"]) (simp add: occurs_at_Cons)
      next
        assume "?r' = Some 0 \<and> (\<forall>j. \<not> occurs_at ys xs j)"
        then show ?thesis using r no none by simp
      qed
    qed
  qed
qed

text \<open>Property C40. \<open>strstr\<close> returns the first occurrence of the second string in the first, the first string
  itself for an empty second one, and \<open>NULL\<close> exactly when there is none; it reads nothing past the
  terminators.\<close>

theorem strstr_first_occurrence:
  assumes "c_str m s1 xs" "c_str m s2 ys" "0 < s1" "length xs < 2 ^ 64" "length ys < 2 ^ 64"
  shows "(\<exists>i. strstr m s1 s2 = Some (s1 + i) \<and> occurs_at ys xs i \<and> (\<forall>j<i. \<not> occurs_at ys xs j)) \<or>
    (strstr m s1 s2 = Some 0 \<and> (\<forall>j. \<not> occurs_at ys xs j))"
proof (cases "ys = []")
  case True
  then show ?thesis
    using strlen_str [OF assms(2)] by (intro disjI1 exI [of _ 0]) (simp add: strstr_def occurs_at_def)
next
  case False
  have u: "unat (of_nat (length xs) :: u64) = length xs" "unat (of_nat (length ys) :: u64) = length ys"
    using assms(4,5) by (simp_all add: unat_of_nat)
  have "(of_nat (length ys) :: u64) \<noteq> 0"
    using False u(2) by (metis length_0_conv unsigned_0)
  then have "strstr m s1 s2 = strstr_loop m s1 s2 (length xs) (length ys)"
    using strlen_str [OF assms(1)] strlen_str [OF assms(2)] u by (simp add: strstr_def)
  then show ?thesis
    using strstr_loop_correct [of m s2 ys s1 xs] assms(1-3) False by (simp add: c_str_load)
qed

theorem strstr_first_occurrence_witness:
  "\<exists>i. strstr ((\<lambda>_. None)(10 \<mapsto> 65, 11 \<mapsto> 66, 12 \<mapsto> 0, 20 \<mapsto> 66, 21 \<mapsto> 0)) 10 20 = Some (10 + i) \<and> i = 1"
proof -
  let ?m = "(\<lambda>_. None)(10 \<mapsto> 65, 11 \<mapsto> 66, 12 \<mapsto> 0, 20 \<mapsto> 66, 21 \<mapsto> 0) :: mem"
  have "occurs_at [66] [65, 66] i \<longleftrightarrow> i = 1" for i
    by (cases i rule: nat.exhaust) (auto simp: occurs_at_def nat_neq_iff)
  then show ?thesis using strstr_first_occurrence [of ?m 10 "[65, 66]" 20 "[66]"] by auto
qed

section \<open>Numbers, checksums and \<open>memchr\<close>\<close>

definition digit :: "nat \<Rightarrow> u8" where
  "digit d = of_nat (d + 0x30)"

definition decimal :: "int \<Rightarrow> nat list \<Rightarrow> int" where
  "decimal acc ds = foldl (\<lambda>a d. a * 10 + int d) acc ds"

lemma decimal_ge: "0 \<le> acc \<Longrightarrow> acc \<le> decimal acc ds"
proof (induction ds arbitrary: acc)
  case (Cons d ds)
  have "acc \<le> acc * 10 + int d" using Cons.prems by simp
  also have "\<dots> \<le> decimal (acc * 10 + int d) ds" using Cons by simp
  finally show ?case by (simp add: decimal_def)
qed (simp add: decimal_def)

lemma sint_digit: "d < 10 \<Longrightarrow> sint (digit d) = int d + 0x30" "d < 10 \<Longrightarrow> digit d \<noteq> 0"
proof -
  assume "d < 10"
  then show s: "sint (digit d) = int d + 0x30"
    using signed_take_bit_int_eq_self [of 7 "int (d + 48)"] unfolding digit_def signed_of_nat by simp
  then show "digit d \<noteq> 0" by auto
qed

definition is_digit :: "u8 \<Rightarrow> bool" where
  "is_digit c \<longleftrightarrow> 0x30 \<le> sint c \<and> sint c \<le> 0x39"

lemma atol_digits_str:
  assumes "\<forall>d\<in>set ds. d < 10" "rest = [] \<or> \<not> is_digit (hd rest)" "0 \<le> acc" "acc < 2 ^ 63"
    and "c_str m s (map digit ds @ rest)"
  shows "atol_digits m s acc = (if decimal acc ds < 2 ^ 63 then Some (decimal acc ds) else None)"
  using assms
proof (induction ds arbitrary: s acc)
  case Nil
  then show ?case by (cases rest) (subst atol_digits.simps, auto simp: decimal_def is_digit_def)+
next
  case (Cons d ds)
  have d: "sint (digit d) = int d + 0x30" "digit d \<noteq> 0" "d < 10" using Cons.prems(1) sint_digit by simp_all
  let ?acc = "acc * 10 + int d"
  have dec: "decimal acc (d # ds) = decimal ?acc ds" by (simp add: decimal_def)
  have m: "m s = Some (digit d)" "c_str m (Suc s) (map digit ds @ rest)" using Cons.prems(5) by auto
  have step: "atol_digits m s acc = do { t \<leftarrow> long_ok (acc * 10); a \<leftarrow> long_ok (t + int d); atol_digits m (Suc s) a }"
    using m d by (subst atol_digits.simps) simp
  show ?case
  proof (cases "?acc < 2 ^ 63")
    case True
    then have "long_ok (acc * 10) = Some (acc * 10)" "long_ok ?acc = Some ?acc"
      using Cons.prems(3) by (simp_all add: long_ok_def)
    then show ?thesis using step dec Cons.IH [of ?acc "Suc s"] Cons.prems(1-3) True m(2) by simp
  next
    case False
    then have "long_ok (acc * 10) = None \<or> long_ok ?acc = None" by (simp add: long_ok_def)
    then have "atol_digits m s acc = None"
      unfolding step by (cases "long_ok (acc * 10)") (auto simp: long_ok_def split: if_splits)
    moreover have "\<not> decimal ?acc ds < 2 ^ 63" using decimal_ge [of ?acc ds] Cons.prems(3) False by simp
    ultimately show ?thesis by (simp add: dec)
  qed
qed

lemma atol_blanks_str:
  "set blanks \<subseteq> {0x20, 0x09} \<Longrightarrow> c_str m s (blanks @ c # cs) \<Longrightarrow> c \<noteq> 0x20 \<Longrightarrow> c \<noteq> 0x09 \<Longrightarrow>
   atol_blanks m s = Some (s + length blanks)"
proof (induction blanks arbitrary: s)
  case Nil
  then show ?case by (subst atol_blanks.simps) simp
next
  case (Cons b bs)
  then show ?case by (subst atol_blanks.simps) auto
qed

text \<open>\<open>atol\<close> skips blanks and an optional sign and returns the decimal number that follows, up
  to the first character that is not a digit; a number whose absolute value a \<open>long\<close> cannot hold
  overflows the accumulator, also the one negative number \<open>- 2 ^ 63\<close> that a \<open>long\<close> has.\<close>

theorem atol_decimal:
  assumes "c_str m p (blanks @ sign @ map digit ds @ rest)" "set blanks \<subseteq> {0x20, 0x09}"
    and "sign \<in> {[], [0x2B], [0x2D]}" "ds \<noteq> []" "\<forall>d\<in>set ds. d < 10" "rest = [] \<or> \<not> is_digit (hd rest)"
  shows "atol m p =
    (if decimal 0 ds < 2 ^ 63 then Some (if sign = [0x2D] then - decimal 0 ds else decimal 0 ds) else None)"
proof -
  let ?p = "p + length blanks"
  obtain d ds' where ds: "ds = d # ds'" using assms(4) by (cases ds) auto
  have sd: "sint (digit d) = int d + 0x30" using assms(5) sint_digit(1) ds by simp
  have "sint (digit d) \<noteq> sint x" if "x \<in> {0x20, 0x09, 0x2B, 0x2D}" for x :: u8
    using that by (auto simp: sd)
  then have d: "digit d \<noteq> 0x20" "digit d \<noteq> 0x09" "digit d \<noteq> 0x2B" "digit d \<noteq> 0x2D" by fastforce+
  have rest: "c_str m (?p + length sign) (map digit ds @ rest)"
    using assms(1) by (simp add: c_str_append)
  note dig = atol_digits_str [OF assms(5,6) _ _ rest, of 0]
  have blank: "atol_blanks m p = Some ?p"
    using assms(1-3) d ds by (auto intro!: atol_blanks_str)
  have at: "m ?p = Some (hd (sign @ map digit ds))"
    using assms(1,3) ds by (auto simp: c_str_append split: Option.bind_splits)
  show ?thesis
    using assms(3) dig blank at d ds by (auto simp: atol_def Let_def)
qed

theorem atol_decimal_witness:
  "atol ((\<lambda>_. None)(10 \<mapsto> 0x20, 11 \<mapsto> 0x2D, 12 \<mapsto> 0x34, 13 \<mapsto> 0x32, 14 \<mapsto> 0)) 10 = Some (- 42)"
  using atol_decimal [of "(\<lambda>_. None)(10 \<mapsto> 0x20, 11 \<mapsto> 0x2D, 12 \<mapsto> 0x34, 13 \<mapsto> 0x32, 14 \<mapsto> 0)" 10 "[0x20]" "[0x2D]" "[4, 2]" "[]"]
  by (simp add: digit_def decimal_def)

text \<open>The remaining helpers: \<open>memchr\<close> finds the first occurrence among \<open>n\<close> bytes, and \<open>csum8\<close> adds the
  bytes up modulo 256, so that appending its negation makes a sum of zero.\<close>

lemma memchr_correct:
  "load_bytes m s n = Some xs \<Longrightarrow>
   memchr m s c n = Some (if c \<in> set xs then s + length (takeWhile (\<lambda>x. x \<noteq> c) xs) else 0)"
  by (induction n arbitrary: s xs) (auto split: Option.bind_splits)

lemma csum8_loop_eq:
  "load_bytes m buf n = Some xs \<Longrightarrow> csum8_loop m buf n s = Some (s + sum_list (map ucast xs))"
  by (induction n arbitrary: buf xs s) (fastforce split: Option.bind_splits)+

lemma ucast_sum_list: "ucast (sum_list (map ucast xs) :: u32) = (sum_list xs :: u8)"
proof (induction xs)
  case (Cons x xs)
  have add: "(ucast (a + b :: u32) :: u8) = ucast a + ucast b" for a b
    by (rule unsigned_word_eqI [where 'a = nat])
      (simp add: unat_word_ariths unsigned_ucast_eq take_bit_eq_mod mod_mod_cancel mod_add_eq)
  have "(ucast (ucast x :: u32) :: u8) = x" by (rule bit_word_eqI) (simp add: bit_ucast_iff)
  then show ?case using Cons by (simp add: add)
qed simp

lemma csum8_correct:
  "load_bytes m buf (unat len) = Some xs \<Longrightarrow> csum8 m buf len = Some (sum_list xs)"
  by (simp add: csum8_def csum8_loop_eq ucast_sum_list)

end
