(* ===== verification/Spec2Isabelle.thy ===== *)
theory Spec2Isabelle
  imports Session Ports CString
begin

text \<open>
  A verification library for microv, a minimal virtual machine monitor on KVM.

  \<^bold>\<open>The program.\<close> \<open>src/main.c\<close> opens KVM, maps the guest's RAM (\<open>src/memory.c\<close>), writes a boot image into it
  (page tables in \<open>main.c\<close>, the MP table in \<open>src/mptable.c\<close>, command line, kernel, RAM disk and zero page in
  \<open>src/bootparams.c\<close>, descriptor tables in \<open>src/gdt.c\<close>), starts the event thread (\<open>src/ioeventfd.c\<close>), creates
  the buses (\<open>src/iobus.c\<close>, \<open>src/pci.c\<close>), the serial port (\<open>src/serial.c\<close>) and the disk
  (\<open>src/virtio-pci.c\<close>, \<open>src/virtio-blk.c\<close> over \<open>src/virtqueue.c\<close>), gives KVM the state of the processor
  (\<open>src/vcpu.c\<close>) and then serves the exits of the guest. \<open>src/list.h\<close> and \<open>src/string.c\<close> are its list and string
  helpers.

  \<^bold>\<open>Theories.\<close>
  \<^item> \<open>Prelude\<close>: words and bytes, little-endian encodings, byte objects, the locale \<open>byte_store\<close> of an addressable
    memory with its read-over-write laws, and the lemma collections (\<open>const_simps\<close> and others).
  \<^item> \<open>Global\<close>: the address map of \<open>global.h\<close>. \<open>Uapi\<close>: the constants of the Linux headers the program includes.
  \<^item> \<open>Memory\<close>: \<open>memory.c\<close>. State \<open>memory\<close> (\<open>MemMapper\<close>, \<open>RamSize\<close>, host memory). Host memory and guest memory
    interpret \<open>byte_store\<close>; \<open>holds\<close>, \<open>points\<close> and \<open>frame\<close> state what a range of guest memory contains and what
    an operation leaves alone.
  \<^item> \<open>Gdt\<close>, \<open>Pagetable\<close>, \<open>Mptable\<close>, \<open>Bootparams\<close>, \<open>Vcpu\<close>: the boot components, each with its structures laid out
    in bytes; \<open>Boot\<close> composes them as \<open>init_linux_boot\<close> does.
  \<^item> \<open>Iobus\<close>: regions and buses as objects linked by pointers, with the locale \<open>region_bus\<close> (lookup after register
    and deregister) and the locale \<open>handler_inv\<close> (what every handler keeps, dispatch keeps).
  \<^item> \<open>Serial\<close>: the UART, its FIFO under the locales of a bounded queue, and the port as a state machine.
  \<^item> \<open>Pci\<close>: configuration space, BARs and the CF8/CFC mechanism. \<open>Virtqueue\<close>: the packed ring. \<open>List_head\<close>: the
    circular lists under the locale \<open>node_sequence\<close>. \<open>Ioeventfd\<close>: the event thread. \<open>Virtio_pci\<close>: the register
    window. \<open>Virtio_blk\<close>: requests against a disk image, and the device its initialisation leaves. \<open>Blk_queue\<close>: a
    notification as a whole, against the abstract disk \<open>blk_serve\<close> on which transfers are made one after the other.
  \<^item> \<open>Machine\<close>: the handler table, the vcpu loop, device creation and \<open>main\<close>; the machine as a step relation over
    guest accesses, terminal input and event dispatch. The locales \<open>blk_relation\<close> and \<open>window_relation\<close> lift a
    relation that holds over the elementary steps of the disk and of the register window to their handlers; they
    are interpreted for guest memory in \<open>Machine\<close>, for what a notification leaves alone in \<open>Guest\<close> (\<open>blk_relation\<close> only) and
    for the PCI state in \<open>Ports\<close>.
  \<^item> \<open>Enumeration\<close> and \<open>Guest\<close>: the machine as the guest's driver uses it, from the configuration ports over the BAR
    and the doorbell to the interrupt, composed from \<open>create_devices\<close>, the vcpu loop and the handlers. \<open>Session\<close>: a whole
    run with a disk, from \<open>main\<close> over the driver's register writes (\<open>driver_setup\<close>, exits of the vcpu loop) to rounds of requests
    (\<open>driver_round\<close>: the memory the guest has when it rings the doorbell), against the disk of \<open>blk_serve\<close>. \<open>Ports\<close>: the
    port space under an arbitrary guest, as an invariant of the step relation of \<open>Machine\<close>.
  \<^item> \<open>CString\<close>: \<open>string.c\<close>, over byte memory with partial accesses.

  \<^bold>\<open>Conventions.\<close> A pointer access outside its object, a free of an indeterminate pointer, a test of an
  uninitialised variable and a loop that does not end are \<open>None\<close>; \<open>Some\<close> is a defined return. Early returns and
  \<open>exit\<close> are the left summand of a sum. Integers keep their width; offsets inside one object are natural numbers.
  Loops that may run for ever (the walk of a region list, the list iterations, the request loop of the disk) are
  partial functions into options, and theorems that say they end state the value. The handler table \<open>io_call\<close> has a
  depth: the data port is the only handler that calls another, so depth two reaches all of them, and
  a configuration data port that would call itself is no region of the PCI bus.

  \<^bold>\<open>Parameters.\<close> System calls (for the two threads, what each \<open>epoll_wait\<close> reports), KVM's answers, the \<open>cpuid\<close> instruction, the files, \<open>getopt_long\<close> and indeterminate
  variables are arguments of the definitions. The only law assumed of them is \<open>mmap_contract\<close>: a successful
  mapping is a range of the address space apart from the other mappings. Reads and writes of the disk image
  are the \<open>lseek\<close>, \<open>read\<close> and \<open>write\<close> calls of the source on a regular file.

  \<^bold>\<open>What is shown.\<close> The boot image is complete and consistent, from the page walk at the first instruction to the
  parsed MP table and the memory map (\<open>Boot\<close>, \<open>Mptable\<close>, \<open>Bootparams\<close>, \<open>Vcpu\<close>, \<open>Gdt\<close>, \<open>Pagetable\<close>); \<open>main\<close> reaches
  the vcpu loop with it, and each way it fails earlier is described (\<open>Machine\<close>). Address translation is exact and
  injective and survives every interleaving of device activity (\<open>Memory\<close>, \<open>Machine\<close>). The buses find the region
  registered last, dispatch only accesses that fit, and BAR programming keeps them in step with the devices
  (\<open>Iobus\<close>, \<open>Pci\<close>). The serial port refines a queue as long as it is not overrun, and announces its bytes until the count of
  unread bytes wraps (\<open>Serial\<close>); the packed ring refines
  a counter (\<open>Virtqueue\<close>); enabling a queue binds its doorbell (\<open>Virtio_pci\<close>), and a notification serves every
  queued request, ends, and leaves disk, buffers, status and ring as the abstract disk says (\<open>Blk_queue\<close>). End to end, the
  guest finds the disk on the PCI bus, maps its registers and has its requests served by one doorbell write
  (\<open>Enumeration\<close>, \<open>Guest\<close>); a whole run of \<open>main\<close> with a disk serves any number of rounds of requests as one abstract disk does
  (\<open>Session\<close>); and in every machine a guest can reach, whatever it did to the BARs,
  the ports decode as at the start and every port exit but a write of the command register is served (\<open>Ports\<close>). The error theorems state
  the defects the code has: endless loops, uninitialised reads, out-of-range accesses and overwritten
  pointers, with the inputs that reach them.

  \<^bold>\<open>Not modelled.\<close> The functions named \<open>_test_*\<close> and \<open>usage\<close>, which only print; closing of descriptors at the end of
  \<open>main\<close>; data races: a step of the machine is a whole handler. The contents of the system headers are
  not part of the sources; the constants used of them are in \<open>Uapi\<close>.
\<close>

end
